(* ===== verification/Gateway_Prelude.thy ===== *)
theory Gateway_Prelude
  imports Main "HOL-Library.AList" "HOL-Library.Multiset"
begin

text \<open>
  Shared vocabulary of the development: the collections of facts its proofs draw on, the
  representation of Go maps, and the generic list lemmas the components share.

  A Go \<^verbatim>\<open>map[K]V\<close> is an association list with distinct keys (\<open>gomap_wf\<close>): lookup is
  \<open>map_of\<close>, \<^verbatim>\<open>m[k] = v\<close> is \<open>AList.update\<close>, \<^verbatim>\<open>delete(m, k)\<close> is \<open>AList.delete\<close>,
  \<^verbatim>\<open>len(m)\<close> is \<open>length\<close>. A \<^verbatim>\<open>for range\<close> over a map visits the entries in an order the Go
  runtime chooses afresh; operations that range over a map take that choice as a parameter
  \<open>ord\<close>, of which only \<open>range_order ord\<close> (it permutes the entries) is ever assumed.
\<close>

section \<open>Fact collections\<close>

named_theorems op_defs \<open>definitions of the operations, to unfold one call\<close>
named_theorems wf_simps \<open>rewrite rules for well-formedness predicates\<close>
named_theorems wf_intros \<open>preservation of well-formedness, one rule per operation\<close>
named_theorems frame_simps \<open>fields an operation leaves alone\<close>

section \<open>Go maps\<close>

type_synonym ('k, 'v) gomap = "('k \<times> 'v) list"

definition gomap_wf :: "('k, 'v) gomap \<Rightarrow> bool" where
  "gomap_wf m \<longleftrightarrow> distinct (map fst m)"

text \<open>The zero value of an absent integer entry: \<^verbatim>\<open>m[k]\<close> reads 0.\<close>

definition gomap_count :: "('k, int) gomap \<Rightarrow> 'k \<Rightarrow> int" where
  "gomap_count m k = (case map_of m k of None \<Rightarrow> 0 | Some n \<Rightarrow> n)"

definition range_order :: "('a list \<Rightarrow> 'a list) \<Rightarrow> bool" where
  "range_order ord \<longleftrightarrow> (\<forall>xs. mset (ord xs) = mset xs)"

lemma gomap_wf_Nil [simp]: "gomap_wf []"
  by (simp add: gomap_wf_def)

lemma gomap_wf_update [simp, wf_intros]: "gomap_wf m \<Longrightarrow> gomap_wf (AList.update k v m)"
  by (simp add: gomap_wf_def distinct_update)

lemma gomap_wf_delete [simp, wf_intros]: "gomap_wf m \<Longrightarrow> gomap_wf (AList.delete k m)"
  by (simp add: gomap_wf_def distinct_delete)

lemma gomap_lookup_update [simp]: "map_of (AList.update k v m) = (map_of m)(k \<mapsto> v)"
  by (simp add: update_conv')

lemma gomap_lookup_delete [simp]: "map_of (AList.delete k m) = (map_of m)(k := None)"
  by (simp add: delete_conv')

lemma gomap_mem_iff: "gomap_wf m \<Longrightarrow> (k, v) \<in> set m \<longleftrightarrow> map_of m k = Some v"
  by (simp add: gomap_wf_def)

lemma map_of_filter_snd:
  "gomap_wf m \<Longrightarrow> map_of (filter (\<lambda>(_, c). P c) m) k =
     (case map_of m k of None \<Rightarrow> None | Some c \<Rightarrow> if P c then Some c else None)"
  by (induction m) (auto simp: gomap_wf_def map_of_eq_None_iff image_iff split: option.split)

lemma gomap_count_simps [simp]:
  "gomap_count [] k = 0"
  "gomap_count (AList.update a n m) k = (if k = a then n else gomap_count m k)"
  "gomap_count (AList.delete a m) k = (if k = a then 0 else gomap_count m k)"
  by (simp_all add: gomap_count_def)

lemma range_order_set: "range_order ord \<Longrightarrow> set (ord xs) = set xs"
  by (metis range_order_def set_mset_mset)

lemma range_order_length: "range_order ord \<Longrightarrow> length (ord xs) = length xs"
  by (metis range_order_def size_mset)

lemma range_order_map_distinct: "range_order ord \<Longrightarrow> distinct (map f (ord xs)) = distinct (map f xs)"
  by (metis range_order_def mset_map mset_eq_imp_distinct_iff)

lemma range_order_id [simp]: "range_order (\<lambda>xs. xs)"
  by (simp add: range_order_def)

lemma range_order_rev [simp]: "range_order rev"
  by (simp add: range_order_def)

section \<open>Lists\<close>

lemma set_concat_map_nth: "set (concat (map g xs)) = (\<Union>i<length xs. set (g (xs ! i)))"
proof -
  have "set xs = (!) xs ` {..<length xs}" by (auto simp: set_conv_nth)
  then show ?thesis by simp
qed

lemma count_list_distinct: "distinct xs \<Longrightarrow> count_list xs x = (if x \<in> set xs then 1 else 0)"
  by (induction xs) auto

text \<open>The first occurrence of a separator splits a list in one way.\<close>

lemma split_at_eq_iff:
  "x \<notin> set xs \<Longrightarrow> x \<notin> set xs' \<Longrightarrow> xs @ x # ys = xs' @ x # ys' \<longleftrightarrow> xs = xs' \<and> ys = ys'"
proof (induction xs arbitrary: xs')
  case Nil
  then show ?case by (cases xs') auto
next
  case (Cons a xs)
  then show ?case by (cases xs') auto
qed

section \<open>Characters\<close>

lemma char_eq_iff_of_char: "c = d \<longleftrightarrow> (of_char c :: nat) = of_char d"
  by (metis char_of_char)

lemma byte_less: "of_char c < (256 :: nat)"
  by simp

end
