(* ===== verification/Go_Strings.thy ===== *)
theory Go_Strings
  imports Gateway_Prelude "HOL-Library.Sublist"
begin

text \<open>
  The part of Go's \<^verbatim>\<open>strings\<close> package the gateway uses. A Go string is a sequence of bytes,
  here a \<open>char list\<close>; a non-ASCII code point is its UTF-8 bytes.

  \<open>strings_ReplaceAll\<close> replaces the non-overlapping occurrences of a non-empty pattern from
  left to right (every call of the gateway has a constant, non-empty pattern);
  \<open>replacer_Replace\<close> is \<^verbatim>\<open>strings.NewReplacer(...).Replace\<close>, which at each position tries the
  patterns in argument order. \<open>strings_TrimSpace\<close> strips Unicode white space: the six ASCII
  characters and the UTF-8 encodings listed in \<open>space_runes\<close>; on well-formed and malformed
  input alike a byte sequence is a leading (trailing) space exactly if it is a prefix
  (suffix) from that list, because no encoding starts with a continuation byte.
\<close>

section \<open>Definitions\<close>

subsection \<open>Prefixes\<close>

definition strings_HasPrefix :: "string \<Rightarrow> string \<Rightarrow> bool" where
  "strings_HasPrefix s p \<longleftrightarrow> prefix p s"

definition strings_CutPrefix :: "string \<Rightarrow> string \<Rightarrow> string \<times> bool" where
  "strings_CutPrefix s p = (if prefix p s then (drop (length p) s, True) else (s, False))"

subsection \<open>Replacement\<close>

function strings_ReplaceAll :: "string \<Rightarrow> string \<Rightarrow> string \<Rightarrow> string" where
  "strings_ReplaceAll s old new =
     (if old = [] then s
      else case s of
        [] \<Rightarrow> []
      | c # cs \<Rightarrow>
          if prefix old s then new @ strings_ReplaceAll (drop (length old) s) old new
          else c # strings_ReplaceAll cs old new)"
  by pat_completeness auto
termination
  by (relation "measure (\<lambda>(s, old, new). length s)") auto

declare strings_ReplaceAll.simps [simp del]

function replacer_Replace :: "(string \<times> string) list \<Rightarrow> string \<Rightarrow> string" where
  "replacer_Replace ps s =
     (case s of
        [] \<Rightarrow> []
      | c # cs \<Rightarrow>
          (case find (\<lambda>(old, _). old \<noteq> [] \<and> prefix old s) ps of
             Some (old, new) \<Rightarrow> new @ replacer_Replace ps (drop (length old) s)
           | None \<Rightarrow> c # replacer_Replace ps cs))"
  by pat_completeness auto
termination
  by (relation "measure (\<lambda>(ps, s). length s)") (auto simp: find_Some_iff)

declare replacer_Replace.simps [simp del]

subsection \<open>Trimming\<close>

definition ascii_spaces :: string where
  "ascii_spaces = [CHR 0x09, CHR 0x0A, CHR 0x0B, CHR 0x0C, CHR 0x0D, CHR 0x20]"

definition space_runes :: "string list" where
  "space_runes = map (\<lambda>c. [c]) ascii_spaces @
     [[CHR 0xC2, CHR 0x85], [CHR 0xC2, CHR 0xA0], [CHR 0xE1, CHR 0x9A, CHR 0x80]] @
     map (\<lambda>c. [CHR 0xE2, CHR 0x80, c])
       [CHR 0x80, CHR 0x81, CHR 0x82, CHR 0x83, CHR 0x84, CHR 0x85, CHR 0x86, CHR 0x87, CHR 0x88,
        CHR 0x89, CHR 0x8A] @
     [[CHR 0xE2, CHR 0x80, CHR 0xA8], [CHR 0xE2, CHR 0x80, CHR 0xA9],
      [CHR 0xE2, CHR 0x80, CHR 0xAF], [CHR 0xE2, CHR 0x81, CHR 0x9F],
      [CHR 0xE3, CHR 0x80, CHR 0x80]]"

function strip_prefixes :: "string list \<Rightarrow> string \<Rightarrow> string" where
  "strip_prefixes ps s =
     (case find (\<lambda>p. p \<noteq> [] \<and> prefix p s) ps of
        None \<Rightarrow> s
      | Some p \<Rightarrow> strip_prefixes ps (drop (length p) s))"
  by pat_completeness auto
termination
  by (relation "measure (\<lambda>(ps, s). length s)")
    (auto simp: find_Some_iff prefix_def)

declare strip_prefixes.simps [simp del]

definition strings_TrimSpace :: "string \<Rightarrow> string" where
  "strings_TrimSpace s =
     rev (strip_prefixes (map rev space_runes) (rev (strip_prefixes space_runes s)))"

text \<open>\<^verbatim>\<open>strings.TrimLeft\<close> and \<^verbatim>\<open>strings.TrimRight\<close> with an ASCII cutset.\<close>

definition strings_TrimLeft :: "string \<Rightarrow> string \<Rightarrow> string" where
  "strings_TrimLeft s cutset = dropWhile (\<lambda>c. c \<in> set cutset) s"

definition strings_TrimRight :: "string \<Rightarrow> string \<Rightarrow> string" where
  "strings_TrimRight s cutset = rev (dropWhile (\<lambda>c. c \<in> set cutset) (rev s))"

subsection \<open>Splitting\<close>

text \<open>\<^verbatim>\<open>strings.Split(s, sep)\<close> for a separator of one byte.\<close>

fun strings_Split :: "string \<Rightarrow> char \<Rightarrow> string list" where
  "strings_Split [] sep = [[]]"
| "strings_Split (c # cs) sep =
     (if c = sep then [] # strings_Split cs sep
      else case strings_Split cs sep of
             [] \<Rightarrow> [[c]]
           | w # ws \<Rightarrow> (c # w) # ws)"

subsection \<open>Decimal integers\<close>

text \<open>\<^verbatim>\<open>strconv.FormatInt(n, 10)\<close> and \<^verbatim>\<open>%d\<close>.\<close>

fun nat_digits :: "nat \<Rightarrow> string" where
  "nat_digits n = (if n < 10 then [char_of (n + 48)]
                   else nat_digits (n div 10) @ [char_of (n mod 10 + 48)])"

declare nat_digits.simps [simp del]

definition strconv_FormatInt :: "int \<Rightarrow> string" where
  "strconv_FormatInt i = (if i < 0 then CHR ''-'' # nat_digits (nat (- i)) else nat_digits (nat i))"

section \<open>Lemmas\<close>

subsection \<open>Replacement\<close>

lemma ReplaceAll_Nil [simp]: "strings_ReplaceAll [] old new = []"
  by (simp add: strings_ReplaceAll.simps)

lemma ReplaceAll_hit [simp]:
  "p \<noteq> [] \<Longrightarrow> strings_ReplaceAll (p @ s) p new = new @ strings_ReplaceAll s p new"
  by (cases p) (simp_all add: strings_ReplaceAll.simps [of "_ # _"])

lemma ReplaceAll_skip:
  "c \<noteq> hd p \<Longrightarrow> p \<noteq> [] \<Longrightarrow> strings_ReplaceAll (c # s) p new = c # strings_ReplaceAll s p new"
  by (subst strings_ReplaceAll.simps) (cases p, auto)

text \<open>A stretch of text without the pattern's first character is copied unchanged.\<close>

lemma ReplaceAll_append_absent:
  assumes "p \<noteq> []" and "hd p \<notin> set xs"
  shows "strings_ReplaceAll (xs @ ys) p new = xs @ strings_ReplaceAll ys p new"
  using assms(2) by (induction xs) (use assms(1) in \<open>auto simp: ReplaceAll_skip\<close>)

lemma ReplaceAll_absent:
  assumes "p \<noteq> []" and "hd p \<notin> set xs"
  shows "strings_ReplaceAll xs p new = xs"
  using ReplaceAll_append_absent [OF assms, of "[]"] by simp

lemma ReplaceAll_char:
  "strings_ReplaceAll s [c] new = concat (map (\<lambda>x. if x = c then new else [x]) s)"
  by (induction s) (auto simp: strings_ReplaceAll.simps [of "_ # _"])

lemma ReplaceAll_char_map:
  "strings_ReplaceAll s [c] [d] = map (\<lambda>x. if x = c then d else x) s"
  by (induction s) (auto simp: ReplaceAll_char)

lemma ReplaceAll_char_delete:
  "strings_ReplaceAll s [c] [] = filter (\<lambda>x. x \<noteq> c) s"
  by (induction s) (auto simp: ReplaceAll_char)

lemma replacer_Nil [simp]: "replacer_Replace ps [] = []"
  by (simp add: replacer_Replace.simps)

lemma replacer_hit:
  assumes "find (\<lambda>(old, _). old \<noteq> [] \<and> prefix old (p @ s)) ps = Some (p, new)"
  shows "replacer_Replace ps (p @ s) = new @ replacer_Replace ps s"
proof -
  have "p \<noteq> []" using assms by (auto simp: find_Some_iff)
  then obtain c cs where "p = c # cs" by (cases p) auto
  then show ?thesis
    using assms by (simp add: replacer_Replace.simps [of ps "_ # _"])
qed

lemma replacer_skip:
  assumes "find (\<lambda>(old, _). old \<noteq> [] \<and> prefix old (c # s)) ps = None"
  shows "replacer_Replace ps (c # s) = c # replacer_Replace ps s"
  using assms by (subst replacer_Replace.simps) simp

subsection \<open>Trimming\<close>

lemma strip_prefixes_suffix: "suffix (strip_prefixes ps s) s"
proof (induction ps s rule: strip_prefixes.induct)
  case (1 ps s)
  show ?case
  proof (cases "find (\<lambda>p. p \<noteq> [] \<and> prefix p s) ps")
    case None
    then show ?thesis by (simp add: strip_prefixes.simps [of ps s])
  next
    case (Some p)
    with "1" have "suffix (strip_prefixes ps (drop (length p) s)) (drop (length p) s)" by simp
    then have "suffix (strip_prefixes ps (drop (length p) s)) s"
      using suffix_drop suffix_order.trans by blast
    with Some show ?thesis by (simp add: strip_prefixes.simps [of ps s])
  qed
qed

lemma strip_prefixes_done: "p \<in> set ps \<Longrightarrow> p \<noteq> [] \<Longrightarrow> \<not> prefix p (strip_prefixes ps s)"
proof (induction ps s rule: strip_prefixes.induct)
  case (1 ps s)
  show ?case
  proof (cases "find (\<lambda>p. p \<noteq> [] \<and> prefix p s) ps")
    case None
    with "1.prems" have "\<not> prefix p s" unfolding find_None_iff by blast
    with None show ?thesis by (simp add: strip_prefixes.simps [of ps s])
  next
    case (Some q)
    with "1" show ?thesis by (simp add: strip_prefixes.simps [of ps s])
  qed
qed

lemma strip_prefixes_id: "(\<And>p. p \<in> set ps \<Longrightarrow> p \<noteq> [] \<Longrightarrow> \<not> prefix p s) \<Longrightarrow> strip_prefixes ps s = s"
  by (subst strip_prefixes.simps) (auto simp: find_Some_iff split: option.split)

lemma TrimSpace_sublist: "sublist (strings_TrimSpace s) s"
proof -
  let ?t = "strip_prefixes space_runes s"
  have "prefix (strings_TrimSpace s) ?t"
    using strip_prefixes_suffix [of "map rev space_runes" "rev ?t"]
    by (simp add: strings_TrimSpace_def suffix_to_prefix)
  moreover have "suffix ?t s" by (rule strip_prefixes_suffix)
  ultimately show ?thesis
    by (meson prefix_imp_sublist suffix_imp_sublist sublist_order.order_trans)
qed

lemma TrimSpace_set: "set (strings_TrimSpace s) \<subseteq> set s"
  using TrimSpace_sublist set_mono_sublist by blast

text \<open>
  Strings that neither start with the first byte of a space nor end in the last byte of one
  are left alone: a syntactic test that decides most concrete cases.
\<close>

definition space_leads :: string where
  "space_leads = ascii_spaces @ [CHR 0xC2, CHR 0xE1, CHR 0xE2, CHR 0xE3]"

definition space_trails :: string where
  "space_trails = ascii_spaces @ [CHR 0x85, CHR 0xA0, CHR 0x80, CHR 0x81, CHR 0x82, CHR 0x83, CHR 0x84,
     CHR 0x86, CHR 0x87, CHR 0x88, CHR 0x89, CHR 0x8A, CHR 0xA8, CHR 0xA9, CHR 0xAF, CHR 0x9F]"

definition no_space_ends :: "string \<Rightarrow> bool" where
  "no_space_ends s \<longleftrightarrow> hd s \<notin> set space_leads \<and> last s \<notin> set space_trails"

lemma space_runes_ends:
  "p \<in> set space_runes \<Longrightarrow> p \<noteq> [] \<and> hd p \<in> set space_leads \<and> last p \<in> set space_trails"
  by (auto simp: space_runes_def space_leads_def space_trails_def)

lemma TrimSpace_id:
  assumes "no_space_ends s"
  shows "strings_TrimSpace s = s"
proof -
  have 1: "strip_prefixes space_runes s = s"
  proof (rule strip_prefixes_id)
    fix p assume "p \<in> set space_runes"
    with assms space_runes_ends [of p] have "p \<noteq> []" "hd p \<noteq> hd s" by (auto simp: no_space_ends_def)
    then show "\<not> prefix p s" by (auto simp: prefix_def)
  qed
  have 2: "strip_prefixes (map rev space_runes) (rev s) = rev s"
  proof (rule strip_prefixes_id)
    fix p assume "p \<in> set (map rev space_runes)"
    then obtain q where q: "q \<in> set space_runes" "p = rev q" by auto
    with assms space_runes_ends [of q] have "q \<noteq> []" "last q \<noteq> last s" by (auto simp: no_space_ends_def)
    then show "\<not> prefix p (rev s)"
      by (auto simp: q suffix_to_prefix [symmetric] suffix_def)
  qed
  show ?thesis by (simp add: strings_TrimSpace_def 1 2)
qed

lemmas trim_eval = TrimSpace_id no_space_ends_def space_leads_def space_trails_def ascii_spaces_def

lemma TrimSpace_Nil [simp]: "strings_TrimSpace [] = []"
  using TrimSpace_set [of "[]"] by simp

subsection \<open>Splitting\<close>

lemma Split_nonempty [simp]: "strings_Split s sep \<noteq> []"
  by (induction s sep rule: strings_Split.induct) (auto split: list.splits)

lemma Split_no_sep: "w \<in> set (strings_Split s sep) \<Longrightarrow> sep \<notin> set w"
  by (induction s sep arbitrary: w rule: strings_Split.induct)
    (fastforce split: if_splits list.splits)+

lemma Split_set: "w \<in> set (strings_Split s sep) \<Longrightarrow> set w \<subseteq> set s"
  by (induction s sep arbitrary: w rule: strings_Split.induct)
    (fastforce split: if_splits list.splits)+

lemma Split_append_sep:
  "sep \<notin> set xs \<Longrightarrow> strings_Split (xs @ sep # ys) sep = xs # strings_Split ys sep"
  by (induction xs) auto

lemma Split_no_sep_single: "sep \<notin> set xs \<Longrightarrow> strings_Split xs sep = [xs]"
  by (induction xs) auto

subsection \<open>Decimal integers\<close>

lemma nat_digits_nonempty [simp]: "nat_digits n \<noteq> []"
  by (subst nat_digits.simps) simp

lemma digit_char_bounds: "d < 10 \<Longrightarrow> of_char (char_of (d + 48 :: nat)) = d + 48"
  by simp

lemma nat_digits_range: "c \<in> set (nat_digits n) \<Longrightarrow> 48 \<le> (of_char c :: nat) \<and> (of_char c :: nat) < 58"
proof (induction n rule: nat_digits.induct)
  case (1 n)
  then show ?case
    by (cases "n < 10") (auto simp: nat_digits.simps [of n])
qed

lemma FormatInt_range:
  "c \<in> set (strconv_FormatInt i) \<Longrightarrow> 45 \<le> (of_char c :: nat) \<and> (of_char c :: nat) < 58"
  by (fastforce simp: strconv_FormatInt_def dest: nat_digits_range split: if_splits)

text \<open>The value a decimal numeral denotes, to show that the notation is unambiguous.\<close>

definition digits_value :: "string \<Rightarrow> nat" where
  "digits_value s = foldl (\<lambda>v c. 10 * v + (of_char c - 48)) 0 s"

lemma digits_value_nat_digits [simp]: "digits_value (nat_digits n) = n"
proof (induction n rule: nat_digits.induct)
  case (1 n)
  then show ?case
    by (cases "n < 10") (auto simp: nat_digits.simps [of n] digits_value_def)
qed

lemma nat_digits_inject [simp]: "nat_digits m = nat_digits n \<longleftrightarrow> m = n"
  by (metis digits_value_nat_digits)

lemma minus_not_digit: "CHR ''-'' \<notin> set (nat_digits n)"
  using nat_digits_range by fastforce

lemma FormatInt_inject [simp]: "strconv_FormatInt i = strconv_FormatInt j \<longleftrightarrow> i = j"
proof
  assume eq: "strconv_FormatInt i = strconv_FormatInt j"
  have minus: "nat_digits n \<noteq> CHR ''-'' # s" for n s
    using minus_not_digit [of n] by (metis list.set_intros(1))
  from eq show "i = j"
    by (auto simp: strconv_FormatInt_def minus minus [symmetric] split: if_splits)
qed simp

end
