(* ===== verification/Go_Utf8.thy ===== *)
theory Go_Utf8
  imports Gateway_Prelude
begin

text \<open>
  How Go reads the bytes of a string as runes (\<^verbatim>\<open>unicode/utf8\<close>): the table of lead bytes and
  the ranges of the bytes after them. A byte that starts no valid sequence is a rune of its
  own, of width one. \<open>runes\<close> cuts a string into the byte sequences of its runes, which is
  what \<^verbatim>\<open>range\<close>, the regular expressions and the JSON encoder iterate over.
\<close>

section \<open>Definitions\<close>

abbreviation byte :: "char \<Rightarrow> nat" where
  "byte c \<equiv> of_char c"

text \<open>Number of bytes that follow a lead byte, and the range of the first of them.\<close>

definition lead_info :: "nat \<Rightarrow> (nat \<times> nat \<times> nat) option" where
  "lead_info b =
     (if 0xC2 \<le> b \<and> b \<le> 0xDF then Some (1, 0x80, 0xBF)
      else if b = 0xE0 then Some (2, 0xA0, 0xBF)
      else if b = 0xED then Some (2, 0x80, 0x9F)
      else if 0xE1 \<le> b \<and> b \<le> 0xEF then Some (2, 0x80, 0xBF)
      else if b = 0xF0 then Some (3, 0x90, 0xBF)
      else if 0xF1 \<le> b \<and> b \<le> 0xF3 then Some (3, 0x80, 0xBF)
      else if b = 0xF4 then Some (3, 0x80, 0x8F)
      else None)"

definition is_cont :: "char \<Rightarrow> bool" where
  "is_cont c \<longleftrightarrow> 0x80 \<le> byte c \<and> byte c \<le> 0xBF"

definition is_ascii :: "char \<Rightarrow> bool" where
  "is_ascii c \<longleftrightarrow> byte c < 0x80"

definition conts_ok :: "nat \<Rightarrow> nat \<Rightarrow> nat \<Rightarrow> string \<Rightarrow> bool" where
  "conts_ok n lo hi s \<longleftrightarrow>
     n \<le> length s \<and> lo \<le> byte (hd s) \<and> byte (hd s) \<le> hi \<and> list_all is_cont (take n s)"

definition rune_tail :: "char \<Rightarrow> string \<Rightarrow> nat" where
  "rune_tail c s =
     (case lead_info (byte c) of
        None \<Rightarrow> 0
      | Some (n, lo, hi) \<Rightarrow> if conts_ok n lo hi s then n else 0)"

fun runes :: "string \<Rightarrow> string list" where
  "runes [] = []"
| "runes (c # s) = (c # take (rune_tail c s) s) # runes (drop (rune_tail c s) s)"

text \<open>A rune is \<^verbatim>\<open>utf8.RuneError\<close> of width one exactly if it is a single non-ASCII byte.\<close>

definition rune_ok :: "string \<Rightarrow> bool" where
  "rune_ok r \<longleftrightarrow> (case r of [c] \<Rightarrow> is_ascii c | _ \<Rightarrow> True)"

definition utf8_Valid :: "string \<Rightarrow> bool" where
  "utf8_Valid s \<longleftrightarrow> list_all rune_ok (runes s)"

section \<open>Lemmas\<close>

lemma concat_runes [simp]: "concat (runes s) = s"
  by (induction s rule: runes.induct) simp_all

lemma runes_subset: "r \<in> set (runes s) \<Longrightarrow> set r \<subseteq> set s"
  using arg_cong [OF concat_runes [of s], of set] by (auto simp del: concat_runes)

lemma ascii_not_cont: "is_ascii c \<Longrightarrow> \<not> is_cont c"
  by (simp add: is_ascii_def is_cont_def)

lemma rune_tail_ascii [simp]: "is_ascii c \<Longrightarrow> rune_tail c s = 0"
  by (simp add: rune_tail_def is_ascii_def lead_info_def)

lemma lead_info_pos: "lead_info b = Some (n, lo, hi) \<Longrightarrow> 0 < n \<and> 0x80 \<le> lo"
  by (auto simp: lead_info_def split: if_splits)

lemma conts_ok_append:
  assumes "is_ascii d" and "0 < n"
  shows "conts_ok n lo hi (s @ d # t) = conts_ok n lo hi s"
proof (cases "n \<le> length s")
  case True
  then have "take n (s @ d # t) = take n s" "s \<noteq> []" using assms(2) by auto
  with True show ?thesis by (simp add: conts_ok_def)
next
  case False
  then have "d \<in> set (take n (s @ d # t))" by (simp add: take_Cons')
  with False ascii_not_cont [OF assms(1)] show ?thesis by (auto simp: conts_ok_def list_all_iff)
qed

lemma rune_tail_append: "is_ascii d \<Longrightarrow> rune_tail c (s @ d # t) = rune_tail c s"
  using lead_info_pos by (auto simp: rune_tail_def conts_ok_append split: option.split)

lemma rune_tail_le: "rune_tail c s \<le> length s"
  by (auto simp: rune_tail_def conts_ok_def split: option.split)

text \<open>An ASCII byte always starts a rune: what precedes it is cut on its own.\<close>

lemma runes_append_ascii:
  assumes "is_ascii d"
  shows "runes (s @ d # t) = runes s @ runes (d # t)"
proof (induction s rule: runes.induct)
  case (2 c s)
  then show ?case using rune_tail_le [of c s] by (simp add: rune_tail_append [OF assms])
qed simp

lemma runes_ascii [simp]: "is_ascii c \<Longrightarrow> runes (c # s) = [c] # runes s"
  by simp

lemma runes_nonempty: "r \<in> set (runes s) \<Longrightarrow> r \<noteq> []"
  by (induction s rule: runes.induct) auto

lemma runes_eq_Nil [simp]: "runes s = [] \<longleftrightarrow> s = []"
  by (cases s) simp_all

text \<open>A rune that contains an ASCII byte is that byte.\<close>

lemma runes_ascii_mem:
  assumes "r \<in> set (runes s)" and "c \<in> set r" and "is_ascii c"
  shows "r = [c]"
  using assms
proof (induction s rule: runes.induct)
  case (2 d s)
  show ?case
  proof (cases "r \<in> set (runes (drop (rune_tail d s) s))")
    case False
    then have r: "r = d # take (rune_tail d s) s" using "2.prems" by simp
    have "list_all is_cont (take (rune_tail d s) s)"
      by (auto simp: rune_tail_def conts_ok_def split: option.split)
    then have "c = d" using "2.prems" r ascii_not_cont [OF assms(3)] by (auto simp: list_all_iff)
    then show ?thesis using r assms(3) by simp
  qed (use 2 in simp)
qed simp

end
