(* ===== verification/Go_Json.thy ===== *)
theory Go_Json
  imports Go_Strings Go_Utf8
begin

text \<open>
  What the gateway uses of \<^verbatim>\<open>encoding/json\<close>: \<^verbatim>\<open>Marshal\<close> of strings (with the default HTML
  escaping), integers, times (\<^verbatim>\<open>time.Time.MarshalJSON\<close>, RFC 3339 with nanoseconds) and
  \<^verbatim>\<open>json.RawMessage\<close>. A raw message is validated and compacted by the package's scanner, the
  state machine \<open>scan_step\<close>; of its result codes only those matter that \<^verbatim>\<open>compact\<close> tells apart.
  The end-of-top flag of the scanner is set exactly in the state \<open>EndTop\<close>.
\<close>

section \<open>Definitions\<close>

subsection \<open>Strings\<close>

definition hex_lower :: "nat \<Rightarrow> char" where
  "hex_lower n = (if n < 10 then char_of (n + 48) else char_of (n + 87))"

definition u00 :: "char \<Rightarrow> string" where
  "u00 c = [CHR 0x5C, CHR ''u'', CHR ''0'', CHR ''0'', hex_lower (byte c div 16), hex_lower (byte c mod 16)]"

definition json_ascii :: "char \<Rightarrow> string" where
  "json_ascii c =
     (if c = CHR 0x5C \<or> c = CHR 0x22 then [CHR 0x5C, c]
      else if c = CHR 0x08 then [CHR 0x5C, CHR ''b'']
      else if c = CHR 0x0C then [CHR 0x5C, CHR ''f'']
      else if c = CHR 0x0A then [CHR 0x5C, CHR ''n'']
      else if c = CHR 0x0D then [CHR 0x5C, CHR ''r'']
      else if c = CHR 0x09 then [CHR 0x5C, CHR ''t'']
      else if byte c < 0x20 \<or> c = CHR ''<'' \<or> c = CHR ''>'' \<or> c = CHR ''&'' then u00 c
      else [c])"

definition json_rune :: "string \<Rightarrow> string" where
  "json_rune r =
     (case r of
        [c] \<Rightarrow> if is_ascii c then json_ascii c else CHR 0x5C # ''ufffd''
      | _ \<Rightarrow> if r = [CHR 0xE2, CHR 0x80, CHR 0xA8] then CHR 0x5C # ''u2028''
             else if r = [CHR 0xE2, CHR 0x80, CHR 0xA9] then CHR 0x5C # ''u2029''
             else r)"

definition json_string :: "string \<Rightarrow> string" where
  "json_string s = CHR 0x22 # concat (map json_rune (runes s)) @ [CHR 0x22]"

subsection \<open>The scanner\<close>

datatype parse_state = ParseObjectKey | ParseObjectValue | ParseArrayValue

datatype scan_state =
    BeginValueOrEmpty | BeginValue | BeginStringOrEmpty | BeginString | EndValue | EndTop
  | InString | InStringEsc | InStringEscU nat | Neg | Num1 | Num0 | Dot | Dot0 | ExpE | ExpSign | Exp0
  | InT | InTr | InTru | InF | InFa | InFal | InFals | InN | InNu | InNul | ScanError

datatype scan_code = ScanContinue | ScanSkipSpace | ScanEnd | ScanErr

type_synonym scanner = "scan_state \<times> parse_state list"

definition isSpace :: "char \<Rightarrow> bool" where
  "isSpace c \<longleftrightarrow> c = CHR 0x20 \<or> c = CHR 0x09 \<or> c = CHR 0x0D \<or> c = CHR 0x0A"

definition is_digit :: "char \<Rightarrow> bool" where
  "is_digit c \<longleftrightarrow> 48 \<le> byte c \<and> byte c \<le> 57"

definition is_hex :: "char \<Rightarrow> bool" where
  "is_hex c \<longleftrightarrow> is_digit c \<or> (97 \<le> byte c \<and> byte c \<le> 102) \<or> (65 \<le> byte c \<and> byte c \<le> 70)"

definition maxNestingDepth :: nat where
  "maxNestingDepth = 10000"

definition scan_error :: "scanner \<times> scan_code" where
  "scan_error = ((ScanError, []), ScanErr)"

definition push_state :: "scan_state \<Rightarrow> parse_state \<Rightarrow> parse_state list \<Rightarrow> scanner \<times> scan_code" where
  "push_state next p ps =
     (if Suc (length ps) \<le> maxNestingDepth then ((next, p # ps), ScanContinue) else scan_error)"

text \<open>\<^verbatim>\<open>popParseState\<close> on the rest of the stack.\<close>

definition pop_state :: "parse_state list \<Rightarrow> scanner \<times> scan_code" where
  "pop_state ps = ((if ps = [] then EndTop else EndValue, ps), ScanContinue)"

definition end_top :: "parse_state list \<Rightarrow> char \<Rightarrow> scanner \<times> scan_code" where
  "end_top ps c = (if isSpace c then ((EndTop, ps), ScanEnd) else scan_error)"

definition end_value :: "parse_state list \<Rightarrow> char \<Rightarrow> scanner \<times> scan_code" where
  "end_value ps c =
     (case ps of
        [] \<Rightarrow> end_top ps c
      | p # rest \<Rightarrow>
          if isSpace c then ((EndValue, ps), ScanSkipSpace)
          else case p of
            ParseObjectKey \<Rightarrow>
              if c = CHR '':'' then ((BeginValue, ParseObjectValue # rest), ScanContinue) else scan_error
          | ParseObjectValue \<Rightarrow>
              if c = CHR '','' then ((BeginString, ParseObjectKey # rest), ScanContinue)
              else if c = CHR ''}'' then pop_state rest else scan_error
          | ParseArrayValue \<Rightarrow>
              if c = CHR '','' then ((BeginValue, ps), ScanContinue)
              else if c = CHR '']'' then pop_state rest else scan_error)"

definition begin_string :: "parse_state list \<Rightarrow> char \<Rightarrow> scanner \<times> scan_code" where
  "begin_string ps c =
     (if isSpace c then ((BeginString, ps), ScanSkipSpace)
      else if c = CHR 0x22 then ((InString, ps), ScanContinue) else scan_error)"

definition begin_value :: "parse_state list \<Rightarrow> char \<Rightarrow> scanner \<times> scan_code" where
  "begin_value ps c =
     (if isSpace c then ((BeginValue, ps), ScanSkipSpace)
      else if c = CHR ''{'' then push_state BeginStringOrEmpty ParseObjectKey ps
      else if c = CHR ''['' then push_state BeginValueOrEmpty ParseArrayValue ps
      else if c = CHR 0x22 then ((InString, ps), ScanContinue)
      else if c = CHR ''-'' then ((Neg, ps), ScanContinue)
      else if c = CHR ''0'' then ((Num0, ps), ScanContinue)
      else if c = CHR ''t'' then ((InT, ps), ScanContinue)
      else if c = CHR ''f'' then ((InF, ps), ScanContinue)
      else if c = CHR ''n'' then ((InN, ps), ScanContinue)
      else if is_digit c then ((Num1, ps), ScanContinue)
      else scan_error)"

definition num_tail :: "parse_state list \<Rightarrow> char \<Rightarrow> scanner \<times> scan_code" where
  "num_tail ps c =
     (if c = CHR ''.'' then ((Dot, ps), ScanContinue)
      else if c = CHR ''e'' \<or> c = CHR ''E'' then ((ExpE, ps), ScanContinue)
      else end_value ps c)"

definition literal :: "char \<Rightarrow> scan_state \<Rightarrow> parse_state list \<Rightarrow> char \<Rightarrow> scanner \<times> scan_code" where
  "literal d next ps c = (if c = d then ((next, ps), ScanContinue) else scan_error)"

fun scan_step :: "scanner \<Rightarrow> char \<Rightarrow> scanner \<times> scan_code" where
  "scan_step (BeginValueOrEmpty, ps) c =
     (if isSpace c then ((BeginValueOrEmpty, ps), ScanSkipSpace)
      else if c = CHR '']'' then end_value ps c else begin_value ps c)"
| "scan_step (BeginValue, ps) c = begin_value ps c"
| "scan_step (BeginStringOrEmpty, ps) c =
     (if isSpace c then ((BeginStringOrEmpty, ps), ScanSkipSpace)
      else if c = CHR ''}'' then end_value (ParseObjectValue # tl ps) c else begin_string ps c)"
| "scan_step (BeginString, ps) c = begin_string ps c"
| "scan_step (EndValue, ps) c = end_value ps c"
| "scan_step (EndTop, ps) c = end_top ps c"
| "scan_step (InString, ps) c =
     (if c = CHR 0x22 then ((EndValue, ps), ScanContinue)
      else if c = CHR 0x5C then ((InStringEsc, ps), ScanContinue)
      else if byte c < 0x20 then scan_error
      else ((InString, ps), ScanContinue))"
| "scan_step (InStringEsc, ps) c =
     (if c \<in> set (CHR 0x5C # CHR 0x22 # ''bfnrt/'') then ((InString, ps), ScanContinue)
      else if c = CHR ''u'' then ((InStringEscU 4, ps), ScanContinue)
      else scan_error)"
| "scan_step (InStringEscU n, ps) c =
     (if is_hex c then ((if n \<le> 1 then InString else InStringEscU (n - 1), ps), ScanContinue) else scan_error)"
| "scan_step (Neg, ps) c =
     (if c = CHR ''0'' then ((Num0, ps), ScanContinue)
      else if is_digit c then ((Num1, ps), ScanContinue) else scan_error)"
| "scan_step (Num1, ps) c = (if is_digit c then ((Num1, ps), ScanContinue) else num_tail ps c)"
| "scan_step (Num0, ps) c = num_tail ps c"
| "scan_step (Dot, ps) c = (if is_digit c then ((Dot0, ps), ScanContinue) else scan_error)"
| "scan_step (Dot0, ps) c =
     (if is_digit c then ((Dot0, ps), ScanContinue)
      else if c = CHR ''e'' \<or> c = CHR ''E'' then ((ExpE, ps), ScanContinue) else end_value ps c)"
| "scan_step (ExpE, ps) c =
     (if c = CHR ''+'' \<or> c = CHR ''-'' then ((ExpSign, ps), ScanContinue)
      else if is_digit c then ((Exp0, ps), ScanContinue) else scan_error)"
| "scan_step (ExpSign, ps) c = (if is_digit c then ((Exp0, ps), ScanContinue) else scan_error)"
| "scan_step (Exp0, ps) c = (if is_digit c then ((Exp0, ps), ScanContinue) else end_value ps c)"
| "scan_step (InT, ps) c = literal (CHR ''r'') InTr ps c"
| "scan_step (InTr, ps) c = literal (CHR ''u'') InTru ps c"
| "scan_step (InTru, ps) c = literal (CHR ''e'') EndValue ps c"
| "scan_step (InF, ps) c = literal (CHR ''a'') InFa ps c"
| "scan_step (InFa, ps) c = literal (CHR ''l'') InFal ps c"
| "scan_step (InFal, ps) c = literal (CHR ''s'') InFals ps c"
| "scan_step (InFals, ps) c = literal (CHR ''e'') EndValue ps c"
| "scan_step (InN, ps) c = literal (CHR ''u'') InNu ps c"
| "scan_step (InNu, ps) c = literal (CHR ''l'') InNul ps c"
| "scan_step (InNul, ps) c = literal (CHR ''l'') EndValue ps c"
| "scan_step (ScanError, ps) c = scan_error"

text \<open>\<^verbatim>\<open>scanner.eof\<close>: does the input end where a value may end?\<close>

definition scan_eof :: "scanner \<Rightarrow> bool" where
  "scan_eof s \<longleftrightarrow> fst s = EndTop \<or> fst (fst (scan_step s (CHR 0x20))) = EndTop"

text \<open>\<^verbatim>\<open>appendCompact\<close> with HTML escaping; \<open>skip\<close> counts the bytes of a line separator already written.\<close>

definition compact_emit :: "scan_code \<Rightarrow> nat \<Rightarrow> char \<Rightarrow> string \<Rightarrow> string \<times> nat" where
  "compact_emit v skip c cs =
     (if skip > 0 then ([], skip - 1)
      else if c = CHR ''<'' \<or> c = CHR ''>'' \<or> c = CHR ''&'' then (u00 c, 0)
      else if c = CHR 0xE2 \<and> (take 2 cs = [CHR 0x80, CHR 0xA8] \<or> take 2 cs = [CHR 0x80, CHR 0xA9])
      then (CHR 0x5C # ''u202'' @ [hex_lower (byte (cs ! 1) mod 16)], 2)
      else (if v = ScanContinue then [c] else [], 0))"

fun compact :: "scanner \<Rightarrow> nat \<Rightarrow> string \<Rightarrow> string option" where
  "compact s skip [] = (if scan_eof s then Some [] else None)"
| "compact s skip (c # cs) =
     (let (s', v) = scan_step s c; (written, skip') = compact_emit v skip c cs
      in if v = ScanErr then None
         else map_option (\<lambda>out. written @ out) (compact s' skip' cs))"

definition json_Compact :: "string \<Rightarrow> string option" where
  "json_Compact src = compact (BeginValue, []) 0 src"

text \<open>\<^verbatim>\<open>RawMessage.MarshalJSON\<close> followed by the validation: the \<^verbatim>\<open>nil\<close> message is \<^verbatim>\<open>null\<close>.\<close>

definition json_raw :: "string option \<Rightarrow> string option" where
  "json_raw m = (case m of None \<Rightarrow> Some ''null'' | Some b \<Rightarrow> json_Compact b)"

section \<open>Lemmas\<close>

definition no_break :: "string \<Rightarrow> bool" where
  "no_break s \<longleftrightarrow> CHR 0x0A \<notin> set s \<and> CHR 0x0D \<notin> set s"

lemma no_break_simps [simp]:
  "no_break []" "no_break (c # s) \<longleftrightarrow> c \<noteq> CHR 0x0A \<and> c \<noteq> CHR 0x0D \<and> no_break s"
  "no_break (s @ t) \<longleftrightarrow> no_break s \<and> no_break t"
  by (auto simp: no_break_def)

lemma no_break_concat [simp]: "no_break (concat xss) \<longleftrightarrow> (\<forall>xs \<in> set xss. no_break xs)"
  by (auto simp: no_break_def)

lemma no_break_hex [simp]: "n < 16 \<Longrightarrow> hex_lower n \<noteq> CHR 0x0A \<and> hex_lower n \<noteq> CHR 0x0D"
  by (auto simp: hex_lower_def char_eq_iff_of_char)

lemma no_break_u00 [simp]: "no_break (u00 c)"
proof -
  have "byte c div 16 < 16" "byte c mod 16 < 16" by (simp_all add: div_less_iff_less_mult)
  then show ?thesis by (simp add: u00_def)
qed

lemma no_break_ascii [simp]: "no_break (json_ascii c)"
  by (simp add: json_ascii_def)

lemma no_break_rune:
  assumes "r \<in> set (runes s)"
  shows "no_break (json_rune r)"
proof (cases "\<exists>c. r = [c]")
  case True
  then obtain c where "r = [c]" by blast
  then show ?thesis by (simp add: json_rune_def)
next
  case False
  then have "no_break r"
    using runes_ascii_mem [OF assms, of "CHR 0x0A"] runes_ascii_mem [OF assms, of "CHR 0x0D"]
    by (auto simp: no_break_def is_ascii_def)
  moreover have "json_rune r \<in> {CHR 0x5C # ''u2028'', CHR 0x5C # ''u2029'', r}"
    using False by (cases r; cases "tl r"; simp add: json_rune_def)
  ultimately show ?thesis by auto
qed

lemma no_break_json_string [simp]: "no_break (json_string s)"
  by (auto simp: json_string_def no_break_rune)

text \<open>A line break is never part of a token: the scanner skips it or fails.\<close>

lemma isSpace_breaks [simp]: "isSpace (CHR 0x0A)" "isSpace (CHR 0x0D)"
  by (simp_all add: isSpace_def)

lemma breaks_not_digit [simp]:
  "\<not> is_digit (CHR 0x0A)" "\<not> is_digit (CHR 0x0D)" "\<not> is_hex (CHR 0x0A)" "\<not> is_hex (CHR 0x0D)"
  by (simp_all add: is_digit_def is_hex_def)

lemmas scan_defs = begin_value_def begin_string_def end_value_def end_top_def num_tail_def scan_error_def
  push_state_def pop_state_def literal_def

lemma scan_break:
  assumes "c = CHR 0x0A \<or> c = CHR 0x0D"
  shows "snd (scan_step s c) \<noteq> ScanContinue"
proof -
  obtain st ps where s: "s = (st, ps)" by fastforce
  have "snd (scan_step (st, ps) (CHR 0x0A)) \<noteq> ScanContinue" "snd (scan_step (st, ps) (CHR 0x0D)) \<noteq> ScanContinue"
    by (cases st; simp add: scan_defs split: list.split)+
  with assms show ?thesis unfolding s by auto
qed

lemma no_break_emit:
  "v \<noteq> ScanContinue \<or> (c \<noteq> CHR 0x0A \<and> c \<noteq> CHR 0x0D) \<Longrightarrow> no_break (fst (compact_emit v skip c cs))"
  by (auto simp: compact_emit_def)

lemma no_break_compact: "compact s skip src = Some out \<Longrightarrow> no_break out"
proof (induction src arbitrary: s skip out)
  case (Cons c cs)
  obtain s' v where step: "scan_step s c = (s', v)" by fastforce
  obtain w k where emit: "compact_emit v skip c cs = (w, k)" by fastforce
  have "no_break w" using no_break_emit [of v c skip cs] scan_break [of c s] step emit by auto
  moreover obtain out' where "compact s' k cs = Some out'" "out = w @ out'"
    using Cons.prems by (auto simp: step emit split: if_splits)
  ultimately show ?case using Cons.IH [of s' k out'] by simp
qed (simp split: if_splits)

lemma no_break_raw: "json_raw m = Some out \<Longrightarrow> no_break out"
  by (auto simp: json_raw_def json_Compact_def no_break_compact split: option.splits)

lemma no_break_FormatInt [simp]: "no_break (strconv_FormatInt i)"
  using FormatInt_range [of "CHR 0x0A" i] FormatInt_range [of "CHR 0x0D" i] by (auto simp: no_break_def)

end
