(* ===== verification/Client_Ip.thy ===== *)
theory Client_Ip
  imports Go_Strings "HOL-Library.Word"
begin

text \<open>
  The client address of a request, \<^verbatim>\<open>internal/api/helpers.go\<close>, with the part of Go's \<^verbatim>\<open>net\<close> it rests on:
  \<^verbatim>\<open>SplitHostPort\<close>, \<^verbatim>\<open>ParseIP\<close> (dotted decimal without leading zeros, and the IPv6 forms with one
  ellipsis and an embedded IPv4 tail, no zone), \<^verbatim>\<open>ParseCIDR\<close> and \<^verbatim>\<open>IPNet.Contains\<close>. An address is the
  sixteen bytes of Go's \<^verbatim>\<open>net.IP\<close>; an IPv4 address is kept in its mapped form and \<open>To4\<close> recovers it.
  \<^verbatim>\<open>Header.Get\<close> returns the first value of a header.
\<close>

unbundle bit_operations_syntax

section \<open>Definitions\<close>

subsection \<open>Addresses\<close>

type_synonym ip = "8 word list"

definition dec_digit :: "char \<Rightarrow> nat option" where
  "dec_digit c = (let n = of_char c :: nat in if 48 \<le> n \<and> n \<le> 57 then Some (n - 48) else None)"

definition hex_digit :: "char \<Rightarrow> nat option" where
  "hex_digit c =
     (let n = of_char c :: nat
      in if 48 \<le> n \<and> n \<le> 57 then Some (n - 48)
         else if 97 \<le> n \<and> n \<le> 102 then Some (n - 87)
         else if 65 \<le> n \<and> n \<le> 70 then Some (n - 55)
         else None)"

fun digits_val :: "nat \<Rightarrow> (char \<Rightarrow> nat option) \<Rightarrow> nat \<Rightarrow> string \<Rightarrow> nat option" where
  "digits_val base dig acc [] = Some acc"
| "digits_val base dig acc (c # cs) =
     (case dig c of None \<Rightarrow> None | Some d \<Rightarrow> digits_val base dig (acc * base + d) cs)"

text \<open>One decimal field of a dotted address.\<close>

definition ipv4_field :: "string \<Rightarrow> 8 word option" where
  "ipv4_field f =
     (if f = [] \<or> (hd f = CHR ''0'' \<and> length f > 1) then None
      else case digits_val 10 dec_digit 0 f of
        None \<Rightarrow> None
      | Some v \<Rightarrow> if v \<le> 255 then Some (of_nat v) else None)"

fun all_some :: "'a option list \<Rightarrow> 'a list option" where
  "all_some [] = Some []"
| "all_some (None # xs) = None"
| "all_some (Some x # xs) = map_option ((#) x) (all_some xs)"

definition parseIPv4 :: "string \<Rightarrow> 8 word list option" where
  "parseIPv4 s =
     (let fs = strings_Split s (CHR ''.'')
      in if length fs = 4 then all_some (map ipv4_field fs) else None)"

text \<open>
  The loop of \<^verbatim>\<open>parseIPv6\<close>: \<open>n\<close> fields may still follow, \<open>acc\<close> holds the bytes so far, \<open>ell\<close> the
  position of the ellipsis.
\<close>

fun v6_loop :: "nat \<Rightarrow> string \<Rightarrow> 8 word list \<Rightarrow> nat option \<Rightarrow> (8 word list \<times> nat option) option" where
  "v6_loop 0 s acc ell = (if s = [] then Some (acc, ell) else None)"
| "v6_loop (Suc n) s acc ell =
     (let digs = takeWhile (\<lambda>c. hex_digit c \<noteq> None) s; rest = drop (length digs) s
      in if digs = [] \<or> length digs > 4 then None
         else case digits_val 16 hex_digit 0 digs of
           None \<Rightarrow> None
         | Some v \<Rightarrow>
             (let acc' = acc @ [of_nat (v div 256), of_nat (v mod 256)]
              in case rest of
                   [] \<Rightarrow> Some (acc', ell)
                 | c # cs \<Rightarrow>
                     if c = CHR ''.'' then
                       (if (ell = None \<and> length acc \<noteq> 12) \<or> length acc + 4 > 16 then None
                        else map_option (\<lambda>v4. (acc @ v4, ell)) (parseIPv4 s))
                     else if c \<noteq> CHR '':'' then None
                     else
                       (case cs of
                          [] \<Rightarrow> None
                        | d # ds \<Rightarrow>
                            if d = CHR '':'' then
                              (if ell \<noteq> None then None
                               else if ds = [] then Some (acc', Some (length acc'))
                               else v6_loop n ds acc' (Some (length acc')))
                            else v6_loop n cs acc' ell)))"

definition expand_ellipsis :: "8 word list \<times> nat option \<Rightarrow> ip option" where
  "expand_ellipsis r =
     (case r of (acc, ell) \<Rightarrow>
        if length acc < 16 then
          (case ell of None \<Rightarrow> None
           | Some k \<Rightarrow> Some (take k acc @ replicate (16 - length acc) 0 @ drop k acc))
        else if ell \<noteq> None then None else Some acc)"

definition parseIPv6 :: "string \<Rightarrow> ip option" where
  "parseIPv6 s =
     (if CHR ''%'' \<in> set s then None
      else if take 2 s = ''::'' then
        (if drop 2 s = [] then Some (replicate 16 0)
         else Option.bind (v6_loop 8 (drop 2 s) [] (Some 0)) expand_ellipsis)
      else Option.bind (v6_loop 8 s [] None) expand_ellipsis)"

definition v4InV6Prefix :: "8 word list" where
  "v4InV6Prefix = replicate 10 0 @ [0xFF, 0xFF]"

text \<open>\<^verbatim>\<open>netip.ParseAddr\<close>: the first of the characters \<^verbatim>\<open>.\<close>, \<^verbatim>\<open>:\<close> and \<^verbatim>\<open>%\<close> decides; with the bit length.\<close>

definition ParseAddr :: "string \<Rightarrow> (ip \<times> nat) option" where
  "ParseAddr s =
     (case dropWhile (\<lambda>c. c \<notin> set ''.:%'') s of
        [] \<Rightarrow> None
      | c # _ \<Rightarrow>
          if c = CHR ''.'' then map_option (\<lambda>b. (v4InV6Prefix @ b, 32)) (parseIPv4 s)
          else if c = CHR '':'' then map_option (\<lambda>b. (b, 128)) (parseIPv6 s)
          else None)"

definition ParseIP :: "string \<Rightarrow> ip option" where
  "ParseIP s = map_option fst (ParseAddr s)"

definition To4 :: "ip \<Rightarrow> 8 word list option" where
  "To4 a = (if length a = 4 then Some a
            else if length a = 16 \<and> take 12 a = v4InV6Prefix then Some (drop 12 a) else None)"

subsection \<open>Networks\<close>

definition mask_byte :: "nat \<Rightarrow> 8 word" where
  "mask_byte n = (if n \<ge> 8 then 0xFF else NOT (drop_bit n 0xFF))"

definition CIDRMask :: "nat \<Rightarrow> nat \<Rightarrow> 8 word list" where
  "CIDRMask ones bits = map (\<lambda>i. mask_byte (ones - 8 * i)) [0..<bits div 8]"

definition and_bytes :: "8 word list \<Rightarrow> 8 word list \<Rightarrow> 8 word list" where
  "and_bytes a m = map2 (AND) a m"

record ip_net =
  net_IP :: "8 word list"
  net_Mask :: "8 word list"

definition ParseCIDR :: "string \<Rightarrow> ip_net option" where
  "ParseCIDR s =
     (if CHR ''/'' \<notin> set s then None
      else
        (let addr = takeWhile (\<lambda>c. c \<noteq> CHR ''/'') s; mask = drop (Suc (length addr)) s
         in case ParseAddr addr of
              None \<Rightarrow> None
            | Some (a, bits) \<Rightarrow>
                (case (if mask = [] then None else digits_val 10 dec_digit 0 mask) of
                   None \<Rightarrow> None
                 | Some n \<Rightarrow>
                     if n > bits then None
                     else
                       (let m = CIDRMask n bits; b = (if bits = 32 then drop 12 a else a)
                        in Some \<lparr>net_IP = and_bytes b m, net_Mask = m\<rparr>))))"

text \<open>\<^verbatim>\<open>IPNet.Contains\<close>, with \<^verbatim>\<open>networkNumberAndMask\<close>.\<close>

definition net_Contains :: "ip_net \<Rightarrow> ip \<Rightarrow> bool" where
  "net_Contains n a =
     (let nn = (case To4 (net_IP n) of Some x \<Rightarrow> x | None \<Rightarrow> net_IP n);
          m = (if length (net_Mask n) = 16 \<and> length nn = 4 then drop 12 (net_Mask n) else net_Mask n);
          x = (case To4 a of Some y \<Rightarrow> y | None \<Rightarrow> a)
      in length m = length nn \<and> length x = length nn \<and> and_bytes nn m = and_bytes x m)"

subsection \<open>The request\<close>

record request =
  r_Method :: string
  r_Path :: string
  r_RawQuery :: string
  r_Header :: "(string \<times> string) list"
  r_RemoteAddr :: string

definition Header_Get :: "(string \<times> string) list \<Rightarrow> string \<Rightarrow> string" where
  "Header_Get hs name = (case map_of hs name of None \<Rightarrow> [] | Some v \<Rightarrow> v)"

text \<open>\<^verbatim>\<open>net.SplitHostPort\<close>, the host only; \<open>None\<close> is an error.\<close>

definition SplitHostPort :: "string \<Rightarrow> string option" where
  "SplitHostPort s =
     (if CHR '':'' \<notin> set s then None
      else if hd s = CHR ''['' then
        (if CHR '']'' \<notin> set s then None
         else
           (let host = tl (takeWhile (\<lambda>c. c \<noteq> CHR '']'') s); rest = drop (length host + 2) s
            in case rest of
                 [] \<Rightarrow> None
               | c # port \<Rightarrow>
                   if c \<noteq> CHR '':'' \<or> CHR '':'' \<in> set port \<or> CHR ''['' \<in> set (tl s) \<or> CHR '']'' \<in> set rest
                   then None else Some host))
      else
        (let host = rev (tl (dropWhile (\<lambda>c. c \<noteq> CHR '':'') (rev s)))
         in if CHR '':'' \<in> set host \<or> CHR ''['' \<in> set s \<or> CHR '']'' \<in> set s then None else Some host))"

text \<open>The address of the peer, without the port if it has one.\<close>

definition remote_ip :: "request \<Rightarrow> string" where
  "remote_ip r = (case SplitHostPort (r_RemoteAddr r) of None \<Rightarrow> r_RemoteAddr r | Some host \<Rightarrow> host)"

definition isIPInCIDRs :: "ip option \<Rightarrow> string list \<Rightarrow> bool" where
  "isIPInCIDRs a cidrs =
     (case a of
        None \<Rightarrow> False
      | Some x \<Rightarrow> list_ex (\<lambda>cidr. case ParseCIDR cidr of None \<Rightarrow> False | Some n \<Rightarrow> net_Contains n x) cidrs)"

text \<open>The loop over the parts of \<^verbatim>\<open>X-Forwarded-For\<close>, from the right.\<close>

definition forwarded_ip :: "string list \<Rightarrow> string \<Rightarrow> string option" where
  "forwarded_ip cidrs xff =
     find (\<lambda>candidate. ParseIP candidate \<noteq> None \<and> \<not> (cidrs \<noteq> [] \<and> isIPInCIDRs (ParseIP candidate) cidrs))
       (map strings_TrimSpace (rev (strings_Split xff (CHR '',''))))"

definition real_ip :: "request \<Rightarrow> string \<Rightarrow> string" where
  "real_ip r remoteIP =
     (let clientIP = strings_TrimSpace (Header_Get (r_Header r) ''X-Real-Ip'')
      in if Header_Get (r_Header r) ''X-Real-Ip'' \<noteq> [] \<and> ParseIP clientIP \<noteq> None then clientIP else remoteIP)"

definition extractClientIP :: "request \<Rightarrow> bool \<Rightarrow> string list \<Rightarrow> string" where
  "extractClientIP r trustProxy trustedCIDRs =
     (let remoteIP = remote_ip r;
          xff = Header_Get (r_Header r) ''X-Forwarded-For''
      in if \<not> trustProxy then remoteIP
         else if trustedCIDRs \<noteq> [] \<and> \<not> isIPInCIDRs (ParseIP remoteIP) trustedCIDRs then remoteIP
         else case (if xff \<noteq> [] then forwarded_ip trustedCIDRs xff else None) of
                Some candidate \<Rightarrow> candidate
              | None \<Rightarrow> real_ip r remoteIP)"

section \<open>Lemmas\<close>

lemma Split_append: "strings_Split (xs @ sep # ys) sep = strings_Split xs sep @ strings_Split ys sep"
proof (induction xs)
  case (Cons x xs)
  then show ?case
    using Split_nonempty [of xs sep] by (auto split: list.split)
qed simp

lemma remote_ip_header [simp]: "remote_ip (r\<lparr>r_Header := hs\<rparr>) = remote_ip r"
  by (simp add: remote_ip_def split: option.split)

text \<open>What stands left of a usable entry does not matter.\<close>

lemma find_append: "find P (xs @ ys) = (case find P xs of Some x \<Rightarrow> Some x | None \<Rightarrow> find P ys)"
  by (induction xs) auto

lemma forwarded_ip_suffix:
  "forwarded_ip cidrs good = Some c \<Longrightarrow> forwarded_ip cidrs (forged @ '','' @ good) = Some c"
  by (simp add: forwarded_ip_def Split_append find_append)

lemma forwarded_ip_sound:
  "forwarded_ip cidrs xff = Some c \<Longrightarrow> ParseIP c \<noteq> None \<and> (cidrs \<noteq> [] \<longrightarrow> \<not> isIPInCIDRs (ParseIP c) cidrs)"
  by (auto simp: forwarded_ip_def find_Some_iff)

section \<open>Properties\<close>


text \<open>A proxy at 10.1.2.3 in a trusted network.\<close>

definition demo_request :: request where
  "demo_request = \<lparr>r_Method = ''GET'', r_Path = ''/v1/events'', r_RawQuery = [], r_Header = [],
     r_RemoteAddr = ''10.1.2.3:4711''\<rparr>"

lemma demo_remote: "remote_ip demo_request = ''10.1.2.3''"
  by (simp add: remote_ip_def SplitHostPort_def demo_request_def)

lemmas addr_eval = ParseIP_def ParseAddr_def parseIPv4_def ipv4_field_def dec_digit_def v4InV6Prefix_def

lemma demo_addresses:
  "ParseAddr ''10.1.2.3'' = Some (v4InV6Prefix @ [10, 1, 2, 3], 32)"
  "ParseAddr ''10.0.0.0'' = Some (v4InV6Prefix @ [10, 0, 0, 0], 32)"
  "ParseAddr ''203.0.113.9'' = Some (v4InV6Prefix @ [203, 0, 113, 9], 32)"
  "ParseAddr ''6.6.6.6'' = Some (v4InV6Prefix @ [6, 6, 6, 6], 32)"
  by (simp_all add: addr_eval)

lemma demo_network: "isIPInCIDRs (Some (v4InV6Prefix @ [a, b, c, d])) [''10.0.0.0/8''] \<longleftrightarrow> a = 10"
proof -
  have "ParseCIDR ''10.0.0.0/8'' = Some \<lparr>net_IP = [10, 0, 0, 0], net_Mask = [0xFF, 0, 0, 0]\<rparr>"
    by (simp add: ParseCIDR_def demo_addresses dec_digit_def CIDRMask_def mask_byte_def and_bytes_def v4InV6Prefix_def
        upt_rec)
  moreover have "w AND 255 = w" for w :: "8 word"
  proof -
    have "(255 :: 8 word) = - 1" by simp
    then show ?thesis by (metis and.right_neutral)
  qed
  ultimately show ?thesis
    by (simp add: isIPInCIDRs_def net_Contains_def To4_def v4InV6Prefix_def and_bytes_def)
qed


text \<open>
  Only the first \<^verbatim>\<open>X-Forwarded-For\<close> line of a request is read. Behind a proxy that adds its own line
  after the client's, the client chooses the address it is rate-limited under.
\<close>

theorem first_forwarded_line_wins:
  "extractClientIP (demo_request\<lparr>r_Header := [(''X-Forwarded-For'', ''6.6.6.6''), (''X-Forwarded-For'', ''203.0.113.9'')]\<rparr>)
     True [''10.0.0.0/8''] = ''6.6.6.6''"
proof -
  have "forwarded_ip [''10.0.0.0/8''] ''6.6.6.6'' = Some ''6.6.6.6''"
    by (simp add: forwarded_ip_def trim_eval ParseIP_def demo_addresses demo_network)
  then show ?thesis
    by (simp add: extractClientIP_def Header_Get_def Let_def demo_remote ParseIP_def demo_addresses demo_network)
qed

end
