(* ===== verification/Go_Url.thy ===== *)
theory Go_Url
  imports Go_Strings "HOL-Library.List_Lexorder" "HOL-Library.Char_ord"
begin

text \<open>
  The query part of Go's \<^verbatim>\<open>net/url\<close>: escaping, \<^verbatim>\<open>ParseQuery\<close>, and \<^verbatim>\<open>Values\<close> with \<^verbatim>\<open>Get\<close>, \<^verbatim>\<open>Set\<close> and
  \<^verbatim>\<open>Encode\<close>. A \<^verbatim>\<open>url.Values\<close> is a Go map from keys to the list of their values. \<^verbatim>\<open>URL.Query()\<close>
  drops the pairs that \<^verbatim>\<open>ParseQuery\<close> rejects, and so does \<open>ParseQuery\<close> here.
\<close>

section \<open>Definitions\<close>

subsection \<open>Escaping\<close>

definition hex_upper :: "nat \<Rightarrow> char" where
  "hex_upper v = char_of (if v < 10 then v + 48 else v + 55)"

definition unhex :: "char \<Rightarrow> nat option" where
  "unhex c =
     (let n = of_char c :: nat
      in if 48 \<le> n \<and> n \<le> 57 then Some (n - 48)
         else if 97 \<le> n \<and> n \<le> 102 then Some (n - 87)
         else if 65 \<le> n \<and> n \<le> 70 then Some (n - 55)
         else None)"

definition unreserved :: "char \<Rightarrow> bool" where
  "unreserved c =
     (let n = of_char c :: nat
      in 97 \<le> n \<and> n \<le> 122 \<or> 65 \<le> n \<and> n \<le> 90 \<or> 48 \<le> n \<and> n \<le> 57 \<or> c \<in> set ''-_.~'')"

definition escape_char :: "char \<Rightarrow> string" where
  "escape_char c =
     (if c = CHR '' '' then ''+'' else if unreserved c then [c]
      else [CHR ''%'', hex_upper (of_char c div 16), hex_upper (of_char c mod 16)])"

definition QueryEscape :: "string \<Rightarrow> string" where
  "QueryEscape s = concat (map escape_char s)"

fun QueryUnescape :: "string \<Rightarrow> string option" where
  "QueryUnescape [] = Some []"
| "QueryUnescape (c # s) =
     (if c = CHR ''%'' then
        (case s of
           a # b # t \<Rightarrow>
             (case (unhex a, unhex b) of
                (Some x, Some y) \<Rightarrow> map_option ((#) (char_of (x * 16 + y))) (QueryUnescape t)
              | _ \<Rightarrow> None)
         | _ \<Rightarrow> None)
      else map_option ((#) (if c = CHR ''+'' then CHR '' '' else c)) (QueryUnescape s))"

subsection \<open>Values\<close>

type_synonym url_values = "(string, string list) gomap"

definition values_of :: "url_values \<Rightarrow> string \<Rightarrow> string list" where
  "values_of m k = (case map_of m k of None \<Rightarrow> [] | Some vs \<Rightarrow> vs)"

definition Values_Get :: "url_values \<Rightarrow> string \<Rightarrow> string" where
  "Values_Get m k = (case values_of m k of [] \<Rightarrow> [] | v # _ \<Rightarrow> v)"

definition Values_Set :: "url_values \<Rightarrow> string \<Rightarrow> string \<Rightarrow> url_values" where
  "Values_Set m k v = AList.update k [v] m"

definition Values_Add :: "url_values \<Rightarrow> string \<Rightarrow> string \<Rightarrow> url_values" where
  "Values_Add m k v = AList.update k (values_of m k @ [v]) m"

text \<open>\<^verbatim>\<open>strings.Cut(s, sep)\<close> for one byte: what is before and after the first separator.\<close>

definition strings_Cut :: "string \<Rightarrow> char \<Rightarrow> string \<times> string" where
  "strings_Cut s sep = (takeWhile (\<lambda>c. c \<noteq> sep) s, drop 1 (dropWhile (\<lambda>c. c \<noteq> sep) s))"

text \<open>One pair of the query, as the loop of \<^verbatim>\<open>parseQuery\<close> treats it.\<close>

definition parse_pair :: "url_values \<Rightarrow> string \<Rightarrow> url_values" where
  "parse_pair m piece =
     (if CHR '';'' \<in> set piece \<or> piece = [] then m
      else case strings_Cut piece (CHR ''='') of
        (key, val) \<Rightarrow>
          (case (QueryUnescape key, QueryUnescape val) of
             (Some k, Some v) \<Rightarrow> Values_Add m k v
           | _ \<Rightarrow> m))"

definition ParseQuery :: "string \<Rightarrow> url_values" where
  "ParseQuery query = foldl parse_pair [] (strings_Split query (CHR ''&''))"

definition encode_pair :: "string \<Rightarrow> string \<Rightarrow> string" where
  "encode_pair k v = QueryEscape k @ ''='' @ QueryEscape v"

fun join_amp :: "string list \<Rightarrow> string" where
  "join_amp [] = []"
| "join_amp [p] = p"
| "join_amp (p # q # ps) = p @ ''&'' @ join_amp (q # ps)"

definition Values_Encode :: "url_values \<Rightarrow> string" where
  "Values_Encode m = join_amp (concat (map (\<lambda>k. map (encode_pair k) (values_of m k)) (sort (map fst m))))"

section \<open>Lemmas\<close>

lemma of_char_div_16: "of_char c div 16 < (16 :: nat)"
  using byte_less [of c] by (simp add: less_mult_imp_div_less)

lemma unhex_upper: "v < 16 \<Longrightarrow> unhex (hex_upper v) = Some v"
  by (auto simp: unhex_def hex_upper_def Let_def)

lemma unescape_escape_char: "QueryUnescape (escape_char c @ s) = map_option ((#) c) (QueryUnescape s)"
proof -
  have "unhex (hex_upper (of_char c div 16)) = Some (of_char c div 16)"
    "unhex (hex_upper (of_char c mod 16)) = Some (of_char c mod 16)"
    by (simp_all add: unhex_upper of_char_div_16)
  then show ?thesis by (auto simp: escape_char_def unreserved_def Let_def)
qed

lemma QueryUnescape_QueryEscape [simp]: "QueryUnescape (QueryEscape s) = Some s"
  by (induction s) (simp_all add: QueryEscape_def unescape_escape_char)

lemma hex_upper_plain: "v < 16 \<Longrightarrow> hex_upper v \<notin> set ''&;=''"
  by (auto simp: hex_upper_def char_eq_iff_of_char)

lemma escape_char_plain: "d \<in> set (escape_char c) \<Longrightarrow> d \<notin> set ''&;=''"
proof -
  have "of_char c div 16 < (16 :: nat)" "of_char c mod 16 < (16 :: nat)"
    by (simp_all add: of_char_div_16)
  then show "d \<in> set (escape_char c) \<Longrightarrow> d \<notin> set ''&;=''"
    using hex_upper_plain [of "of_char c div 16"] hex_upper_plain [of "of_char c mod 16"]
    by (auto simp: escape_char_def unreserved_def Let_def split: if_splits)
qed

lemma QueryEscape_plain: "CHR ''&'' \<notin> set (QueryEscape s)" "CHR '';'' \<notin> set (QueryEscape s)" "CHR ''='' \<notin> set (QueryEscape s)"
  using escape_char_plain by (fastforce simp: QueryEscape_def)+

lemma Cut_absent: "sep \<notin> set xs \<Longrightarrow> strings_Cut (xs @ sep # ys) sep = (xs, ys)"
  by (auto simp: strings_Cut_def takeWhile_append1 takeWhile_eq_all_conv dropWhile_append)

lemma parse_encode_pair: "parse_pair m (encode_pair k v) = Values_Add m k v"
  by (simp add: parse_pair_def encode_pair_def QueryEscape_plain Cut_absent)

lemma Split_join:
  "ps \<noteq> [] \<Longrightarrow> (\<And>p. p \<in> set ps \<Longrightarrow> CHR ''&'' \<notin> set p) \<Longrightarrow> strings_Split (join_amp ps) (CHR ''&'') = ps"
  by (induction ps rule: join_amp.induct) (simp_all add: Split_no_sep_single Split_append_sep)

lemma ParseQuery_join:
  assumes "\<And>p. p \<in> set ps \<Longrightarrow> CHR ''&'' \<notin> set p"
  shows "ParseQuery (join_amp ps) = foldl parse_pair [] ps"
proof (cases "ps = []")
  case True
  then show ?thesis by (simp add: ParseQuery_def parse_pair_def)
next
  case False
  then show ?thesis using Split_join [OF False assms] by (simp add: ParseQuery_def)
qed

lemma values_of_Add: "values_of (Values_Add m k v) j = values_of m j @ (if j = k then [v] else [])"
  by (simp add: Values_Add_def values_of_def)

lemma values_of_Set: "values_of (Values_Set m k v) j = (if j = k then [v] else values_of m j)"
  by (simp add: Values_Set_def values_of_def)

lemma values_of_adds:
  "values_of (foldl (\<lambda>m (k, v). Values_Add m k v) m kvs) j = values_of m j @ map snd (filter (\<lambda>(k, _). k = j) kvs)"
  by (induction kvs arbitrary: m) (auto simp: values_of_Add)

lemma foldl_parse_encode:
  "foldl parse_pair m (map (\<lambda>(k, v). encode_pair k v) kvs) = foldl (\<lambda>m (k, v). Values_Add m k v) m kvs"
  by (induction kvs arbitrary: m) (auto simp: parse_encode_pair)

lemma filter_pairs_distinct:
  "distinct ks \<Longrightarrow> map snd (filter (\<lambda>(k, _). k = j) (concat (map (\<lambda>k. map (Pair k) (f k)) ks))) =
     (if j \<in> set ks then f j else [])"
  by (induction ks) (auto simp: filter_map comp_def intro: filter_False)

text \<open>Parsing an encoded query gives the values back.\<close>

lemma ParseQuery_Encode:
  assumes "gomap_wf m"
  shows "values_of (ParseQuery (Values_Encode m)) k = values_of m k"
proof -
  let ?kvs = "concat (map (\<lambda>k. map (Pair k) (values_of m k)) (sort (map fst m)))"
  have "Values_Encode m = join_amp (map (\<lambda>(k, v). encode_pair k v) ?kvs)"
    by (simp add: Values_Encode_def map_concat comp_def)
  then have "ParseQuery (Values_Encode m) = foldl parse_pair [] (map (\<lambda>(k, v). encode_pair k v) ?kvs)"
    by (auto intro!: ParseQuery_join simp: encode_pair_def QueryEscape_plain)
  then have "ParseQuery (Values_Encode m) = foldl (\<lambda>m (k, v). Values_Add m k v) [] ?kvs"
    by (simp add: foldl_parse_encode)
  moreover have "values_of m k = []" if "k \<notin> fst ` set m"
    using that by (simp add: values_of_def map_of_eq_None_iff [THEN iffD2])
  ultimately show ?thesis
    using assms filter_pairs_distinct [of "sort (map fst m)" k "values_of m"]
    by (auto simp: values_of_adds gomap_wf_def values_of_def [of "[]"])
qed

end
