(* ===== verification/Go_Case.thy ===== *)
theory Go_Case
  imports Go_Utf8 Go_Strings
begin

text \<open>
  Case mapping of Go strings: \<^verbatim>\<open>strings.ToLower\<close>, \<^verbatim>\<open>strings.ToUpper\<close> and \<^verbatim>\<open>strings.EqualFold\<close>.
  The gateway compares the results with ASCII words only. So the definitions map the ASCII
  letters and the few code points outside ASCII whose image is ASCII (U+0130 and the Kelvin
  sign downwards, U+0131 and the long s upwards, long s and Kelvin sign when folding); every
  other code point, whose image is again outside ASCII, stands for itself.
\<close>

section \<open>Definitions\<close>

definition lower_char :: "char \<Rightarrow> char" where
  "lower_char c = (if 65 \<le> byte c \<and> byte c \<le> 90 then char_of (byte c + 32) else c)"

definition upper_char :: "char \<Rightarrow> char" where
  "upper_char c = (if 97 \<le> byte c \<and> byte c \<le> 122 then char_of (byte c - 32) else c)"

definition lower_rune :: "string \<Rightarrow> string" where
  "lower_rune r =
     (if r = [CHR 0xC4, CHR 0xB0] then ''i'' else if r = [CHR 0xE2, CHR 0x84, CHR 0xAA] then ''k''
      else if length r = 1 then map lower_char r else r)"

definition upper_rune :: "string \<Rightarrow> string" where
  "upper_rune r =
     (if r = [CHR 0xC4, CHR 0xB1] then ''I'' else if r = [CHR 0xC5, CHR 0xBF] then ''S''
      else if length r = 1 then map upper_char r else r)"

definition fold_rune :: "string \<Rightarrow> string" where
  "fold_rune r =
     (if r = [CHR 0xC5, CHR 0xBF] then ''s'' else if r = [CHR 0xE2, CHR 0x84, CHR 0xAA] then ''k''
      else if length r = 1 then map lower_char r else r)"

definition strings_ToLower :: "string \<Rightarrow> string" where
  "strings_ToLower s = concat (map lower_rune (runes s))"

definition strings_ToUpper :: "string \<Rightarrow> string" where
  "strings_ToUpper s = concat (map upper_rune (runes s))"

definition strings_EqualFold :: "string \<Rightarrow> string \<Rightarrow> bool" where
  "strings_EqualFold s t \<longleftrightarrow> map fold_rune (runes s) = map fold_rune (runes t)"

section \<open>Lemmas\<close>

lemma runes_all_ascii: "list_all is_ascii s \<Longrightarrow> runes s = map (\<lambda>c. [c]) s"
  by (induction s) simp_all

lemma singleton_runes [simp]:
  "lower_rune [c] = [lower_char c]" "upper_rune [c] = [upper_char c]" "fold_rune [c] = [lower_char c]"
  by (simp_all add: lower_rune_def upper_rune_def fold_rune_def)

lemma ToLower_ascii: "list_all is_ascii s \<Longrightarrow> strings_ToLower s = map lower_char s"
  by (simp add: strings_ToLower_def runes_all_ascii comp_def)

lemma ToUpper_ascii: "list_all is_ascii s \<Longrightarrow> strings_ToUpper s = map upper_char s"
  by (simp add: strings_ToUpper_def runes_all_ascii comp_def)

lemma EqualFold_refl [simp]: "strings_EqualFold s s"
  by (simp add: strings_EqualFold_def)

lemma EqualFold_ascii:
  assumes "list_all is_ascii s" "list_all is_ascii t"
  shows "strings_EqualFold s t \<longleftrightarrow> map lower_char s = map lower_char t"
proof -
  have "map fold_rune (runes u) = map (\<lambda>c. [c]) (map lower_char u)" if "list_all is_ascii u" for u
    using that by (simp add: runes_all_ascii)
  then show ?thesis using assms by (simp add: strings_EqualFold_def inj_map_eq_map inj_def del: map_map)
qed

end
