(* ===== verification/Logging.thy ===== *)
theory Logging
  imports Go_Url Go_Case
begin

text \<open>
  \<^verbatim>\<open>internal/logging/logger.go\<close>: levels, the redaction of URLs and of attributes. Of
  \<^verbatim>\<open>url.Parse\<close> and \<^verbatim>\<open>URL.String\<close> the model keeps what decides the query: the fragment is cut off at the
  first \<^verbatim>\<open>#\<close>, control characters are refused, the query starts after the first \<^verbatim>\<open>?\<close>. What they do to the
  rest (validate it and print it again) is the pair of parameters \<open>url_base\<close> and \<open>url_frag\<close>, \<open>None\<close>
  being a parse error.
\<close>

section \<open>Definitions\<close>

record log_config =
  lc_Level :: string
  lc_Format :: string
  lc_IncludeSource :: bool
  lc_RedactQueryString :: bool

definition sensitive_key :: "string \<Rightarrow> bool" where
  "sensitive_key key = (strings_ToLower key \<in> {''ticket'', ''token'', ''secret'', ''password'', ''key''})"

text \<open>The loop over the keys of the query; the order of the visits does not matter.\<close>

definition redact_values :: "url_values \<Rightarrow> url_values" where
  "redact_values q =
     foldl (\<lambda>q key. if sensitive_key key then Values_Set q key ''REDACTED'' else q) q (map fst q)"

definition malformed_url :: string where
  "malformed_url = ''[URL MALFORM'' @ [CHR 0xC3, CHR 0x89] @ ''E]''"

definition ctl_byte :: "char \<Rightarrow> bool" where
  "ctl_byte c \<longleftrightarrow> byte c < 0x20 \<or> byte c = 0x7F"

definition RedactURL :: "(string \<Rightarrow> string option) \<Rightarrow> (string \<Rightarrow> string option) \<Rightarrow> string \<Rightarrow> string" where
  "RedactURL url_base url_frag rawURL =
     (let (u, frag) = strings_Cut rawURL (CHR ''#'');
          (base, query) = strings_Cut u (CHR ''?'');
          forceQuery = (CHR ''?'' \<in> set u \<and> query = [])
      in if list_ex ctl_byte u then malformed_url
         else case (url_base base, if frag = [] then Some [] else url_frag frag) of
           (Some b, Some f) \<Rightarrow>
             (let rawQuery = Values_Encode (redact_values (ParseQuery query))
              in b @ (if forceQuery \<or> rawQuery \<noteq> [] then CHR ''?'' # rawQuery else []) @
                 (if f \<noteq> [] then CHR ''#'' # f else []))
         | _ \<Rightarrow> malformed_url)"

subsection \<open>The logger\<close>

definition LevelDebug :: int where "LevelDebug = -4"
definition LevelInfo :: int where "LevelInfo = 0"
definition LevelWarn :: int where "LevelWarn = 4"
definition LevelError :: int where "LevelError = 8"

datatype log_handler = TextHandler | JSONHandler

datatype attr_value = AString string | AOther string

record slog_logger =
  lg_level :: int
  lg_addSource :: bool
  lg_redact :: bool
  lg_handler :: log_handler
  lg_attrs :: "(string \<times> attr_value) list"

definition NewLogger :: "log_config \<Rightarrow> slog_logger" where
  "NewLogger cfg =
     (let level = strings_ToLower (lc_Level cfg);
          lvl = (if level = ''debug'' then LevelDebug
                 else if level = ''warn'' \<or> level = ''warning'' then LevelWarn
                 else if level = ''error'' then LevelError
                 else LevelInfo)
      in \<lparr>lg_level = lvl, lg_addSource = lc_IncludeSource cfg, lg_redact = lc_RedactQueryString cfg,
          lg_handler = (if strings_ToLower (lc_Format cfg) = ''text'' then TextHandler else JSONHandler),
          lg_attrs = []\<rparr>)"

definition masked :: string where
  "masked = ''[MASQU'' @ [CHR 0xC3, CHR 0x89] @ '']''"

definition makeSanitizeAttr ::
  "(string \<Rightarrow> string option) \<Rightarrow> (string \<Rightarrow> string option) \<Rightarrow> bool \<Rightarrow> string \<times> attr_value \<Rightarrow> string \<times> attr_value" where
  "makeSanitizeAttr url_base url_frag redactQuery a =
     (let lowerKey = strings_ToLower (fst a)
      in if lowerKey \<in> {''ticket'', ''token'', ''dek'', ''plaintext'', ''secret'', ''password'', ''authorization''}
         then (fst a, AString masked)
         else if lowerKey \<in> {''query'', ''url'', ''uri'', ''request_uri''} \<and> redactQuery
         then (case snd a of
                 AString strVal \<Rightarrow> (fst a, AString (RedactURL url_base url_frag strVal))
               | AOther _ \<Rightarrow> a)
         else a)"

text \<open>The context is its trace identifier, if it has one; \<^verbatim>\<open>nil\<close> pointers are \<open>None\<close>.\<close>

definition WithContext :: "string option option \<Rightarrow> slog_logger option \<Rightarrow> slog_logger option" where
  "WithContext ctx logger =
     (case (ctx, logger) of
        (Some (Some traceID), Some lg) \<Rightarrow>
          if traceID \<noteq> [] then Some (lg\<lparr>lg_attrs := lg_attrs lg @ [(''trace_id'', AString traceID)]\<rparr>) else Some lg
      | _ \<Rightarrow> logger)"

section \<open>Lemmas\<close>

text \<open>A query map as \<open>ParseQuery\<close> builds it: distinct keys, each with a value.\<close>

definition values_wf :: "url_values \<Rightarrow> bool" where
  "values_wf m \<longleftrightarrow> gomap_wf m \<and> (\<forall>k. map_of m k \<noteq> Some [])"

lemma values_wf_keys: "values_wf m \<Longrightarrow> k \<in> fst ` set m \<longleftrightarrow> values_of m k \<noteq> []"
proof -
  have "k \<in> fst ` set m \<longleftrightarrow> map_of m k \<noteq> None" by (simp add: map_of_eq_None_iff)
  then show "values_wf m \<Longrightarrow> k \<in> fst ` set m \<longleftrightarrow> values_of m k \<noteq> []"
    by (auto simp: values_wf_def values_of_def split: option.split)
qed

lemma values_wf_Nil [simp]: "values_wf []"
  by (simp add: values_wf_def)

lemma values_wf_Add: "values_wf m \<Longrightarrow> values_wf (Values_Add m k v)"
  by (simp add: values_wf_def Values_Add_def)

lemma values_wf_pair: "values_wf m \<Longrightarrow> values_wf (parse_pair m p)"
  by (auto simp: parse_pair_def values_wf_Add split: prod.split option.split)

lemma values_wf_ParseQuery: "values_wf (ParseQuery s)"
proof -
  have "values_wf m \<Longrightarrow> values_wf (foldl parse_pair m ps)" for m ps
    by (induction ps arbitrary: m) (auto simp: values_wf_pair)
  then show ?thesis by (simp add: ParseQuery_def)
qed

lemma values_wf_Set: "values_wf m \<Longrightarrow> values_wf (Values_Set m k v)"
  by (simp add: values_wf_def Values_Set_def)

lemma redact_fold:
  "values_wf q \<Longrightarrow> values_wf (foldl (\<lambda>q key. if sensitive_key key then Values_Set q key r else q) q ks) \<and>
    values_of (foldl (\<lambda>q key. if sensitive_key key then Values_Set q key r else q) q ks) k =
      (if sensitive_key k \<and> k \<in> set ks then [r] else values_of q k)"
  by (induction ks arbitrary: q) (auto simp: values_wf_Set values_of_Set)

lemma redact_values:
  assumes "values_wf q"
  shows "values_wf (redact_values q)"
    and "values_of (redact_values q) k = (if sensitive_key k \<and> values_of q k \<noteq> [] then [''REDACTED''] else values_of q k)"
  using redact_fold [OF assms, of "''REDACTED''" "map fst q" k] values_wf_keys [OF assms, of k]
  by (auto simp: redact_values_def simp del: set_map simp: list.set_map)

text \<open>The encoding depends only on the values, not on the order of the map.\<close>

lemma Encode_cong:
  assumes "values_wf p" "values_wf q" "\<And>k. values_of p k = values_of q k"
  shows "Values_Encode p = Values_Encode q"
proof -
  have "set (map fst p) = set (map fst q)"
    using values_wf_keys [OF assms(1)] values_wf_keys [OF assms(2)] assms(3) by (simp add: set_eq_iff)
  then have "sort (map fst p) = sort (map fst q)"
    using assms by (intro sorted_distinct_set_unique) (simp_all add: values_wf_def gomap_wf_def)
  then show ?thesis using assms(3) by (simp add: Values_Encode_def)
qed

lemma Cut_split: "sep \<notin> set xs \<Longrightarrow> strings_Cut (xs @ sep # ys) sep = (xs, ys)"
  by (rule Cut_absent)

lemma Cut_none: "sep \<notin> set xs \<Longrightarrow> strings_Cut xs sep = (xs, [])"
proof -
  assume "sep \<notin> set xs"
  then have "\<forall>c \<in> set xs. c \<noteq> sep" by blast
  then have eqs: "takeWhile (\<lambda>c. c \<noteq> sep) xs = xs" "dropWhile (\<lambda>c. c \<noteq> sep) xs = []"
    by (simp_all add: takeWhile_eq_all_conv dropWhile_eq_Nil_conv)
  show ?thesis unfolding strings_Cut_def eqs by simp
qed

section \<open>Properties\<close>


lemma parse_demo:
  "ParseQuery ''a=1&ticket=xyz'' = [(''a'', [''1'']), (''ticket'', [''xyz''])]"
  "ParseQuery ''a=1&ticket=r'' = [(''a'', [''1'']), (''ticket'', [''r''])]"
  "ParseQuery ''access=s3cret'' = [(''access'', [''s3cret''])]"
  by (simp_all add: ParseQuery_def parse_pair_def strings_Cut_def Values_Add_def values_of_def)

lemma sensitive_demo: "sensitive_key ''ticket''" "sensitive_key ''Ticket''" "\<not> sensitive_key ''access''" "\<not> sensitive_key ''a''"
  by (simp_all add: sensitive_key_def ToLower_ascii is_ascii_def lower_char_def char_eq_iff_of_char)


text \<open>
  The parameter that carries the ticket is configurable, but the list of sensitive
  parameters is not: with another name for it the ticket is logged in full.
\<close>

theorem custom_ticket_parameter_is_logged:
  "RedactURL Some Some ''/v1/events?access=s3cret'' = ''/v1/events?access=s3cret''"
proof -
  have "redact_values [(''access'', [''s3cret''])] = [(''access'', [''s3cret''])]"
    by (simp add: redact_values_def sensitive_demo)
  then show ?thesis
    by (simp add: RedactURL_def strings_Cut_def ctl_byte_def parse_demo Values_Encode_def values_of_def
        encode_pair_def QueryEscape_def escape_char_def unreserved_def)
qed

end
