(* ===== verification/Event_Router.thy ===== *)
theory Event_Router
  imports Go_Strings Go_Utf8
begin

text \<open>
  \<^verbatim>\<open>internal/event/router.go\<close>: routing keys. \<open>BuildKey\<close> substitutes the three components into
  the template one after the other; \<open>ParseKey\<close> runs the regular expression that
  \<^verbatim>\<open>NewRouter\<close> builds from the template.

  The expression is kept as a list of tokens: \<^verbatim>\<open>QuoteMeta\<close> makes every byte of the template a
  literal, and the three replacements turn each placeholder into a named group. A group
  consumes whole runes, as many as possible, and gives back as long as the rest does not match:
  the leftmost-first rule of \<^verbatim>\<open>regexp\<close> for an expression anchored at both ends. Template bytes
  that are not UTF-8 make \<^verbatim>\<open>regexp.Compile\<close> fail. \<open>pattern_text\<close> is the text the code hands to
  \<^verbatim>\<open>Compile\<close>; \<open>default_pattern\<close> shows that it spells the tokens of the default template.
\<close>

section \<open>Definitions\<close>

datatype group = Tenant | App | Topic

datatype token = Lit char | Grp group

definition default_template :: string where
  "default_template = ''tenant:{tenant}:app:{app}:topic:{topic}''"

definition QuoteMeta :: "string \<Rightarrow> string" where
  "QuoteMeta s = concat (map (\<lambda>c. if c \<in> set (CHR 0x5C # ''.+*?()|[]{}^$'') then [CHR 0x5C, c] else [c]) s)"

definition pattern_text :: "string \<Rightarrow> string" where
  "pattern_text template =
     (let bs = [CHR 0x5C];
          p0 = QuoteMeta template;
          p1 = strings_ReplaceAll p0 (bs @ ''{tenant'' @ bs @ ''}'') ''(?P<tenant>[^:]+)'';
          p2 = strings_ReplaceAll p1 (bs @ ''{app'' @ bs @ ''}'') ''(?P<app>[^:]+)'';
          p3 = strings_ReplaceAll p2 (bs @ ''{topic'' @ bs @ ''}'') ''(?P<topic>.+)''
      in ''^'' @ p3 @ ''$'')"

function tokens :: "string \<Rightarrow> token list" where
  "tokens s =
     (case s of
        [] \<Rightarrow> []
      | c # cs \<Rightarrow>
          if prefix ''{tenant}'' s then Grp Tenant # tokens (drop 8 s)
          else if prefix ''{app}'' s then Grp App # tokens (drop 5 s)
          else if prefix ''{topic}'' s then Grp Topic # tokens (drop 7 s)
          else Lit c # tokens cs)"
  by pat_completeness auto
termination
  by (relation "measure length") auto

declare tokens.simps [simp del]

text \<open>The character classes \<^verbatim>\<open>[^:]\<close> and \<^verbatim>\<open>.\<close> on one rune.\<close>

fun class_ok :: "group \<Rightarrow> string \<Rightarrow> bool" where
  "class_ok Topic r \<longleftrightarrow> r \<noteq> [CHR 0x0A]"
| "class_ok _ r \<longleftrightarrow> r \<noteq> '':''"

fun first_some :: "('a \<Rightarrow> 'b option) \<Rightarrow> 'a list \<Rightarrow> 'b option" where
  "first_some f [] = None"
| "first_some f (x # xs) = (case f x of None \<Rightarrow> first_some f xs | Some y \<Rightarrow> Some y)"

text \<open>The submatches of an anchored match of the rest of the key, in order.\<close>

primrec rmatch :: "token list \<Rightarrow> string \<Rightarrow> string list option" where
  "rmatch [] = (\<lambda>key. if key = [] then Some [] else None)"
| "rmatch (t # ts) = (\<lambda>key.
     case t of
       Lit c \<Rightarrow> (case key of [] \<Rightarrow> None | k # ks \<Rightarrow> if k = c then rmatch ts ks else None)
     | Grp g \<Rightarrow>
         (let rs = runes key; most = length (takeWhile (class_ok g) rs)
          in first_some
               (\<lambda>n. map_option (Cons (concat (take n rs))) (rmatch ts (concat (drop n rs))))
               (rev [1..<most + 1])))"

text \<open>\<^verbatim>\<open>SubexpIndex\<close>: the number of the leftmost group of that name, -1 if there is none.\<close>

fun group_index :: "token list \<Rightarrow> group \<Rightarrow> int \<Rightarrow> int" where
  "group_index [] g i = -1"
| "group_index (Lit _ # ts) g i = group_index ts g i"
| "group_index (Grp g' # ts) g i = (if g' = g then i else group_index ts g (i + 1))"

definition SubexpIndex :: "token list \<Rightarrow> group \<Rightarrow> int" where
  "SubexpIndex ts g = group_index ts g 1"

record router =
  r_template :: string
  r_matcherRegex :: "token list"
  r_tenantIdx :: int
  r_appIdx :: int
  r_topicIdx :: int

datatype router_error = ErrCompileTemplate string

definition NewRouter :: "string \<Rightarrow> router_error + router" where
  "NewRouter template =
     (let template = (if template = [] then default_template else template);
          rx = tokens template
      in if \<not> utf8_Valid template then Inl (ErrCompileTemplate template)
         else Inr \<lparr>r_template = template, r_matcherRegex = rx, r_tenantIdx = SubexpIndex rx Tenant,
                   r_appIdx = SubexpIndex rx App, r_topicIdx = SubexpIndex rx Topic\<rparr>)"

definition sanitizeKeyPart :: "string \<Rightarrow> string" where
  "sanitizeKeyPart s = strings_ReplaceAll s '':'' ''_''"

definition BuildKey :: "router \<Rightarrow> string \<Rightarrow> string \<Rightarrow> string \<Rightarrow> string" where
  "BuildKey r tenantID appID topicID =
     (let res = strings_ReplaceAll (r_template r) ''{tenant}'' (sanitizeKeyPart tenantID);
          res = strings_ReplaceAll res ''{app}'' (sanitizeKeyPart appID)
      in strings_ReplaceAll res ''{topic}'' topicID)"

definition submatch :: "string list \<Rightarrow> int \<Rightarrow> string" where
  "submatch matches i = (if i > 0 \<and> i < int (length matches) then matches ! nat i else [])"

definition ParseKey :: "router \<Rightarrow> string \<Rightarrow> string \<times> string \<times> string \<times> bool" where
  "ParseKey r key =
     (case rmatch (r_matcherRegex r) key of
        None \<Rightarrow> ([], [], [], False)
      | Some groups \<Rightarrow>
          (let matches = key # groups
           in (submatch matches (r_tenantIdx r), submatch matches (r_appIdx r),
               submatch matches (r_topicIdx r), True)))"

text \<open>What a component must be for the default template to keep it apart.\<close>

definition plain_part :: "string \<Rightarrow> bool" where
  "plain_part s \<longleftrightarrow> s \<noteq> [] \<and> CHR ''{'' \<notin> set s"

section \<open>Lemmas\<close>

definition default_router :: router where
  "default_router = \<lparr>r_template = default_template,
     r_matcherRegex = map Lit ''tenant:'' @ Grp Tenant # map Lit '':app:'' @ Grp App # map Lit '':topic:'' @ [Grp Topic],
     r_tenantIdx = 1, r_appIdx = 2, r_topicIdx = 3\<rparr>"

lemma default_tokens: "tokens default_template = r_matcherRegex default_router"
  by (simp add: default_template_def default_router_def tokens.simps)

lemma default_valid: "utf8_Valid default_template"
  by (simp add: default_template_def utf8_Valid_def is_ascii_def rune_ok_def)

lemma NewRouter_default: "NewRouter [] = Inr default_router"
  using default_valid default_tokens
  by (simp add: NewRouter_def Let_def SubexpIndex_def) (simp add: default_router_def)

lemma default_pattern:
  "pattern_text default_template = ''^tenant:(?P<tenant>[^:]+):app:(?P<app>[^:]+):topic:(?P<topic>.+)$''"
  by (simp add: pattern_text_def Let_def QuoteMeta_def default_template_def strings_ReplaceAll.simps)

lemma sanitize_map: "sanitizeKeyPart s = map (\<lambda>c. if c = CHR '':'' then CHR ''_'' else c) s"
  by (simp add: sanitizeKeyPart_def ReplaceAll_char_map)

lemma sanitize_simps [simp]:
  "CHR '':'' \<notin> set (sanitizeKeyPart s)" "sanitizeKeyPart s = [] \<longleftrightarrow> s = []"
  "CHR ''{'' \<in> set (sanitizeKeyPart s) \<longleftrightarrow> CHR ''{'' \<in> set s"
  "CHR '':'' \<notin> set s \<Longrightarrow> sanitizeKeyPart s = s"
  by (auto simp: sanitize_map image_iff intro: map_idI)

lemma BuildKey_default:
  assumes "CHR ''{'' \<notin> set t" and "CHR ''{'' \<notin> set a"
  shows "BuildKey default_router t a p =
    ''tenant:'' @ sanitizeKeyPart t @ '':app:'' @ sanitizeKeyPart a @ '':topic:'' @ p"
proof -
  have lit: "strings_ReplaceAll (xs @ w @ ys) w v = xs @ v @ strings_ReplaceAll ys w v"
    if "w \<noteq> []" "hd w \<notin> set xs" for xs w v ys
    using that by (simp add: ReplaceAll_append_absent)
  let ?t = "sanitizeKeyPart t" and ?a = "sanitizeKeyPart a"
  have 1: "strings_ReplaceAll default_template ''{tenant}'' ?t = ''tenant:'' @ ?t @ '':app:{app}:topic:{topic}''"
    by (simp add: default_template_def strings_ReplaceAll.simps)
  have 2: "strings_ReplaceAll ((''tenant:'' @ ?t @ '':app:'') @ ''{app}'' @ '':topic:{topic}'') ''{app}'' ?a =
    (''tenant:'' @ ?t @ '':app:'') @ ?a @ strings_ReplaceAll '':topic:{topic}'' ''{app}'' ?a"
    using assms by (intro lit) simp_all
  have 3: "strings_ReplaceAll ((''tenant:'' @ ?t @ '':app:'' @ ?a @ '':topic:'') @ ''{topic}'' @ []) ''{topic}'' p =
    (''tenant:'' @ ?t @ '':app:'' @ ?a @ '':topic:'') @ p @ strings_ReplaceAll [] ''{topic}'' p"
    using assms by (intro lit) simp_all
  have 4: "strings_ReplaceAll '':topic:{topic}'' ''{app}'' ?a = '':topic:{topic}''"
    by (simp add: strings_ReplaceAll.simps)
  show ?thesis
    using 2 3 by (simp add: BuildKey_def default_router_def 1 4)
qed

subsection \<open>Matching\<close>

lemma rmatch_lits: "rmatch (map Lit l @ ts) (l @ key) = rmatch ts key"
  by (induction l) simp_all

lemma first_some_None: "(\<And>x. x \<in> set xs \<Longrightarrow> f x = None) \<Longrightarrow> first_some f xs = None"
  by (induction xs) simp_all

lemma takeWhile_stop: "list_all P xs \<Longrightarrow> \<not> P y \<Longrightarrow> takeWhile P (xs @ y # ys) = xs"
  by (induction xs) simp_all

lemma runes_no_colon: "CHR '':'' \<notin> set x \<Longrightarrow> r \<in> set (runes x) \<Longrightarrow> r \<noteq> '':'' \<and> (\<exists>c cs. r = c # cs \<and> c \<noteq> CHR '':'')"
proof -
  assume no: "CHR '':'' \<notin> set x" and r: "r \<in> set (runes x)"
  have "CHR '':'' \<notin> set r" using no runes_subset [OF r] by blast
  then show ?thesis using runes_nonempty [OF r] by (cases r) auto
qed

text \<open>A group that excludes the colon, followed by a colon, takes exactly the text before it.\<close>

lemma rmatch_group_colon:
  assumes x: "CHR '':'' \<notin> set x" "x \<noteq> []" and g: "g \<noteq> Topic"
  shows "rmatch (Grp g # Lit (CHR '':'') # ts) (x @ CHR '':'' # y) = map_option (Cons x) (rmatch ts y)"
proof -
  let ?rs = "runes (x @ CHR '':'' # y)" and ?m = "length (runes x)"
  let ?f = "\<lambda>n. map_option (Cons (concat (take n ?rs))) (rmatch (Lit (CHR '':'') # ts) (concat (drop n ?rs)))"
  have rs: "?rs = runes x @ '':'' # runes y"
    using runes_append_ascii [of "CHR '':''" x y] by (simp add: is_ascii_def)
  have ok: "list_all (class_ok g) (runes x)" "\<not> class_ok g '':''"
    using g runes_no_colon [OF x(1)] by (cases g; auto simp: list_all_iff)+
  have most: "length (takeWhile (class_ok g) ?rs) = ?m"
    using takeWhile_stop [OF ok] by (simp add: rs)
  have small: "?f n = None" if "n < ?m" for n
  proof -
    have "runes x ! n \<in> set (runes x)" using that by simp
    then obtain c cs where c: "runes x ! n = c # cs" "c \<noteq> CHR '':''" using runes_no_colon [OF x(1)] by blast
    have "drop n ?rs = (c # cs) # drop (Suc n) ?rs"
      using that c by (subst Cons_nth_drop_Suc [symmetric]) (auto simp: rs nth_append)
    with c show ?thesis by simp
  qed
  have "rev [1..<?m + 1] = ?m # rev [1..<?m]" using x(2) by (cases ?m) auto
  moreover have "first_some ?f (rev [1..<?m]) = None" by (rule first_some_None) (use small in auto)
  moreover have "?f ?m = map_option (Cons x) (rmatch ts y)" by (simp add: rs)
  moreover have "rmatch (Grp g # Lit (CHR '':'') # ts) (x @ CHR '':'' # y) = first_some ?f (rev [1..<?m + 1])"
    by (simp only: rmatch.simps(2) [of "Grp g"] token.case Let_def most)
  ultimately show ?thesis by (simp only: first_some.simps) (cases "rmatch ts y"; simp)
qed

lemma rmatch_last_topic:
  assumes "CHR 0x0A \<notin> set p" "p \<noteq> []"
  shows "rmatch [Grp Topic] p = Some [p]"
proof -
  have "r \<noteq> [CHR 0x0A]" if "r \<in> set (runes p)" for r
    using assms(1) runes_subset [OF that] by auto
  then have most: "takeWhile (class_ok Topic) (runes p) = runes p" by (simp add: takeWhile_eq_all_conv)
  have "rev [1..<length (runes p) + 1] = length (runes p) # rev [1..<length (runes p)]"
    and "Suc 0 \<le> length (runes p)"
    using assms(2) by (cases "length (runes p)"; auto)+
  then show ?thesis by (simp add: most Let_def)
qed

lemma rmatch_default:
  assumes "CHR '':'' \<notin> set t" "t \<noteq> []" "CHR '':'' \<notin> set a" "a \<noteq> []" "CHR 0x0A \<notin> set p" "p \<noteq> []"
  shows "rmatch (r_matcherRegex default_router) (''tenant:'' @ t @ '':app:'' @ a @ '':topic:'' @ p) = Some [t, a, p]"
proof -
  have ne: "App \<noteq> Topic" "Tenant \<noteq> Topic" by simp_all
  have "rmatch (map Lit ''tenant:'' @ Grp Tenant # Lit (CHR '':'') # map Lit ''app:'' @ Grp App # Lit (CHR '':'') #
      map Lit ''topic:'' @ [Grp Topic]) (''tenant:'' @ t @ CHR '':'' # ''app:'' @ a @ CHR '':'' # ''topic:'' @ p) = Some [t, a, p]"
    unfolding rmatch_lits rmatch_group_colon [OF assms(1,2) ne(2)] rmatch_group_colon [OF assms(3,4) ne(1)]
      rmatch_last_topic [OF assms(5,6)] by simp
  then show ?thesis by (simp add: default_router_def)
qed

section \<open>Properties\<close>

text \<open>
  With the default template, parsing a built key gives the components back: tenant and
  application with their colons neutralised, and the topic as it was, colons included. It
  holds for non-empty components when tenant and application contain no brace and the topic
  no line feed, whatever other bytes they are made of.
\<close>

theorem routing_key_roundtrip:
  assumes "plain_part t" "plain_part a" and "p \<noteq> []" "CHR 0x0A \<notin> set p"
  shows "\<exists>r. NewRouter [] = Inr r \<and>
    ParseKey r (BuildKey r t a p) = (sanitizeKeyPart t, sanitizeKeyPart a, p, True)"
proof -
  have "BuildKey default_router t a p =
    ''tenant:'' @ sanitizeKeyPart t @ '':app:'' @ sanitizeKeyPart a @ '':topic:'' @ p"
    using assms by (intro BuildKey_default) (simp_all add: plain_part_def)
  moreover have "rmatch (r_matcherRegex default_router)
    (''tenant:'' @ sanitizeKeyPart t @ '':app:'' @ sanitizeKeyPart a @ '':topic:'' @ p) =
      Some [sanitizeKeyPart t, sanitizeKeyPart a, p]"
    using assms by (intro rmatch_default) (simp_all add: plain_part_def)
  ultimately have "ParseKey default_router (BuildKey default_router t a p) =
    (sanitizeKeyPart t, sanitizeKeyPart a, p, True)"
    by (simp add: ParseKey_def Let_def) (simp add: default_router_def submatch_def)
  then show ?thesis by (simp add: NewRouter_default)
qed

theorem routing_key_roundtrip_witness:
  "\<exists>r. NewRouter [] = Inr r \<and>
    ParseKey r (BuildKey r ''acme'' ''ap:p'' ''room:7'') = (''acme'', ''ap_p'', ''room:7'', True)"
  using routing_key_roundtrip [of "''acme''" "''ap:p''" "''room:7''"]
  by (simp add: plain_part_def sanitize_map)



text \<open>
  Routing keys are not injective beyond that. Under every template tenant \<^verbatim>\<open>a:b\<close> and
  tenant \<^verbatim>\<open>a_b\<close> get the same keys, because neutralising colons maps both to the latter; and since
  the components are substituted one after the other into the same text, a tenant called
  \<^verbatim>\<open>{app}\<close> gets, under the default template, the keys of the tenant named like its
  application. In both cases events of one tenant reach subscribers of another.
\<close>

theorem routing_key_collisions:
  "BuildKey r ''a:b'' app topic = BuildKey r ''a_b'' app topic \<and>
   BuildKey default_router ''{app}'' ''x'' topic = BuildKey default_router ''x'' ''x'' topic"
  by (simp add: BuildKey_def sanitize_map)
    (simp add: default_router_def default_template_def strings_ReplaceAll.simps)

end
