(* ===== verification/Base64.thy ===== *)
theory Base64
  imports Gateway_Prelude
begin

text \<open>
  Go's \<^verbatim>\<open>base64.StdEncoding\<close>: \<open>DecodeString\<close> skips carriage returns and line feeds, requires
  padding, and (as the encoding is not strict) ignores the unused low bits of the last
  symbol. An error carries no more than its presence. \<open>EncodeToString\<close> is what producers of
  events use.
\<close>

section \<open>Definitions\<close>

text \<open>The alphabet: capital letters, small letters, digits, plus and slash.\<close>

definition b64_symbol :: "nat \<Rightarrow> char" where
  "b64_symbol v = char_of (if v < 26 then v + 65 else if v < 52 then v + 71 else if v < 62 then v - 4
     else if v = 62 then 43 else 47)"

definition b64_value :: "char \<Rightarrow> nat option" where
  "b64_value c =
     (let n = of_char c :: nat
      in if 65 \<le> n \<and> n \<le> 90 then Some (n - 65)
         else if 97 \<le> n \<and> n \<le> 122 then Some (n - 71)
         else if 48 \<le> n \<and> n \<le> 57 then Some (n + 4)
         else if n = 43 then Some 62
         else if n = 47 then Some 63
         else None)"

fun b64_quanta :: "string \<Rightarrow> string option" where
  "b64_quanta [] = Some []"
| "b64_quanta (a # b # c # d # rest) =
     (case (b64_value a, b64_value b) of
        (Some va, Some vb) \<Rightarrow>
          (let b0 = char_of (va * 4 + vb div 16)
           in if c = CHR ''='' then (if d = CHR ''='' \<and> rest = [] then Some [b0] else None)
              else case b64_value c of
                None \<Rightarrow> None
              | Some vc \<Rightarrow>
                  (let b1 = char_of (vb mod 16 * 16 + vc div 4)
                   in if d = CHR ''='' then (if rest = [] then Some [b0, b1] else None)
                      else case (b64_value d, b64_quanta rest) of
                        (Some vd, Some bs) \<Rightarrow> Some (b0 # b1 # char_of (vc mod 4 * 64 + vd) # bs)
                      | _ \<Rightarrow> None))
      | _ \<Rightarrow> None)"
| "b64_quanta _ = None"

definition base64_DecodeString :: "string \<Rightarrow> string option" where
  "base64_DecodeString s = b64_quanta (filter (\<lambda>c. c \<noteq> CHR 0x0D \<and> c \<noteq> CHR 0x0A) s)"

text \<open>
  The other three encodings: without padding (\<^verbatim>\<open>RawStdEncoding\<close>), where the last quantum may be
  short and a padding character is an error, and with the URL alphabet.
\<close>

definition base64_RawDecodeString :: "string \<Rightarrow> string option" where
  "base64_RawDecodeString s =
     (let t = filter (\<lambda>c. c \<noteq> CHR 0x0D \<and> c \<noteq> CHR 0x0A) s
      in if CHR ''='' \<in> set t \<or> length t mod 4 = 1 then None
         else b64_quanta (t @ replicate ((4 - length t mod 4) mod 4) (CHR ''='')))"

definition url_symbol :: "char \<Rightarrow> char" where
  "url_symbol c = (if c = CHR ''-'' then CHR ''+'' else if c = CHR ''_'' then CHR ''/''
     else if c = CHR ''+'' \<or> c = CHR ''/'' then CHR ''!'' else c)"

definition base64_URLDecodeString :: "string \<Rightarrow> string option" where
  "base64_URLDecodeString s = base64_DecodeString (map url_symbol s)"

definition base64_RawURLDecodeString :: "string \<Rightarrow> string option" where
  "base64_RawURLDecodeString s = base64_RawDecodeString (map url_symbol s)"

fun base64_EncodeToString :: "string \<Rightarrow> string" where
  "base64_EncodeToString [] = []"
| "base64_EncodeToString [x] =
     (let a = of_char x in [b64_symbol (a div 4), b64_symbol (a mod 4 * 16), CHR ''='', CHR ''=''])"
| "base64_EncodeToString [x, y] =
     (let a = of_char x; b = of_char y
      in [b64_symbol (a div 4), b64_symbol (a mod 4 * 16 + b div 16), b64_symbol (b mod 16 * 4), CHR ''=''])"
| "base64_EncodeToString (x # y # z # rest) =
     (let a = of_char x; b = of_char y; c = of_char z
      in b64_symbol (a div 4) # b64_symbol (a mod 4 * 16 + b div 16) #
         b64_symbol (b mod 16 * 4 + c div 64) # b64_symbol (c mod 64) # base64_EncodeToString rest)"

section \<open>Lemmas\<close>

lemma b64_symbol_simps [simp]:
  assumes "v < 64"
  shows "b64_value (b64_symbol v) = Some v" "b64_symbol v \<noteq> CHR ''=''"
    "b64_symbol v \<noteq> CHR 0x0D" "b64_symbol v \<noteq> CHR 0x0A"
  using assms by (auto simp: b64_value_def b64_symbol_def Let_def char_eq_iff_of_char)

lemma b64_bounds [simp]:
  "(of_char x :: nat) div 4 < 64" "of_char x mod 4 * 16 + (of_char y :: nat) div 16 < 64"
  "(of_char x :: nat) mod 4 * 16 < 64" "(of_char x :: nat) mod 16 * 4 < 64"
  "of_char x mod 16 * 4 + (of_char y :: nat) div 64 < 64" "(of_char x :: nat) mod 64 < 64"
  using byte_less [of x] byte_less [of y] by linarith+

text \<open>The high parts of a byte are small, so shifting loses nothing.\<close>

lemma b64_recombine:
  "(of_char x :: nat) div 16 div 16 = 0" "(of_char x :: nat) div 64 div 4 = 0"
  "(of_char x :: nat) div 16 mod 16 = of_char x div 16" "(of_char x :: nat) div 64 mod 4 = of_char x div 64"
proof -
  have "(of_char x :: nat) div 16 < 16" "(of_char x :: nat) div 64 < 4" using byte_less [of x] by linarith+
  then show "(of_char x :: nat) div 16 div 16 = 0" "(of_char x :: nat) div 64 div 4 = 0"
    "(of_char x :: nat) div 16 mod 16 = of_char x div 16" "(of_char x :: nat) div 64 mod 4 = of_char x div 64"
    by (simp_all only: div_less mod_less)
qed

lemma b64_quanta_encode: "b64_quanta (base64_EncodeToString s) = Some s"
proof (induction s rule: base64_EncodeToString.induct)
  case (4 x y z rest)
  then show ?case
    by (simp add: Let_def b64_recombine)
next
  case (3 x y)
  then show ?case by (simp add: Let_def b64_recombine)
next
  case (2 x)
  then show ?case by (simp add: Let_def b64_recombine)
qed simp

lemma encode_no_breaks:
  "filter (\<lambda>c. c \<noteq> CHR 0x0D \<and> c \<noteq> CHR 0x0A) (base64_EncodeToString s) = base64_EncodeToString s"
  by (induction s rule: base64_EncodeToString.induct) (simp_all add: Let_def)

lemma base64_roundtrip [simp]: "base64_DecodeString (base64_EncodeToString s) = Some s"
  by (simp add: base64_DecodeString_def encode_no_breaks b64_quanta_encode)

lemma base64_encode_Nil_iff [simp]: "base64_EncodeToString s = [] \<longleftrightarrow> s = []"
  by (induction s rule: base64_EncodeToString.induct) (simp_all add: Let_def)

lemma base64_decode_Nil [simp]: "base64_DecodeString [] = Some []"
  by (simp add: base64_DecodeString_def)

end
