(* ===== verification/Crypto_Aes.thy ===== *)
theory Crypto_Aes
  imports Go_Strings Base64
begin

text \<open>
  \<^verbatim>\<open>internal/crypto/aes.go\<close> and \<^verbatim>\<open>zeroize.go\<close>: the additional authenticated data, the local
  decryption and the erasure of key material.

  Byte slices that the code erases live in a list of buffers (\<open>memory\<close>): allocation appends a
  buffer, its index is the address. AES-GCM itself is the parameter \<open>gcm_open\<close> (key, nonce,
  ciphertext, additional data; \<open>None\<close> when the tag does not verify); \<^verbatim>\<open>aes.NewCipher\<close> and
  \<^verbatim>\<open>cipher.NewGCM\<close> do not fail for a key of 32 bytes and the nonce size is 12. \<^verbatim>\<open>Open\<close> appends
  to a \<^verbatim>\<open>nil\<close> slice, so an empty plaintext is the \<^verbatim>\<open>nil\<close> slice.
\<close>

section \<open>Definitions\<close>

datatype crypto_error =
    ErrInvalidKeySize
  | ErrDecryptFailed
  | ErrPayloadTooLarge
  | ErrMissingPayloadNonce
  | ErrBadBase64 string
  | ErrNonceSize nat
  | ErrUnwrapFailed string
  | ErrInvalidEnvelope string
  | ErrCryptoServiceUnavailable
  | ErrRequest
  | ErrDecodeResponse
  | ErrMarshal

type_synonym memory = "string list"

definition alloc_buf :: "memory \<Rightarrow> string \<Rightarrow> memory \<times> nat" where
  "alloc_buf m b = (m @ [b], length m)"

definition Zeroize :: "memory \<Rightarrow> nat \<Rightarrow> memory" where
  "Zeroize m b = (if length (m ! b) = 0 then m else m[b := replicate (length (m ! b)) (CHR 0x00)])"

definition zeroed :: "memory \<Rightarrow> nat \<Rightarrow> bool" where
  "zeroed m b \<longleftrightarrow> b < length m \<and> list_all (\<lambda>c. c = CHR 0x00) (m ! b)"

definition DefaultAADTemplate :: string where
  "DefaultAADTemplate = ''{tenant_id}|{app_id}|{topic_id}|{event_id}|{version}''"

record aad_context =
  ac_TenantID :: string
  ac_AppID :: string
  ac_TopicID :: string
  ac_EventID :: string
  ac_Version :: int

definition BuildAAD :: "string \<Rightarrow> aad_context \<Rightarrow> string" where
  "BuildAAD template ctx =
     (if template = [] then []
      else replacer_Replace
             [(''{tenant_id}'', ac_TenantID ctx), (''{app_id}'', ac_AppID ctx), (''{topic_id}'', ac_TopicID ctx),
              (''{event_id}'', ac_EventID ctx), (''{version}'', strconv_FormatInt (ac_Version ctx))]
             template)"

type_synonym gcm = "string \<Rightarrow> string \<Rightarrow> string \<Rightarrow> string \<Rightarrow> string option"

definition gcm_nonce_size :: nat where
  "gcm_nonce_size = 12"

definition DecryptPayload ::
  "gcm \<Rightarrow> memory \<Rightarrow> nat \<Rightarrow> string \<Rightarrow> string \<Rightarrow> string \<Rightarrow> int \<Rightarrow> memory \<times> (crypto_error + nat)" where
  "DecryptPayload gcm_open m dek nonceB64 ciphertextB64 aad maxBytes =
     (if length (m ! dek) \<noteq> 32 then (m, Inl ErrInvalidKeySize)
      else case base64_DecodeString nonceB64 of
        None \<Rightarrow> (m, Inl (ErrBadBase64 ''nonce''))
      | Some nonce \<Rightarrow>
          (case base64_DecodeString ciphertextB64 of
             None \<Rightarrow> (m, Inl (ErrBadBase64 ''ciphertext''))
           | Some ciphertext \<Rightarrow>
               if length nonce \<noteq> gcm_nonce_size then (m, Inl (ErrNonceSize (length nonce)))
               else case gcm_open (m ! dek) nonce ciphertext aad of
                 None \<Rightarrow> (m, Inl ErrDecryptFailed)
               | Some bytes \<Rightarrow>
                   (let (m1, plaintext) = alloc_buf m bytes
                    in if maxBytes > 0 \<and> int (length bytes) > maxBytes
                       then (Zeroize m1 plaintext, Inl ErrPayloadTooLarge)
                       else (m1, Inr plaintext))))"

section \<open>Lemmas\<close>

lemma Zeroize_length [simp]: "length (Zeroize m b) = length m"
  by (simp add: Zeroize_def)

lemma Zeroize_zeroed: "b < length m \<Longrightarrow> zeroed (Zeroize m b) b"
  by (auto simp: Zeroize_def zeroed_def list_all_iff)

lemma Zeroize_other: "c \<noteq> b \<Longrightarrow> Zeroize m b ! c = m ! c"
  by (simp add: Zeroize_def)

lemma DecryptPayload_memory:
  "case DecryptPayload g m dek n c aad mx of (m', res) \<Rightarrow>
     length m \<le> length m' \<and> (\<forall>b < length m. m' ! b = m ! b) \<and>
     (case res of Inl _ \<Rightarrow> \<forall>b. length m \<le> b \<and> b < length m' \<longrightarrow> zeroed m' b
      | Inr p \<Rightarrow> p = length m \<and> length m' = Suc (length m))"
  by (auto simp: DecryptPayload_def alloc_buf_def Let_def Zeroize_def zeroed_def nth_append list_all_iff less_Suc_eq
      split: option.split)

lemma DecryptPayload_Inr:
  assumes "DecryptPayload g m dek n c aad mx = (m', Inr p)"
  shows "\<exists>nonce ciphertext. length (m ! dek) = 32 \<and> base64_DecodeString n = Some nonce \<and>
    base64_DecodeString c = Some ciphertext \<and> length nonce = gcm_nonce_size \<and>
    g (m ! dek) nonce ciphertext aad = Some (m' ! p) \<and> (mx \<le> 0 \<or> int (length (m' ! p)) \<le> mx)"
  using assms by (auto simp: DecryptPayload_def alloc_buf_def Let_def split: if_splits option.splits)

lemma default_AAD:
  "BuildAAD DefaultAADTemplate c =
     ac_TenantID c @ ''|'' @ ac_AppID c @ ''|'' @ ac_TopicID c @ ''|'' @ ac_EventID c @ ''|'' @
     strconv_FormatInt (ac_Version c)"
proof -
  let ?ps = "[(''{tenant_id}'', ac_TenantID c), (''{app_id}'', ac_AppID c), (''{topic_id}'', ac_TopicID c),
    (''{event_id}'', ac_EventID c), (''{version}'', strconv_FormatInt (ac_Version c))]"
  have bar: "replacer_Replace ?ps (CHR ''|'' # s) = CHR ''|'' # replacer_Replace ?ps s" for s
    by (rule replacer_skip) simp
  have hits: "replacer_Replace ?ps (''{tenant_id}'' @ s) = ac_TenantID c @ replacer_Replace ?ps s"
    "replacer_Replace ?ps (''{app_id}'' @ s) = ac_AppID c @ replacer_Replace ?ps s"
    "replacer_Replace ?ps (''{topic_id}'' @ s) = ac_TopicID c @ replacer_Replace ?ps s"
    "replacer_Replace ?ps (''{event_id}'' @ s) = ac_EventID c @ replacer_Replace ?ps s"
    "replacer_Replace ?ps (''{version}'' @ s) = strconv_FormatInt (ac_Version c) @ replacer_Replace ?ps s" for s
    by (rule replacer_hit; simp)+
  have "DefaultAADTemplate = ''{tenant_id}'' @ CHR ''|'' # ''{app_id}'' @ CHR ''|'' # ''{topic_id}'' @ CHR ''|'' #
      ''{event_id}'' @ CHR ''|'' # ''{version}'' @ []"
    by (simp add: DefaultAADTemplate_def)
  then have "BuildAAD DefaultAADTemplate c = replacer_Replace ?ps (''{tenant_id}'' @ CHR ''|'' # ''{app_id}'' @
      CHR ''|'' # ''{topic_id}'' @ CHR ''|'' # ''{event_id}'' @ CHR ''|'' # ''{version}'' @ [])"
    unfolding BuildAAD_def by simp
  then show ?thesis unfolding hits bar by simp
qed

section \<open>Properties\<close>

definition bar_free :: "aad_context \<Rightarrow> bool" where
  "bar_free c \<longleftrightarrow> CHR ''|'' \<notin> set (ac_TenantID c @ ac_AppID c @ ac_TopicID c @ ac_EventID c)"

text \<open>
  With the default template the additional data binds a ciphertext to its context:
  contexts whose fields contain no vertical bar have equal additional data only if they are
  the same tenant, application, topic, event and version.
\<close>

theorem default_aad_binds_context:
  assumes "bar_free c" "bar_free d" and "BuildAAD DefaultAADTemplate c = BuildAAD DefaultAADTemplate d"
  shows "(c :: aad_context) = d"
proof -
  have key: "BuildAAD DefaultAADTemplate c = ac_TenantID c @ CHR ''|'' # ac_AppID c @ CHR ''|'' # ac_TopicID c @
      CHR ''|'' # ac_EventID c @ CHR ''|'' # strconv_FormatInt (ac_Version c)" for c
    by (simp add: default_AAD)
  have free: "CHR ''|'' \<notin> set (ac_TenantID x)" "CHR ''|'' \<notin> set (ac_AppID x)" "CHR ''|'' \<notin> set (ac_TopicID x)"
    "CHR ''|'' \<notin> set (ac_EventID x)" if "bar_free x" for x
    using that by (auto simp: bar_free_def)
  note f = free [OF assms(1)] free [OF assms(2)]
  show ?thesis
    using assms(3) unfolding key by (simp add: split_at_eq_iff f)
qed

definition demo_ctx :: "string \<Rightarrow> string \<Rightarrow> aad_context" where
  "demo_ctx t a = \<lparr>ac_TenantID = t, ac_AppID = a, ac_TopicID = ''x'', ac_EventID = ''e'', ac_Version = 1\<rparr>"

theorem default_aad_binds_context_witness:
  "BuildAAD DefaultAADTemplate (demo_ctx ''t1'' ''app'') \<noteq> BuildAAD DefaultAADTemplate (demo_ctx ''t2'' ''app'')"
  using default_aad_binds_context [of "demo_ctx ''t1'' ''app''" "demo_ctx ''t2'' ''app''"]
  by (auto simp: bar_free_def demo_ctx_def)

text \<open>
  The fields are not escaped: tenant \<^verbatim>\<open>a|b\<close> with application \<^verbatim>\<open>c\<close> and tenant \<^verbatim>\<open>a\<close> with
  application \<^verbatim>\<open>b|c\<close> have the same additional data, so a ciphertext of one authenticates as
  one of the other.
\<close>

theorem aad_bar_ambiguity:
  "BuildAAD DefaultAADTemplate (demo_ctx ''a|b'' ''c'') = BuildAAD DefaultAADTemplate (demo_ctx ''a'' ''b|c'') \<and>
    demo_ctx ''a|b'' ''c'' \<noteq> demo_ctx ''a'' ''b|c''"
  by (simp add: default_AAD demo_ctx_def)

text \<open>
  C24. Decryption accepts exactly the payloads that are authentic and small enough: it
  returns a plaintext if and only if the key has 32 bytes, both Base64 fields decode, the
  nonce has 12 bytes, AES-GCM opens the ciphertext under these and the given additional
  data, and the plaintext respects the bound (if there is one); the plaintext returned is
  what AES-GCM gave. Otherwise no plaintext is left in memory: everything newly allocated is
  zeros.
\<close>

theorem decrypt_exactly_authentic:
  "case DecryptPayload gcm_open m dek nonce_enc ciphertext_enc aad maxBytes of (m', res) \<Rightarrow>
    ((\<exists>p. res = Inr p \<and> m' ! p = bytes) \<longleftrightarrow>
      (\<exists>nonce ciphertext. length (m ! dek) = 32 \<and> base64_DecodeString nonce_enc = Some nonce \<and>
        base64_DecodeString ciphertext_enc = Some ciphertext \<and> length nonce = gcm_nonce_size \<and>
        gcm_open (m ! dek) nonce ciphertext aad = Some bytes \<and>
        (maxBytes \<le> 0 \<or> int (length bytes) \<le> maxBytes))) \<and>
    ((\<forall>p. res \<noteq> Inr p) \<longrightarrow> (\<forall>b. length m \<le> b \<and> b < length m' \<longrightarrow> zeroed m' b))"
proof -
  obtain m' res where e: "DecryptPayload gcm_open m dek nonce_enc ciphertext_enc aad maxBytes = (m', res)" by fastforce
  have "(\<exists>p. res = Inr p \<and> m' ! p = bytes) \<longleftrightarrow>
      (\<exists>nonce ciphertext. length (m ! dek) = 32 \<and> base64_DecodeString nonce_enc = Some nonce \<and>
        base64_DecodeString ciphertext_enc = Some ciphertext \<and> length nonce = gcm_nonce_size \<and>
        gcm_open (m ! dek) nonce ciphertext aad = Some bytes \<and>
        (maxBytes \<le> 0 \<or> int (length bytes) \<le> maxBytes))"
    using e by (auto simp: DecryptPayload_def alloc_buf_def Let_def split: if_splits option.splits)
  moreover have "(\<forall>p. res \<noteq> Inr p) \<longrightarrow> (\<forall>b. length m \<le> b \<and> b < length m' \<longrightarrow> zeroed m' b)"
    using DecryptPayload_memory [where g = gcm_open and m = m and dek = dek and n = nonce_enc and
      c = ciphertext_enc and aad = aad and mx = maxBytes]
    unfolding e by (cases res) auto
  ultimately show ?thesis unfolding e by simp
qed

text \<open>A cipher that authenticates nothing but the length of the tag, to evaluate examples.\<close>

definition demo_gcm :: gcm where
  "demo_gcm key nonce ciphertext aad =
     (if length ciphertext < 16 then None else Some (take (length ciphertext - 16) ciphertext))"

definition demo_nonce :: string where
  "demo_nonce = base64_EncodeToString (replicate 12 (CHR ''n''))"

definition demo_cipher :: string where
  "demo_cipher = base64_EncodeToString (''{}'' @ replicate 16 (CHR ''t''))"

lemma demo_decrypts:
  "length (m ! dek) = 32 \<Longrightarrow>
    (\<exists>nonce ciphertext. length (m ! dek) = 32 \<and> base64_DecodeString demo_nonce = Some nonce \<and>
      base64_DecodeString demo_cipher = Some ciphertext \<and> length nonce = gcm_nonce_size \<and>
      demo_gcm (m ! dek) nonce ciphertext aad = Some ''{}'' \<and> (0 \<le> (0::int) \<or> int (length ''{}'') \<le> 0))"
  by (simp add: demo_nonce_def demo_cipher_def gcm_nonce_size_def demo_gcm_def)

theorem decrypt_exactly_authentic_witness:
  "\<exists>m' p. DecryptPayload demo_gcm [replicate 32 (CHR ''k'')] 0 demo_nonce demo_cipher [] 0 = (m', Inr p) \<and> m' ! p = ''{}''"
  using decrypt_exactly_authentic [where gcm_open = demo_gcm and m = "[replicate 32 (CHR ''k'')]" and dek = 0 and
      nonce_enc = demo_nonce and ciphertext_enc = demo_cipher and aad = "[]" and maxBytes = 0 and bytes = "''{}''"]
    demo_decrypts [of "[replicate 32 (CHR ''k'')]" 0 "[]"]
  by (auto split: prod.splits)

end
