(* ===== verification/Frame.thy ===== *)
theory Frame
  imports Go_Strings
begin

text \<open>
  \<^verbatim>\<open>internal/hub/frame.go\<close>: construction of SSE frames, and the client side they are meant for.

  \<open>sse_lines\<close>, \<open>sse_field\<close>, \<open>sse_run\<close> and \<open>sse_parse\<close> are the event-stream interpretation of
  the WHATWG specification (lines end at CR, LF or CRLF; a blank line dispatches the event
  if it has data; a line that starts with a colon is a comment; one space after a field's
  colon is removed). They are the specification that the frames are checked against, not
  code of the gateway.
\<close>

section \<open>Definitions\<close>

subsection \<open>Frames\<close>

record frame =
  Data :: string

definition LF :: char where "LF = CHR 0x0A"
definition CR :: char where "CR = CHR 0x0D"

definition ConnectedEventType :: string where
  "ConnectedEventType = ''connected''"

definition sanitizeHeader :: "string \<Rightarrow> string" where
  "sanitizeHeader s =
     (if s = [] then []
      else strings_TrimSpace (strings_ReplaceAll (strings_ReplaceAll s [CR] []) [LF] []))"

definition NewDataFrame :: "string \<Rightarrow> string \<Rightarrow> string \<Rightarrow> frame" where
  "NewDataFrame eventType eventID payload =
     (let cleanType = sanitizeHeader eventType;
          cleanID = sanitizeHeader eventID
      in \<lparr>Data =
            (if cleanType \<noteq> [] then ''event: '' @ cleanType @ [LF] else []) @
            (if cleanID \<noteq> [] then ''id: '' @ cleanID @ [LF] else []) @
            ''data: '' @ payload @ [LF, LF]\<rparr>)"

definition NewHeartbeatFrame :: "string \<Rightarrow> frame" where
  "NewHeartbeatFrame comment =
     (let trimmed = strings_TrimSpace comment
      in if trimmed = [] then \<lparr>Data = '': ping'' @ [LF, LF]\<rparr>
         else let line = (if \<not> strings_HasPrefix trimmed '':'' then '': '' @ trimmed else trimmed)
              in \<lparr>Data = line @ [LF, LF]\<rparr>)"

text \<open>
  \<^verbatim>\<open>%q\<close> of a connection identifier, i.e. \<^verbatim>\<open>strconv.Quote\<close>, on ASCII strings (identifiers are
  hexadecimal): backslash escapes for the quote, the backslash and the control characters.
\<close>

definition hex_digit :: "nat \<Rightarrow> char" where
  "hex_digit n = (if n < 10 then char_of (n + 48) else char_of (n + 87))"

definition quote_char :: "char \<Rightarrow> string" where
  "quote_char c =
     (let n = of_char c :: nat; bs = CHR 0x5C
      in if c = CHR 0x22 \<or> c = bs then [bs, c]
         else if 32 \<le> n \<and> n < 127 then [c]
         else if n = 7 then [bs, CHR ''a''] else if n = 8 then [bs, CHR ''b'']
         else if n = 12 then [bs, CHR ''f''] else if n = 10 then [bs, CHR ''n'']
         else if n = 13 then [bs, CHR ''r''] else if n = 9 then [bs, CHR ''t'']
         else if n = 11 then [bs, CHR ''v'']
         else [bs, CHR ''x'', hex_digit (n div 16), hex_digit (n mod 16)])"

definition strconv_Quote :: "string \<Rightarrow> string" where
  "strconv_Quote s = CHR 0x22 # concat (map quote_char s) @ [CHR 0x22]"

definition connected_payload :: "string \<Rightarrow> int \<Rightarrow> string" where
  "connected_payload connectionID heartbeatSec =
     [CHR 0x7B, CHR 0x22] @ ''connection_id'' @ [CHR 0x22] @ '':'' @ strconv_Quote connectionID @
     [CHR 0x2C, CHR 0x22] @ ''heartbeat_seconds'' @ [CHR 0x22] @ '':'' @
     strconv_FormatInt heartbeatSec @ [CHR 0x7D]"

definition NewConnectedFrame :: "string \<Rightarrow> int \<Rightarrow> frame" where
  "NewConnectedFrame connectionID heartbeatSec =
     NewDataFrame ConnectedEventType ''0'' (connected_payload connectionID heartbeatSec)"

subsection \<open>The event-stream specification\<close>

text \<open>The complete lines of a stream; the flag says that the previous character was a CR.\<close>

fun sse_lines_cr :: "bool \<Rightarrow> string \<Rightarrow> string list" where
  "sse_lines_cr cr [] = []"
| "sse_lines_cr cr (c # cs) =
     (if c = LF then (if cr then sse_lines_cr False cs else [] # sse_lines_cr False cs)
      else if c = CR then [] # sse_lines_cr True cs
      else case sse_lines_cr False cs of
             [] \<Rightarrow> []
           | l # ls \<Rightarrow> (c # l) # ls)"

definition sse_lines :: "string \<Rightarrow> string list" where
  "sse_lines s = sse_lines_cr False s"

record sse_event =
  ev_name :: string
  ev_last_id :: string
  ev_payload :: string

record sse_buf =
  b_type :: string
  b_id :: string
  b_data :: "string list"

text \<open>The field name and value of a line; a line without colon is a field with empty value.\<close>

definition sse_split :: "string \<Rightarrow> string \<times> string" where
  "sse_split l =
     (let name = takeWhile (\<lambda>c. c \<noteq> CHR '':'') l; rest = drop (length name) l
      in (name, case rest of [] \<Rightarrow> [] | _ # v \<Rightarrow> (case v of CHR 0x20 # v' \<Rightarrow> v' | _ \<Rightarrow> v)))"

definition sse_field :: "string \<times> string \<Rightarrow> sse_buf \<Rightarrow> sse_buf" where
  "sse_field nv b =
     (let (name, v) = nv
      in if name = ''event'' then b\<lparr>b_type := v\<rparr>
         else if name = ''data'' then b\<lparr>b_data := b_data b @ [v]\<rparr>
         else if name = ''id'' then (if CHR 0x00 \<in> set v then b else b\<lparr>b_id := v\<rparr>)
         else b)"

fun join_lf :: "string list \<Rightarrow> string" where
  "join_lf [] = []"
| "join_lf [l] = l"
| "join_lf (l # ls) = l @ LF # join_lf ls"

fun sse_run :: "sse_buf \<Rightarrow> string list \<Rightarrow> sse_event list" where
  "sse_run b [] = []"
| "sse_run b (l # ls) =
     (if l = [] then
        (if b_data b = [] then sse_run (b\<lparr>b_type := []\<rparr>) ls
         else \<lparr>ev_name = (if b_type b = [] then ''message'' else b_type b), ev_last_id = b_id b,
               ev_payload = join_lf (b_data b)\<rparr> # sse_run (b\<lparr>b_type := [], b_data := []\<rparr>) ls)
      else if hd l = CHR '':'' then sse_run b ls
      else sse_run (sse_field (sse_split l) b) ls)"

definition sse_parse :: "string \<Rightarrow> string \<Rightarrow> sse_event list" where
  "sse_parse last_id s = sse_run \<lparr>b_type = [], b_id = last_id, b_data = []\<rparr> (sse_lines s)"

section \<open>Lemmas\<close>

definition one_line :: "string \<Rightarrow> bool" where
  "one_line s \<longleftrightarrow> LF \<notin> set s \<and> CR \<notin> set s"

lemma CR_neq_LF [simp]: "CR \<noteq> LF" "LF \<noteq> CR"
  by (simp_all add: CR_def LF_def)

lemma one_line_simps [simp]:
  "one_line []" "one_line (c # s) \<longleftrightarrow> c \<noteq> LF \<and> c \<noteq> CR \<and> one_line s"
  "one_line (s @ t) \<longleftrightarrow> one_line s \<and> one_line t"
  by (auto simp: one_line_def)

lemma sanitizeHeader_one_line [simp]: "one_line (sanitizeHeader s)"
  using TrimSpace_set by (fastforce simp: sanitizeHeader_def one_line_def ReplaceAll_char_delete)

lemma sse_lines_line: "one_line l \<Longrightarrow> sse_lines (l @ LF # rest) = l # sse_lines rest"
  by (induction l) (auto simp: sse_lines_def)

lemma sse_lines_LF [simp]: "sse_lines (LF # rest) = [] # sse_lines rest"
  by (simp add: sse_lines_def)

lemma sse_split_field:
  assumes "CHR '':'' \<notin> set name"
  shows "sse_split (name @ CHR '':'' # CHR 0x20 # v) = (name, v)"
proof -
  have "takeWhile (\<lambda>c. c \<noteq> CHR '':'') (name @ CHR '':'' # CHR 0x20 # v) = name"
    using assms by (induction name) auto
  then show ?thesis by (simp add: sse_split_def Let_def)
qed

lemma sse_lines_data_frame:
  assumes "one_line p"
  shows "sse_lines (Data (NewDataFrame ty i p) @ rest) =
     (if sanitizeHeader ty \<noteq> [] then [''event: '' @ sanitizeHeader ty] else []) @
     (if sanitizeHeader i \<noteq> [] then [''id: '' @ sanitizeHeader i] else []) @
     [''data: '' @ p, []] @ sse_lines rest"
proof -
  have line: "sse_lines ((pre @ x) @ LF # r) = (pre @ x) # sse_lines r"
    if "one_line pre" "one_line x" for pre x r
    using that by (intro sse_lines_line) simp
  have pre: "one_line ''event: ''" "one_line ''id: ''" "one_line ''data: ''"
    by (simp_all add: LF_def CR_def)
  show ?thesis
    using line [OF pre(1), of "sanitizeHeader ty"] line [OF pre(2), of "sanitizeHeader i"]
      line [OF pre(3) assms]
    by (simp add: NewDataFrame_def Let_def)
qed


lemma sse_lines_heartbeat:
  assumes "one_line (strings_TrimSpace comment)"
  shows "\<exists>l. hd l = CHR '':'' \<and> l \<noteq> [] \<and>
    sse_lines (Data (NewHeartbeatFrame comment) @ rest) = l # [] # sse_lines rest"
proof -
  have line: "\<exists>l. hd l = CHR '':'' \<and> l \<noteq> [] \<and> sse_lines (x @ LF # LF # rest) = l # [] # sse_lines rest"
    if "one_line x" "x \<noteq> []" "hd x = CHR '':''" for x
    using that sse_lines_line [OF that(1), of "LF # rest"] by auto
  let ?t = "strings_TrimSpace comment"
  consider "?t = []" | "?t \<noteq> []" "strings_HasPrefix ?t '':''" | "?t \<noteq> []" "\<not> strings_HasPrefix ?t '':''"
    by blast
  then show ?thesis
  proof cases
    case 1
    with line [of "'': ping''"] show ?thesis
      by (simp add: NewHeartbeatFrame_def LF_def CR_def)
  next
    case 2
    then have "hd ?t = CHR '':''" by (cases ?t) (simp_all add: strings_HasPrefix_def)
    with 2 line [OF assms] show ?thesis by (simp add: NewHeartbeatFrame_def)
  next
    case 3
    with assms line [of "'': '' @ ?t"] show ?thesis
      by (simp add: NewHeartbeatFrame_def LF_def CR_def)
  qed
qed

text \<open>What a client that saw \<open>last_id\<close> last makes of one frame.\<close>

definition frame_id :: "string \<Rightarrow> string \<Rightarrow> string" where
  "frame_id last_id i =
     (if sanitizeHeader i = [] \<or> CHR 0x00 \<in> set (sanitizeHeader i) then last_id else sanitizeHeader i)"

definition frame_event :: "string \<Rightarrow> string \<Rightarrow> string \<Rightarrow> string \<Rightarrow> sse_event" where
  "frame_event last_id ty i p =
     \<lparr>ev_name = (if sanitizeHeader ty = [] then ''message'' else sanitizeHeader ty),
      ev_last_id = frame_id last_id i, ev_payload = p\<rparr>"

lemma sse_split_fields:
  "sse_split (''event: '' @ v) = (''event'', v)"
  "sse_split (''id: '' @ v) = (''id'', v)"
  "sse_split (''data: '' @ v) = (''data'', v)"
  using sse_split_field [of "''event''" v] sse_split_field [of "''id''" v] sse_split_field [of "''data''" v]
  by simp_all

lemma sse_run_data_frame:
  assumes "one_line p"
  shows "sse_run \<lparr>b_type = [], b_id = last_id, b_data = []\<rparr> (sse_lines (Data (NewDataFrame ty i p) @ rest)) =
    frame_event last_id ty i p #
    sse_run \<lparr>b_type = [], b_id = frame_id last_id i, b_data = []\<rparr> (sse_lines rest)"
  unfolding sse_lines_data_frame [OF assms]
  by (simp add: sse_split_fields [simplified] sse_field_def frame_event_def frame_id_def)

lemma sse_run_heartbeat:
  assumes "one_line (strings_TrimSpace comment)"
  shows "sse_run \<lparr>b_type = [], b_id = last_id, b_data = []\<rparr> (sse_lines (Data (NewHeartbeatFrame comment) @ rest)) =
    sse_run \<lparr>b_type = [], b_id = last_id, b_data = []\<rparr> (sse_lines rest)"
proof -
  obtain l where "hd l = CHR '':''" "l \<noteq> []"
    "sse_lines (Data (NewHeartbeatFrame comment) @ rest) = l # [] # sse_lines rest"
    using sse_lines_heartbeat [OF assms] by blast
  then show ?thesis by simp
qed

text \<open>
  A connection's byte stream: the frames the gateway writes one after the other, and the
  events the specification reads back from it.
\<close>

datatype stream_item = DataItem string string string | HeartbeatItem string

fun item_frame :: "stream_item \<Rightarrow> frame" where
  "item_frame (DataItem ty i p) = NewDataFrame ty i p"
| "item_frame (HeartbeatItem c) = NewHeartbeatFrame c"

fun item_ok :: "stream_item \<Rightarrow> bool" where
  "item_ok (DataItem ty i p) = one_line p"
| "item_ok (HeartbeatItem c) = one_line (strings_TrimSpace c)"

fun item_events :: "string \<Rightarrow> stream_item list \<Rightarrow> sse_event list" where
  "item_events last_id [] = []"
| "item_events last_id (DataItem ty i p # its) =
     frame_event last_id ty i p # item_events (frame_id last_id i) its"
| "item_events last_id (HeartbeatItem c # its) = item_events last_id its"

lemma sse_run_stream:
  "list_all item_ok its \<Longrightarrow>
   sse_run \<lparr>b_type = [], b_id = last_id, b_data = []\<rparr> (sse_lines (concat (map (Data \<circ> item_frame) its))) =
   item_events last_id its"
proof (induction its arbitrary: last_id)
  case Nil
  then show ?case by (simp add: sse_lines_def)
next
  case (Cons x xs)
  then show ?case
    by (cases x) (simp_all add: sse_run_data_frame sse_run_heartbeat)
qed

lemma hex_digit_printable: "n < 16 \<Longrightarrow> 32 \<le> (of_char (hex_digit n) :: nat)"
  by (simp add: hex_digit_def)

lemma quote_char_printable: "x \<in> set (quote_char c) \<Longrightarrow> 32 \<le> (of_char x :: nat)"
proof -
  assume x: "x \<in> set (quote_char c)"
  have "of_char c div 16 < (16 :: nat)" using nat_of_char_less_256 [of c] by linarith
  with x show ?thesis
    by (auto simp: quote_char_def Let_def hex_digit_printable split: if_splits)
qed

lemma one_line_printable: "(\<And>x. x \<in> set s \<Longrightarrow> 32 \<le> (of_char x :: nat)) \<Longrightarrow> one_line s"
  by (force simp: one_line_def LF_def CR_def)

lemma one_line_quote_char: "one_line (quote_char c)"
  by (rule one_line_printable) (rule quote_char_printable)

lemma one_line_concat: "one_line (concat xss) \<longleftrightarrow> list_all one_line xss"
  by (induction xss) auto

lemma one_line_Quote: "one_line (strconv_Quote s)"
  by (simp add: strconv_Quote_def one_line_concat one_line_quote_char list_all_iff)
    (simp add: LF_def CR_def)

lemma one_line_FormatInt: "one_line (strconv_FormatInt i)"
  by (fastforce simp: one_line_def LF_def CR_def dest: FormatInt_range)

lemma sanitize_connected [simp]:
  "sanitizeHeader ConnectedEventType = ConnectedEventType" "sanitizeHeader ''0'' = ''0''"
  by (simp_all add: sanitizeHeader_def ConnectedEventType_def ReplaceAll_char_delete CR_def LF_def
    trim_eval)

section \<open>Properties\<close>

text \<open>
  C23. Whatever event types and identifiers the producers send (line breaks included), the byte
  stream of a connection, a concatenation of data frames whose payloads have no line break
  and of heartbeat frames, is read by the event-stream specification as exactly one event
  per data frame, in order, with the sanitised type and identifier and the payload
  unchanged; heartbeats are invisible. Nothing a header field contains can open, end or
  split an event.
\<close>

theorem stream_roundtrip:
  assumes "list_all item_ok its"
  shows "sse_parse last_id (concat (map (Data \<circ> item_frame) its)) = item_events last_id its"
  using sse_run_stream [OF assms] by (simp add: sse_parse_def)

theorem stream_roundtrip_witness:
  "sse_parse [] (concat (map (Data \<circ> item_frame)
      [DataItem (''a'' @ [CR, LF] @ ''data: x'') ''7'' ''p'', HeartbeatItem ''hb'', DataItem [] [] ''q''])) =
   [\<lparr>ev_name = ''adata: x'', ev_last_id = ''7'', ev_payload = ''p''\<rparr>,
    \<lparr>ev_name = ''message'', ev_last_id = ''7'', ev_payload = ''q''\<rparr>]"
proof -
  let ?its = "[DataItem (''a'' @ [CR, LF] @ ''data: x'') ''7'' ''p'', HeartbeatItem ''hb'', DataItem [] [] ''q'']"
  note eval = sanitizeHeader_def ReplaceAll_char_delete CR_def LF_def trim_eval
  have ok: "list_all item_ok ?its" by (simp add: eval)
  have ev: "item_events [] ?its =
    [\<lparr>ev_name = ''adata: x'', ev_last_id = ''7'', ev_payload = ''p''\<rparr>,
     \<lparr>ev_name = ''message'', ev_last_id = ''7'', ev_payload = ''q''\<rparr>]"
    by (simp add: frame_event_def frame_id_def eval)
  show ?thesis using stream_roundtrip [OF ok, of "[]"] unfolding ev .
qed

text \<open>
  The welcome frame is read back as one \<^verbatim>\<open>connected\<close> event with identifier 0 for every
  connection identifier and heartbeat interval, whatever bytes the identifier has.
\<close>

lemma connected_frame_parses:
  "sse_parse last_id (Data (NewConnectedFrame cid secs)) =
     [\<lparr>ev_name = ConnectedEventType, ev_last_id = ''0'', ev_payload = connected_payload cid secs\<rparr>]"
proof -
  have "one_line (connected_payload cid secs)"
    by (simp add: connected_payload_def one_line_Quote one_line_FormatInt) (simp add: LF_def CR_def)
  from sse_run_data_frame [OF this, of last_id ConnectedEventType "''0''" "[]"] show ?thesis
    by (simp add: sse_parse_def NewConnectedFrame_def sse_lines_def frame_event_def frame_id_def
      ConnectedEventType_def [symmetric])
      (simp add: ConnectedEventType_def)
qed

end
