(* ===== verification/Go_Chan.thy ===== *)
theory Go_Chan
  imports Gateway_Prelude
begin

text \<open>
  Buffered Go channels and the two non-blocking operations the gateway performs on them: a
  \<^verbatim>\<open>select\<close> with a send (or receive) case and a \<^verbatim>\<open>default\<close>. Sending on a closed channel panics,
  also inside a \<^verbatim>\<open>select\<close>; a receive from a closed channel first drains the buffer.

  The locale \<open>bounded_queue\<close> is the contract the gateway's producers rely on: an offer is
  accepted while there is room and refused without effect otherwise. It is provided by open
  channels here, and by the clients' queues under the \<^verbatim>\<open>drop_newest\<close> policy in the theory of
  clients.
\<close>

section \<open>Definitions\<close>

record 'a chan =
  ch_buf :: "'a list"
  ch_cap :: nat
  ch_closed :: bool

definition make_chan :: "nat \<Rightarrow> 'a chan" where
  "make_chan n = \<lparr>ch_buf = [], ch_cap = n, ch_closed = False\<rparr>"

datatype 'a send_result = Sent "'a chan" | Full | SendPanic

definition try_send :: "'a chan \<Rightarrow> 'a \<Rightarrow> 'a send_result" where
  "try_send ch x =
     (if ch_closed ch then SendPanic
      else if length (ch_buf ch) < ch_cap ch then Sent (ch\<lparr>ch_buf := ch_buf ch @ [x]\<rparr>)
      else Full)"

datatype 'a recv_result = Recv 'a "'a chan" | Empty | Closed

definition try_recv :: "'a chan \<Rightarrow> 'a recv_result" where
  "try_recv ch =
     (case ch_buf ch of
        x # xs \<Rightarrow> Recv x (ch\<lparr>ch_buf := xs\<rparr>)
      | [] \<Rightarrow> if ch_closed ch then Closed else Empty)"

definition close_chan :: "'a chan \<Rightarrow> 'a chan" where
  "close_chan ch = ch\<lparr>ch_closed := True\<rparr>"

definition chan_wf :: "'a chan \<Rightarrow> bool" where
  "chan_wf ch \<longleftrightarrow> length (ch_buf ch) \<le> ch_cap ch"

definition chan_open :: "'a chan \<Rightarrow> bool" where
  "chan_open ch \<longleftrightarrow> chan_wf ch \<and> \<not> ch_closed ch"

text \<open>The send-or-drop step of a producer on a channel that is never closed under it.\<close>

definition chan_offer :: "'a chan \<Rightarrow> 'a \<Rightarrow> 'a chan \<times> bool" where
  "chan_offer ch x = (case try_send ch x of Sent ch' \<Rightarrow> (ch', True) | _ \<Rightarrow> (ch, False))"

text \<open>A run of offers, as a producer with no consumer in between performs it.\<close>

definition offer_all :: "('q \<Rightarrow> 'a \<Rightarrow> 'q \<times> bool) \<Rightarrow> 'q \<Rightarrow> 'a list \<Rightarrow> 'q" where
  "offer_all offer q xs = foldl (\<lambda>q x. fst (offer q x)) q xs"

lemma offer_all_simps [simp]:
  "offer_all offer q [] = q"
  "offer_all offer q (x # xs) = offer_all offer (fst (offer q x)) xs"
  by (simp_all add: offer_all_def)

section \<open>The bounded queue contract\<close>

locale bounded_queue =
  fixes ok :: "'q \<Rightarrow> bool"
    and items :: "'q \<Rightarrow> 'a list"
    and capacity :: "'q \<Rightarrow> nat"
    and offer :: "'q \<Rightarrow> 'a \<Rightarrow> 'q \<times> bool"
  assumes ok_bound: "ok q \<Longrightarrow> length (items q) \<le> capacity q"
    and ok_offer: "ok q \<Longrightarrow> ok (fst (offer q x))"
    and offer_capacity: "ok q \<Longrightarrow> capacity (fst (offer q x)) = capacity q"
    and offer_accepts: "ok q \<Longrightarrow> snd (offer q x) \<longleftrightarrow> length (items q) < capacity q"
    and offer_items: "ok q \<Longrightarrow>
      items (fst (offer q x)) = (if length (items q) < capacity q then items q @ [x] else items q)"
begin

lemma ok_offer_all: "ok q \<Longrightarrow> ok (offer_all offer q xs)"
  by (induction xs arbitrary: q) (auto simp: ok_offer)

lemma offer_all_items:
  "ok q \<Longrightarrow> items (offer_all offer q xs) = items q @ take (capacity q - length (items q)) xs"
proof (induction xs arbitrary: q)
  case Nil
  then show ?case by simp
next
  case (Cons x xs)
  show ?case
  proof (cases "length (items q) < capacity q")
    case True
    with Cons show ?thesis by (simp add: ok_offer offer_capacity offer_items take_Cons')
  next
    case False
    with Cons show ?thesis by (simp add: ok_offer offer_capacity offer_items)
  qed
qed

lemma offer_all_never_overflows: "ok q \<Longrightarrow> length (items (offer_all offer q xs)) \<le> capacity q"
  using ok_bound [of q] by (simp add: offer_all_items)

lemma offer_all_fits:
  assumes "ok q" and "length (items q) + length xs \<le> capacity q"
  shows "items (offer_all offer q xs) = items q @ xs"
  using assms by (simp add: offer_all_items)

end

section \<open>Channels provide it\<close>

lemma try_send_open [simp]:
  "\<not> ch_closed ch \<Longrightarrow> try_send ch x \<noteq> SendPanic"
  by (simp add: try_send_def)

lemma chan_wf_make [simp, wf_intros]: "chan_wf (make_chan n)"
  by (simp add: chan_wf_def make_chan_def)

lemma chan_wf_send [wf_intros]: "chan_wf ch \<Longrightarrow> try_send ch x = Sent ch' \<Longrightarrow> chan_wf ch'"
  by (auto simp: chan_wf_def try_send_def split: if_splits)

lemma chan_wf_recv [wf_intros]: "chan_wf ch \<Longrightarrow> try_recv ch = Recv x ch' \<Longrightarrow> chan_wf ch'"
  by (auto simp: chan_wf_def try_recv_def split: list.splits if_splits)

lemma chan_wf_close [simp, wf_intros]: "chan_wf (close_chan ch) = chan_wf ch"
  by (simp add: chan_wf_def close_chan_def)

lemma recv_after_send:
  assumes "ch_buf ch = []" and "try_send ch x = Sent ch'"
  shows "try_recv ch' = Recv x ch"
  using assms by (cases ch) (auto simp: try_send_def try_recv_def split: if_splits)

lemma chan_offer_open:
  "chan_open ch \<Longrightarrow> chan_offer ch x =
     (if length (ch_buf ch) < ch_cap ch then (ch\<lparr>ch_buf := ch_buf ch @ [x]\<rparr>, True) else (ch, False))"
  by (simp add: chan_offer_def try_send_def chan_open_def)

interpretation chq: bounded_queue chan_open ch_buf ch_cap chan_offer
proof
  fix q :: "'a chan" and x :: 'a
  assume "chan_open q"
  then show "chan_open (fst (chan_offer q x))"
    by (simp add: chan_offer_open) (simp add: chan_open_def chan_wf_def)
qed (auto simp: chan_offer_open chan_open_def chan_wf_def split: if_splits)

end
