(* ===== verification/Client.thy ===== *)
theory Client
  imports Frame Go_Chan
begin

text \<open>
  \<^verbatim>\<open>internal/hub/client.go\<close>: a connection's client object, its bounded send queue and the
  back-pressure policies.

  \<open>cl_closed\<close> is the atomic flag \<^verbatim>\<open>closed\<close>, \<open>cl_closeNotify\<close> says that the channel of
  \<^verbatim>\<open>Done()\<close> is closed, \<open>cl_onSlow\<close> that a slow-client callback is installed (its effect is
  the hub's). \<open>SlowPolicy\<close> is a string type in the code, and any string can come from the
  configuration: unknown policies fall through to \<^verbatim>\<open>disconnect\<close>, as in the code's
  \<^verbatim>\<open>default\<close> case. \<open>EnqueueFrame\<close> returns the client, its result and whether the slow-client
  callback was called. The send channel itself is never closed by the code.
\<close>

section \<open>Definitions\<close>

type_synonym slow_policy = string

definition SlowPolicyDisconnect :: slow_policy where "SlowPolicyDisconnect = ''disconnect''"
definition SlowPolicyDropOldest :: slow_policy where "SlowPolicyDropOldest = ''drop_oldest''"
definition SlowPolicyDropNewest :: slow_policy where "SlowPolicyDropNewest = ''drop_newest''"

record client =
  cl_ID :: string
  cl_UserID :: string
  cl_TenantID :: string
  cl_Topics :: "string list"
  cl_Send :: "frame chan"
  cl_SlowPolicy :: slow_policy
  cl_closed :: bool
  cl_closeNotify :: bool
  cl_unregistered :: bool
  cl_onSlow :: bool

definition NewClient ::
  "string \<Rightarrow> string \<Rightarrow> string \<Rightarrow> string list \<Rightarrow> int \<Rightarrow> slow_policy \<Rightarrow> bool \<Rightarrow> client" where
  "NewClient ident userID tenantID topics queueSize policy onSlow =
     (let queueSize = (if queueSize \<le> 0 then 32 else queueSize);
          policy = (if policy = [] then SlowPolicyDisconnect else policy)
      in \<lparr>cl_ID = ident, cl_UserID = userID, cl_TenantID = tenantID, cl_Topics = topics,
          cl_Send = make_chan (nat queueSize), cl_SlowPolicy = policy, cl_closed = False,
          cl_closeNotify = False, cl_unregistered = False, cl_onSlow = onSlow\<rparr>)"

text \<open>\<^verbatim>\<open>unregistered.CompareAndSwap(false, true)\<close>.\<close>

definition MarkUnregistered :: "client \<Rightarrow> client \<times> bool" where
  "MarkUnregistered c =
     (if cl_unregistered c then (c, False) else (c\<lparr>cl_unregistered := True\<rparr>, True))"

text \<open>
  \<^verbatim>\<open>closeOnce.Do\<close>: the body runs at most once; it has run exactly if \<^verbatim>\<open>closeNotify\<close> is closed,
  which no other code does.
\<close>

definition Client_Close :: "client \<Rightarrow> client" where
  "Client_Close c =
     (if cl_closeNotify c then c else c\<lparr>cl_closed := True, cl_closeNotify := True\<rparr>)"

definition Done :: "client \<Rightarrow> bool" where
  "Done c = cl_closeNotify c"

definition IsClosed :: "client \<Rightarrow> bool" where
  "IsClosed c = cl_closed c"

definition drop_oldest :: "frame chan \<Rightarrow> frame chan" where
  "drop_oldest ch = (case try_recv ch of Recv _ ch' \<Rightarrow> ch' | _ \<Rightarrow> ch)"

definition EnqueueFrame :: "client \<Rightarrow> frame \<Rightarrow> client \<times> bool \<times> bool" where
  "EnqueueFrame c f =
     (if cl_closed c then (c, False, False)
      else case try_send (cl_Send c) f of
        Sent ch \<Rightarrow> (c\<lparr>cl_Send := ch\<rparr>, True, False)
      | _ \<Rightarrow>
          if cl_SlowPolicy c = SlowPolicyDropOldest then
            (let ch1 = drop_oldest (cl_Send c)
             in case try_send ch1 f of
                  Sent ch2 \<Rightarrow> (c\<lparr>cl_Send := ch2\<rparr>, True, False)
                | _ \<Rightarrow> (c\<lparr>cl_Send := ch1\<rparr>, False, False))
          else if cl_SlowPolicy c = SlowPolicyDropNewest then (c, False, False)
          else (Client_Close c, False, cl_onSlow c))"

text \<open>The stream handler's receive from the send queue.\<close>

definition DequeueFrame :: "client \<Rightarrow> (frame \<times> client) option" where
  "DequeueFrame c =
     (case try_recv (cl_Send c) of Recv f ch \<Rightarrow> Some (f, c\<lparr>cl_Send := ch\<rparr>) | _ \<Rightarrow> None)"

abbreviation cl_queue :: "client \<Rightarrow> frame list" where
  "cl_queue c \<equiv> ch_buf (cl_Send c)"

abbreviation cl_capacity :: "client \<Rightarrow> nat" where
  "cl_capacity c \<equiv> ch_cap (cl_Send c)"

definition client_wf :: "client \<Rightarrow> bool" where
  "client_wf c \<longleftrightarrow> chan_open (cl_Send c) \<and> 0 < cl_capacity c \<and> (cl_closed c \<longleftrightarrow> cl_closeNotify c)"

text \<open>A run of enqueues, with the results in order.\<close>

fun enqueue_run :: "client \<Rightarrow> frame list \<Rightarrow> client \<times> bool list" where
  "enqueue_run c [] = (c, [])"
| "enqueue_run c (f # fs) =
     (let (c1, ok, _) = EnqueueFrame c f; (c2, oks) = enqueue_run c1 fs in (c2, ok # oks))"

text \<open>The fields no operation writes.\<close>

definition same_identity :: "client \<Rightarrow> client \<Rightarrow> bool" where
  "same_identity c d \<longleftrightarrow>
     cl_ID c = cl_ID d \<and> cl_UserID c = cl_UserID d \<and> cl_TenantID c = cl_TenantID d \<and>
     cl_Topics c = cl_Topics d \<and> cl_SlowPolicy c = cl_SlowPolicy d \<and> cl_capacity c = cl_capacity d \<and>
     cl_onSlow c = cl_onSlow d"

section \<open>Lemmas\<close>

lemmas client_op_defs [op_defs] = MarkUnregistered_def Client_Close_def EnqueueFrame_def drop_oldest_def

lemma policies_distinct [simp]:
  "SlowPolicyDropNewest \<noteq> SlowPolicyDropOldest" "SlowPolicyDropOldest \<noteq> SlowPolicyDropNewest"
  "SlowPolicyDisconnect \<noteq> SlowPolicyDropOldest" "SlowPolicyDisconnect \<noteq> SlowPolicyDropNewest"
  by (simp_all add: SlowPolicyDropNewest_def SlowPolicyDropOldest_def SlowPolicyDisconnect_def)

lemma NewClient_wf [wf_intros]: "client_wf (NewClient i u t ts n p s)"
  by (simp add: client_wf_def NewClient_def chan_open_def make_chan_def chan_wf_def)

text \<open>One enqueue on a well-formed client, as a case distinction over the three policies.\<close>

lemma EnqueueFrame_cases:
  assumes "client_wf c"
  shows "EnqueueFrame c f =
    (if cl_closed c then (c, False, False)
     else if length (cl_queue c) < cl_capacity c then
       (c\<lparr>cl_Send := (cl_Send c)\<lparr>ch_buf := cl_queue c @ [f]\<rparr>\<rparr>, True, False)
     else if cl_SlowPolicy c = SlowPolicyDropOldest then
       (c\<lparr>cl_Send := (cl_Send c)\<lparr>ch_buf := tl (cl_queue c) @ [f]\<rparr>\<rparr>, True, False)
     else if cl_SlowPolicy c = SlowPolicyDropNewest then (c, False, False)
     else (c\<lparr>cl_closed := True, cl_closeNotify := True\<rparr>, False, cl_onSlow c))"
  using assms
  by (auto simp: op_defs try_send_def try_recv_def client_wf_def chan_open_def chan_wf_def Let_def
      split: list.split)

lemma EnqueueFrame_wf [wf_intros]:
  assumes "client_wf c"
  shows "client_wf (fst (EnqueueFrame c f))"
  using assms by (auto simp: EnqueueFrame_cases [OF assms]) (auto simp: client_wf_def chan_open_def chan_wf_def)

lemma EnqueueFrame_identity [frame_simps]:
  assumes "client_wf c"
  shows "same_identity (fst (EnqueueFrame c f)) c"
  using assms by (simp add: EnqueueFrame_cases same_identity_def)

lemma EnqueueFrame_unregistered [frame_simps]:
  assumes "client_wf c"
  shows "cl_unregistered (fst (EnqueueFrame c f)) = cl_unregistered c"
  using assms by (simp add: EnqueueFrame_cases)

lemma Close_wf [wf_intros]: "client_wf c \<Longrightarrow> client_wf (Client_Close c)"
  by (auto simp: client_wf_def Client_Close_def)

lemma Close_frame [simp, frame_simps]:
  "same_identity (Client_Close c) c" "cl_queue (Client_Close c) = cl_queue c"
  "cl_unregistered (Client_Close c) = cl_unregistered c"
  by (simp_all add: Client_Close_def same_identity_def)

lemma Close_closed: "client_wf c \<Longrightarrow> cl_closed (Client_Close c)"
  by (simp add: client_wf_def Client_Close_def)

lemma Close_idem [simp]: "Client_Close (Client_Close c) = Client_Close c"
  by (simp add: Client_Close_def)

lemma MarkUnregistered_wf [wf_intros]: "client_wf c \<Longrightarrow> client_wf (fst (MarkUnregistered c))"
  by (simp add: MarkUnregistered_def client_wf_def)

lemma MarkUnregistered_frame [simp, frame_simps]:
  "same_identity (fst (MarkUnregistered c)) c" "cl_queue (fst (MarkUnregistered c)) = cl_queue c"
  "cl_closed (fst (MarkUnregistered c)) = cl_closed c" "cl_unregistered (fst (MarkUnregistered c))"
  by (simp_all add: MarkUnregistered_def same_identity_def)

lemma same_identity_refl [simp]: "same_identity c c"
  by (simp add: same_identity_def)

lemma same_identity_trans: "same_identity a b \<Longrightarrow> same_identity b c \<Longrightarrow> same_identity a c"
  by (simp add: same_identity_def)

subsection \<open>The \<^verbatim>\<open>drop_newest\<close> queue is a bounded queue\<close>

definition newest_ok :: "client \<Rightarrow> bool" where
  "newest_ok c \<longleftrightarrow> client_wf c \<and> \<not> cl_closed c \<and> cl_SlowPolicy c = SlowPolicyDropNewest"

definition enqueue_offer :: "client \<Rightarrow> frame \<Rightarrow> client \<times> bool" where
  "enqueue_offer c f = (case EnqueueFrame c f of (c', ok, _) \<Rightarrow> (c', ok))"

interpretation newest: bounded_queue newest_ok cl_queue cl_capacity enqueue_offer
proof
  fix q x
  assume q: "newest_ok q"
  then have wf: "client_wf q" by (simp add: newest_ok_def)
  show "length (cl_queue q) \<le> cl_capacity q"
    using wf by (simp add: client_wf_def chan_open_def chan_wf_def)
  show "newest_ok (fst (enqueue_offer q x))"
    using q EnqueueFrame_wf [OF wf, of x]
    by (auto simp: newest_ok_def enqueue_offer_def EnqueueFrame_cases)
  show "cl_capacity (fst (enqueue_offer q x)) = cl_capacity q"
    and "snd (enqueue_offer q x) = (length (cl_queue q) < cl_capacity q)"
    and "cl_queue (fst (enqueue_offer q x)) =
      (if length (cl_queue q) < cl_capacity q then cl_queue q @ [x] else cl_queue q)"
    using q by (auto simp: newest_ok_def enqueue_offer_def EnqueueFrame_cases)
qed

subsection \<open>Runs\<close>

lemma enqueue_run_Cons:
  "fst (enqueue_run c (f # fs)) = fst (enqueue_run (fst (EnqueueFrame c f)) fs)"
  "snd (enqueue_run c (f # fs)) =
     fst (snd (EnqueueFrame c f)) # snd (enqueue_run (fst (EnqueueFrame c f)) fs)"
  by (auto simp: Let_def split: prod.splits)

lemma enqueue_run_offer_all: "fst (enqueue_run c fs) = offer_all enqueue_offer c fs"
proof (induction fs arbitrary: c)
  case (Cons f fs)
  have "fst (enqueue_offer c f) = fst (EnqueueFrame c f)"
    by (simp add: enqueue_offer_def split: prod.split)
  with Cons show ?case by (simp only: enqueue_run_Cons offer_all_simps)
qed simp

lemma enqueue_run_wf: "client_wf c \<Longrightarrow> client_wf (fst (enqueue_run c fs))"
  by (induction fs arbitrary: c) (simp, simp only: enqueue_run_Cons EnqueueFrame_wf)

lemma enqueue_run_closed:
  "client_wf c \<Longrightarrow> cl_closed c \<Longrightarrow> enqueue_run c fs = (c, replicate (length fs) False)"
  by (induction fs) (auto simp: EnqueueFrame_cases)

lemma enqueue_run_drop_oldest:
  assumes "client_wf c" and "\<not> cl_closed c" and "cl_SlowPolicy c = SlowPolicyDropOldest"
  shows "cl_queue (fst (enqueue_run c fs)) =
      drop (length (cl_queue c @ fs) - cl_capacity c) (cl_queue c @ fs)
    \<and> snd (enqueue_run c fs) = replicate (length fs) True"
  using assms
proof (induction fs arbitrary: c)
  case Nil
  then show ?case by (simp add: client_wf_def chan_open_def chan_wf_def)
next
  case (Cons f fs)
  let ?c1 = "fst (EnqueueFrame c f)"
  have wf1: "client_wf ?c1" using Cons.prems(1) by (rule EnqueueFrame_wf)
  have IH: "cl_queue (fst (enqueue_run ?c1 fs)) =
      drop (length (cl_queue ?c1 @ fs) - cl_capacity ?c1) (cl_queue ?c1 @ fs)
    \<and> snd (enqueue_run ?c1 fs) = replicate (length fs) True"
    using Cons.prems by (intro Cons.IH wf1) (simp_all add: EnqueueFrame_cases)
  show ?case
  proof (cases "length (cl_queue c) < cl_capacity c")
    case True
    with IH Cons.prems show ?thesis
      by (simp only: enqueue_run_Cons) (simp add: EnqueueFrame_cases)
  next
    case False
    with Cons.prems have full: "length (cl_queue c) = cl_capacity c" "cl_queue c \<noteq> []"
      by (auto simp: client_wf_def chan_open_def chan_wf_def)
    then obtain x xs where "cl_queue c = x # xs" by (cases "cl_queue c") auto
    with full IH Cons.prems show ?thesis
      by (simp only: enqueue_run_Cons) (simp add: EnqueueFrame_cases Suc_diff_le)
  qed
qed

lemma enqueue_run_disconnect:
  assumes "client_wf c" and "\<not> cl_closed c"
    and "cl_SlowPolicy c \<noteq> SlowPolicyDropOldest" and "cl_SlowPolicy c \<noteq> SlowPolicyDropNewest"
  shows "cl_queue (fst (enqueue_run c fs)) = cl_queue c @ take (cl_capacity c - length (cl_queue c)) fs
    \<and> (cl_closed (fst (enqueue_run c fs)) \<longleftrightarrow> cl_capacity c < length (cl_queue c) + length fs)"
  using assms
proof (induction fs arbitrary: c)
  case Nil
  then show ?case by (simp add: client_wf_def chan_open_def chan_wf_def)
next
  case (Cons f fs)
  let ?c1 = "fst (EnqueueFrame c f)"
  have wf1: "client_wf ?c1" using Cons.prems(1) by (rule EnqueueFrame_wf)
  show ?case
  proof (cases "length (cl_queue c) < cl_capacity c")
    case True
    have "cl_queue (fst (enqueue_run ?c1 fs)) = cl_queue ?c1 @ take (cl_capacity ?c1 - length (cl_queue ?c1)) fs
      \<and> (cl_closed (fst (enqueue_run ?c1 fs)) \<longleftrightarrow> cl_capacity ?c1 < length (cl_queue ?c1) + length fs)"
      using Cons.prems True by (intro Cons.IH wf1) (simp_all add: EnqueueFrame_cases)
    with True Cons.prems show ?thesis
      by (simp only: enqueue_run_Cons) (auto simp: EnqueueFrame_cases take_Cons')
  next
    case False
    then have "enqueue_run ?c1 fs = (?c1, replicate (length fs) False)"
      using Cons.prems by (intro enqueue_run_closed wf1) (simp add: EnqueueFrame_cases)
    with False Cons.prems show ?thesis
      by (simp only: enqueue_run_Cons) (auto simp: EnqueueFrame_cases)
  qed
qed

section \<open>Properties\<close>

text \<open>
  Under \<^verbatim>\<open>drop_oldest\<close>, a burst of frames that nobody reads meanwhile is always accepted, and
  the queue afterwards holds exactly the most recent frames, as many as its capacity, in
  order.
\<close>

theorem drop_oldest_keeps_latest:
  assumes "client_wf c" and "\<not> cl_closed c" and "cl_SlowPolicy c = SlowPolicyDropOldest"
  shows "cl_queue (fst (enqueue_run c fs)) =
      drop (length (cl_queue c @ fs) - cl_capacity c) (cl_queue c @ fs)
    \<and> snd (enqueue_run c fs) = replicate (length fs) True"
  using assms by (rule enqueue_run_drop_oldest)

theorem drop_oldest_keeps_latest_witness:
  "cl_queue (fst (enqueue_run (NewClient ''c'' ''u'' ''t'' [] 2 SlowPolicyDropOldest True)
      [\<lparr>Data = ''1''\<rparr>, \<lparr>Data = ''2''\<rparr>, \<lparr>Data = ''3''\<rparr>])) = [\<lparr>Data = ''2''\<rparr>, \<lparr>Data = ''3''\<rparr>]"
proof -
  let ?c = "NewClient ''c'' ''u'' ''t'' [] 2 SlowPolicyDropOldest True"
  have c: "client_wf ?c" by (rule NewClient_wf)
  have "\<not> cl_closed ?c" "cl_SlowPolicy ?c = SlowPolicyDropOldest"
    by (simp_all add: NewClient_def SlowPolicyDropOldest_def)
  from drop_oldest_keeps_latest [OF c this, of "[\<lparr>Data = ''1''\<rparr>, \<lparr>Data = ''2''\<rparr>, \<lparr>Data = ''3''\<rparr>]"]
  show ?thesis by (simp add: NewClient_def make_chan_def)
qed

text \<open>
  Under \<^verbatim>\<open>drop_newest\<close>, a burst keeps what was queued and appends its first frames while there
  is room; the rest is refused and the connection stays open.
\<close>

theorem drop_newest_keeps_oldest:
  assumes "client_wf c" and "\<not> cl_closed c" and "cl_SlowPolicy c = SlowPolicyDropNewest"
  shows "cl_queue (fst (enqueue_run c fs)) = cl_queue c @ take (cl_capacity c - length (cl_queue c)) fs
    \<and> \<not> cl_closed (fst (enqueue_run c fs))"
proof -
  have ok: "newest_ok c" using assms by (simp add: newest_ok_def)
  show ?thesis
    using newest.offer_all_items [OF ok, of fs] newest.ok_offer_all [OF ok, of fs]
    by (simp add: enqueue_run_offer_all newest_ok_def)
qed

theorem drop_newest_keeps_oldest_witness:
  "cl_queue (fst (enqueue_run (NewClient ''c'' ''u'' ''t'' [] 2 SlowPolicyDropNewest True)
      [\<lparr>Data = ''1''\<rparr>, \<lparr>Data = ''2''\<rparr>, \<lparr>Data = ''3''\<rparr>])) = [\<lparr>Data = ''1''\<rparr>, \<lparr>Data = ''2''\<rparr>]"
proof -
  let ?c = "NewClient ''c'' ''u'' ''t'' [] 2 SlowPolicyDropNewest True"
  have c: "client_wf ?c" by (rule NewClient_wf)
  have "\<not> cl_closed ?c" "cl_SlowPolicy ?c = SlowPolicyDropNewest"
    by (simp_all add: NewClient_def SlowPolicyDropNewest_def)
  from drop_newest_keeps_oldest [OF c this, of "[\<lparr>Data = ''1''\<rparr>, \<lparr>Data = ''2''\<rparr>, \<lparr>Data = ''3''\<rparr>]"]
  show ?thesis by (simp add: NewClient_def make_chan_def)
qed

text \<open>
  Under \<^verbatim>\<open>disconnect\<close> (and any unknown policy), a burst that fits is queued and leaves the
  client open; the first frame that does not fit closes the client, and the frames queued
  before it are still there for the stream handler.
\<close>

theorem disconnect_on_overflow:
  assumes "client_wf c" and "\<not> cl_closed c"
    and "cl_SlowPolicy c \<noteq> SlowPolicyDropOldest" and "cl_SlowPolicy c \<noteq> SlowPolicyDropNewest"
  shows "cl_queue (fst (enqueue_run c fs)) = cl_queue c @ take (cl_capacity c - length (cl_queue c)) fs
    \<and> (cl_closed (fst (enqueue_run c fs)) \<longleftrightarrow> cl_capacity c < length (cl_queue c) + length fs)"
  using assms by (rule enqueue_run_disconnect)

theorem disconnect_on_overflow_witness:
  "cl_closed (fst (enqueue_run (NewClient ''c'' ''u'' ''t'' [] 1 ''bogus'' True)
      [\<lparr>Data = ''1''\<rparr>, \<lparr>Data = ''2''\<rparr>]))"
proof -
  let ?c = "NewClient ''c'' ''u'' ''t'' [] 1 ''bogus'' True"
  have c: "client_wf ?c" by (rule NewClient_wf)
  have "\<not> cl_closed ?c" "cl_SlowPolicy ?c \<noteq> SlowPolicyDropOldest" "cl_SlowPolicy ?c \<noteq> SlowPolicyDropNewest"
    by (simp_all add: NewClient_def SlowPolicyDropOldest_def SlowPolicyDropNewest_def)
  from disconnect_on_overflow [OF c this, of "[\<lparr>Data = ''1''\<rparr>, \<lparr>Data = ''2''\<rparr>]"]
  show ?thesis by (simp add: NewClient_def make_chan_def)
qed

end
