(* ===== verification/Shard.thy ===== *)
theory Shard
  imports Client
begin

text \<open>
  \<^verbatim>\<open>internal/hub/shard.go\<close>: one partition of the hub. A client pointer is a \<open>ref\<close> into the
  hub's heap of client objects. \<open>Shard_Register\<close> takes the identifier and the pointer of the
  client, the two things the code reads of it. Every method runs under the shard's lock,
  so a call is one atomic step.

  The locale \<open>subscription_index\<close> is the contract that the hub's users see: an index from
  routing keys to the identifiers and pointers of their subscribers. It is provided by a
  single shard here and by the sharded hub in the theory \<open>Hub\<close>.
\<close>

section \<open>Definitions\<close>

type_synonym ref = nat
type_synonym heap = "ref \<Rightarrow> client"
type_synonym client_order = "(string \<times> ref) list \<Rightarrow> (string \<times> ref) list"

record shard =
  sh_topics :: "(string, (string, ref) gomap) gomap"
  sh_clients :: "(string, ref) gomap"

definition NewShard :: shard where
  "NewShard = \<lparr>sh_topics = [], sh_clients = []\<rparr>"

definition Shard_Register :: "shard \<Rightarrow> string \<Rightarrow> string \<Rightarrow> ref \<Rightarrow> shard" where
  "Shard_Register s routingKey clientID client =
     (let clientMap = (case map_of (sh_topics s) routingKey of None \<Rightarrow> [] | Some m \<Rightarrow> m)
      in s\<lparr>sh_topics := AList.update routingKey (AList.update clientID client clientMap) (sh_topics s),
           sh_clients := AList.update clientID client (sh_clients s)\<rparr>)"

definition Shard_Unregister :: "shard \<Rightarrow> string \<Rightarrow> string \<Rightarrow> shard" where
  "Shard_Unregister s routingKey clientID =
     s\<lparr>sh_topics :=
         (case map_of (sh_topics s) routingKey of
            None \<Rightarrow> sh_topics s
          | Some clientMap \<Rightarrow>
              let clientMap' = AList.delete clientID clientMap
              in if clientMap' = [] then AList.delete routingKey (sh_topics s)
                 else AList.update routingKey clientMap' (sh_topics s)),
       sh_clients := AList.delete clientID (sh_clients s)\<rparr>"

definition Shard_HasSubscribers :: "shard \<Rightarrow> string \<Rightarrow> bool" where
  "Shard_HasSubscribers s routingKey =
     (case map_of (sh_topics s) routingKey of None \<Rightarrow> False | Some clientMap \<Rightarrow> clientMap \<noteq> [])"

definition GetRecipients :: "client_order \<Rightarrow> shard \<Rightarrow> string \<Rightarrow> ref list" where
  "GetRecipients ord s routingKey =
     (case map_of (sh_topics s) routingKey of
        None \<Rightarrow> []
      | Some clientMap \<Rightarrow> if clientMap = [] then [] else map snd (ord clientMap))"

definition GetAllClients :: "client_order \<Rightarrow> shard \<Rightarrow> ref list" where
  "GetAllClients ord s = map snd (ord (sh_clients s))"

text \<open>The inner loop of \<^verbatim>\<open>InvalidateUser\<close> over the topics, for one matched client.\<close>

definition purge_client :: "string \<Rightarrow> (string, (string, ref) gomap) gomap \<Rightarrow> (string, (string, ref) gomap) gomap" where
  "purge_client clientID topics =
     filter (\<lambda>(_, clientMap). clientMap \<noteq> [])
       (map (\<lambda>(rKey, clientMap). (rKey, AList.delete clientID clientMap)) topics)"

definition user_matches :: "heap \<Rightarrow> string \<Rightarrow> string \<Rightarrow> ref \<Rightarrow> bool" where
  "user_matches hp tenantID userID c \<longleftrightarrow> cl_TenantID (hp c) = tenantID \<and> cl_UserID (hp c) = userID"

definition Shard_InvalidateUser ::
  "client_order \<Rightarrow> heap \<Rightarrow> shard \<Rightarrow> string \<Rightarrow> string \<Rightarrow> shard \<times> ref list" where
  "Shard_InvalidateUser ord hp s tenantID userID =
     (let matched = map snd (filter (\<lambda>(_, c). user_matches hp tenantID userID c) (ord (sh_clients s)))
      in (s\<lparr>sh_clients := filter (\<lambda>(_, c). \<not> user_matches hp tenantID userID c) (sh_clients s),
            sh_topics := fold (\<lambda>c. purge_client (cl_ID (hp c))) matched (sh_topics s)\<rparr>,
          matched))"

subsection \<open>Abstraction and invariants\<close>

definition shard_subs :: "shard \<Rightarrow> string \<Rightarrow> (string \<rightharpoonup> ref)" where
  "shard_subs s key = (case map_of (sh_topics s) key of None \<Rightarrow> Map.empty | Some m \<Rightarrow> map_of m)"

definition shard_wf :: "shard \<Rightarrow> bool" where
  "shard_wf s \<longleftrightarrow> gomap_wf (sh_topics s) \<and> gomap_wf (sh_clients s) \<and>
     (\<forall>key m. map_of (sh_topics s) key = Some m \<longrightarrow> gomap_wf m \<and> m \<noteq> [])"

text \<open>Pointers are filed under the identifier of the client they point to.\<close>

definition ids_ok :: "heap \<Rightarrow> shard \<Rightarrow> bool" where
  "ids_ok hp s \<longleftrightarrow>
     (\<forall>cid c. map_of (sh_clients s) cid = Some c \<longrightarrow> cl_ID (hp c) = cid) \<and>
     (\<forall>key cid c. shard_subs s key cid = Some c \<longrightarrow> cl_ID (hp c) = cid)"

text \<open>The two maps of a shard agree on who is there.\<close>

definition shard_sync :: "shard \<Rightarrow> bool" where
  "shard_sync s \<longleftrightarrow>
     (\<forall>cid c. map_of (sh_clients s) cid = Some c \<longleftrightarrow> (\<exists>key. shard_subs s key cid = Some c))"

subsection \<open>Registering under several keys\<close>

definition reg_all :: "('s \<Rightarrow> string \<Rightarrow> string \<Rightarrow> ref \<Rightarrow> 's) \<Rightarrow> 's \<Rightarrow> string list \<Rightarrow> string \<Rightarrow> ref \<Rightarrow> 's" where
  "reg_all reg s keys cid c = foldl (\<lambda>s key. reg s key cid c) s keys"

definition unreg_all :: "('s \<Rightarrow> string \<Rightarrow> string \<Rightarrow> 's) \<Rightarrow> 's \<Rightarrow> string list \<Rightarrow> string \<Rightarrow> 's" where
  "unreg_all unreg s keys cid = foldl (\<lambda>s key. unreg s key cid) s keys"

lemma reg_all_simps [simp]:
  "reg_all reg s [] cid c = s" "reg_all reg s (k # ks) cid c = reg_all reg (reg s k cid c) ks cid c"
  by (simp_all add: reg_all_def)

lemma unreg_all_simps [simp]:
  "unreg_all unreg s [] cid = s" "unreg_all unreg s (k # ks) cid = unreg_all unreg (unreg s k cid) ks cid"
  by (simp_all add: unreg_all_def)

section \<open>The subscription index contract\<close>

locale subscription_index =
  fixes inv :: "'s \<Rightarrow> bool"
    and subs :: "'s \<Rightarrow> string \<Rightarrow> (string \<rightharpoonup> ref)"
    and reg :: "'s \<Rightarrow> string \<Rightarrow> string \<Rightarrow> ref \<Rightarrow> 's"
    and unreg :: "'s \<Rightarrow> string \<Rightarrow> string \<Rightarrow> 's"
    and has :: "'s \<Rightarrow> string \<Rightarrow> bool"
    and recipients :: "client_order \<Rightarrow> 's \<Rightarrow> string \<Rightarrow> ref list"
  assumes inv_reg: "inv s \<Longrightarrow> inv (reg s k cid c)"
    and inv_unreg: "inv s \<Longrightarrow> inv (unreg s k cid)"
    and subs_reg: "inv s \<Longrightarrow> subs (reg s k cid c) = (subs s)(k := (subs s k)(cid \<mapsto> c))"
    and subs_unreg: "inv s \<Longrightarrow> subs (unreg s k cid) = (subs s)(k := (subs s k)(cid := None))"
    and has_iff: "inv s \<Longrightarrow> has s k \<longleftrightarrow> subs s k \<noteq> Map.empty"
    and recipients_ran: "inv s \<Longrightarrow> range_order ord \<Longrightarrow> set (recipients ord s k) = ran (subs s k)"
begin

lemma inv_reg_all: "inv s \<Longrightarrow> inv (reg_all reg s ks cid c)"
  by (induction ks arbitrary: s) (auto simp: inv_reg)

lemma inv_unreg_all: "inv s \<Longrightarrow> inv (unreg_all unreg s ks cid)"
  by (induction ks arbitrary: s) (auto simp: inv_unreg)

lemma subs_reg_all:
  "inv s \<Longrightarrow> subs (reg_all reg s ks cid c) k = (if k \<in> set ks then (subs s k)(cid \<mapsto> c) else subs s k)"
  by (induction ks arbitrary: s) (auto simp: inv_reg subs_reg)

lemma subs_unreg_all:
  "inv s \<Longrightarrow> subs (unreg_all unreg s ks cid) k = (if k \<in> set ks then (subs s k)(cid := None) else subs s k)"
  by (induction ks arbitrary: s) (auto simp: inv_unreg subs_unreg)

lemma reg_all_has: "inv s \<Longrightarrow> k \<in> set ks \<Longrightarrow> has (reg_all reg s ks cid c) k"
  by (simp add: has_iff inv_reg_all subs_reg_all)

text \<open>A client that was not subscribed leaves no trace when it comes and goes.\<close>

lemma unreg_reg_all:
  assumes "inv s" and "\<And>k. subs s k cid = None"
  shows "subs (unreg_all unreg (reg_all reg s ks cid c) ks cid) = subs s"
  using assms by (auto simp: fun_eq_iff subs_unreg_all inv_reg_all subs_reg_all)

lemma recipients_after_unreg_all:
  assumes "inv s" and "range_order ord" and "k \<in> set ks"
    and "\<And>cid'. subs s k cid' = Some c \<Longrightarrow> cid' = cid"
  shows "c \<notin> set (recipients ord (unreg_all unreg s ks cid) k)"
  using assms by (auto simp: recipients_ran inv_unreg_all subs_unreg_all ran_def split: if_splits)

end

section \<open>Lemmas\<close>

lemma shard_wf_New [simp, wf_intros]: "shard_wf NewShard"
  by (simp add: shard_wf_def NewShard_def)

lemma shard_subs_New [simp]: "shard_subs NewShard = (\<lambda>_. Map.empty)"
  by (simp add: shard_subs_def NewShard_def fun_eq_iff)

lemma shard_wf_topic: "shard_wf s \<Longrightarrow> map_of (sh_topics s) k = Some m \<Longrightarrow> gomap_wf m \<and> m \<noteq> []"
  by (simp add: shard_wf_def)

lemma AList_update_nonempty [simp]: "AList.update k v m \<noteq> []"
  by (cases m) auto

lemma Shard_Register_wf [wf_intros]: "shard_wf s \<Longrightarrow> shard_wf (Shard_Register s k cid c)"
  by (auto simp: shard_wf_def Shard_Register_def Let_def split: option.split if_splits)

lemma Shard_Unregister_wf [wf_intros]: "shard_wf s \<Longrightarrow> shard_wf (Shard_Unregister s k cid)"
  by (auto simp: shard_wf_def Shard_Unregister_def Let_def split: option.split if_splits)

lemma Shard_Register_subs:
  "shard_subs (Shard_Register s k cid c) = (shard_subs s)(k := (shard_subs s k)(cid \<mapsto> c))"
  by (auto simp: shard_subs_def Shard_Register_def Let_def fun_eq_iff split: option.split)

lemma Shard_Unregister_subs:
  "shard_subs (Shard_Unregister s k cid) = (shard_subs s)(k := (shard_subs s k)(cid := None))"
proof (cases "map_of (sh_topics s) k")
  case None
  then show ?thesis by (auto simp: shard_subs_def Shard_Unregister_def fun_eq_iff)
next
  case (Some m)
  have "AList.delete cid m = [] \<Longrightarrow> (map_of m)(cid := None) = Map.empty"
    by (metis gomap_lookup_delete map_of.simps(1))
  with Some show ?thesis
    by (auto simp: shard_subs_def Shard_Unregister_def Let_def fun_eq_iff)
qed

lemma Shard_clients [simp]:
  "map_of (sh_clients (Shard_Register s k cid c)) = (map_of (sh_clients s))(cid \<mapsto> c)"
  "map_of (sh_clients (Shard_Unregister s k cid)) = (map_of (sh_clients s))(cid := None)"
  by (simp_all add: Shard_Register_def Shard_Unregister_def Let_def)

lemma Shard_HasSubscribers_iff:
  "shard_wf s \<Longrightarrow> Shard_HasSubscribers s k \<longleftrightarrow> shard_subs s k \<noteq> Map.empty"
proof (cases "map_of (sh_topics s) k")
  case (Some m)
  then show ?thesis by (simp add: Shard_HasSubscribers_def shard_subs_def)
qed (simp add: Shard_HasSubscribers_def shard_subs_def)

lemma GetRecipients_set:
  assumes "shard_wf s" and "range_order ord"
  shows "set (GetRecipients ord s k) = ran (shard_subs s k)"
proof (cases "map_of (sh_topics s) k")
  case None
  then show ?thesis by (simp add: GetRecipients_def shard_subs_def)
next
  case (Some m)
  with assms(1) have "distinct (map fst m)" by (auto simp: gomap_wf_def dest: shard_wf_topic)
  with Some assms(2) show ?thesis
    by (simp add: GetRecipients_def shard_subs_def range_order_set ran_distinct)
qed

lemma GetRecipients_empty_iff:
  assumes "shard_wf s" and "range_order ord"
  shows "GetRecipients ord s k = [] \<longleftrightarrow> \<not> Shard_HasSubscribers s k"
proof -
  have "GetRecipients ord s k = [] \<longleftrightarrow> ran (shard_subs s k) = {}"
    using GetRecipients_set [OF assms, of k] by (metis set_empty)
  moreover have "ran m = {} \<longleftrightarrow> m = Map.empty" for m :: "string \<rightharpoonup> ref"
    by (auto simp: ran_def fun_eq_iff) (metis not_Some_eq)
  ultimately show ?thesis using assms(1) by (simp add: Shard_HasSubscribers_iff)
qed

lemma map_snd_distinct:
  assumes "gomap_wf m" and "\<And>cid c. map_of m cid = Some c \<Longrightarrow> cl_ID (hp c) = cid"
  shows "distinct (map snd m)"
proof -
  have "map (cl_ID \<circ> hp) (map snd m) = map fst m"
    using assms by (auto simp: gomap_mem_iff)
  then have "distinct (map (cl_ID \<circ> hp) (map snd m))"
    using assms(1) by (simp only: gomap_wf_def)
  then show ?thesis by (metis distinct_map)
qed

lemma GetRecipients_distinct:
  assumes "shard_wf s" and "ids_ok hp s" and "range_order ord"
  shows "distinct (GetRecipients ord s k)"
proof (cases "map_of (sh_topics s) k")
  case None
  then show ?thesis by (simp add: GetRecipients_def)
next
  case (Some m)
  have "shard_subs s k = map_of m" using Some by (simp add: shard_subs_def)
  then have "cl_ID (hp c) = cid" if "map_of m cid = Some c" for cid c
    using assms(2) that unfolding ids_ok_def by metis
  then have "distinct (map snd m)"
    using assms(1) Some by (intro map_snd_distinct) (auto dest: shard_wf_topic)
  with Some assms(3) show ?thesis
    by (simp add: GetRecipients_def range_order_map_distinct)
qed

lemma GetAllClients_set:
  "shard_wf s \<Longrightarrow> range_order ord \<Longrightarrow> set (GetAllClients ord s) = ran (map_of (sh_clients s))"
  by (simp add: GetAllClients_def range_order_set ran_distinct shard_wf_def gomap_wf_def)

lemma GetAllClients_distinct:
  assumes "shard_wf s" and "ids_ok hp s" and "range_order ord"
  shows "distinct (GetAllClients ord s)"
proof -
  have "distinct (map snd (sh_clients s))"
    using assms by (intro map_snd_distinct) (auto simp: shard_wf_def ids_ok_def)
  with assms(3) show ?thesis by (simp add: GetAllClients_def range_order_map_distinct)
qed

interpretation shardidx: subscription_index shard_wf shard_subs Shard_Register Shard_Unregister
  Shard_HasSubscribers GetRecipients
  by unfold_locales
    (simp_all add: Shard_Register_wf Shard_Unregister_wf Shard_Register_subs Shard_Unregister_subs
      Shard_HasSubscribers_iff GetRecipients_set)

subsection \<open>Invalidation\<close>

lemma map_of_purge:
  "gomap_wf ts \<Longrightarrow> map_of (purge_client cid ts) k =
     (case map_of ts k of None \<Rightarrow> None
      | Some m \<Rightarrow> if AList.delete cid m = [] then None else Some (AList.delete cid m))"
proof (induction ts)
  case Nil
  then show ?case by (simp add: purge_client_def)
next
  case (Cons t ts)
  obtain key m where t: "t = (key, m)" by fastforce
  have fresh: "map_of ts key = None" and wf: "gomap_wf ts"
    using Cons.prems by (auto simp: gomap_wf_def t map_of_eq_None_iff)
  have "purge_client cid (t # ts) =
    (if AList.delete cid m = [] then purge_client cid ts
     else (key, AList.delete cid m) # purge_client cid ts)"
    by (simp add: purge_client_def t)
  then show ?case using Cons.IH [OF wf] fresh by (auto simp: t)
qed

lemma purge_wf: "gomap_wf ts \<Longrightarrow> gomap_wf (purge_client cid ts)"
  by (auto simp: purge_client_def gomap_wf_def comp_def case_prod_unfold intro!: distinct_map_filter)

definition topics_ok :: "(string, (string, ref) gomap) gomap \<Rightarrow> bool" where
  "topics_ok ts \<longleftrightarrow> gomap_wf ts \<and> (\<forall>key m. map_of ts key = Some m \<longrightarrow> gomap_wf m \<and> m \<noteq> [])"

definition topics_subs :: "(string, (string, ref) gomap) gomap \<Rightarrow> string \<Rightarrow> (string \<rightharpoonup> ref)" where
  "topics_subs ts key = (case map_of ts key of None \<Rightarrow> Map.empty | Some m \<Rightarrow> map_of m)"

lemma shard_subs_topics: "shard_subs s = topics_subs (sh_topics s)"
  by (simp add: shard_subs_def topics_subs_def fun_eq_iff)

lemma shard_wf_topics: "shard_wf s \<longleftrightarrow> topics_ok (sh_topics s) \<and> gomap_wf (sh_clients s)"
  by (auto simp: shard_wf_def topics_ok_def)

lemma purge_topics_ok: "topics_ok ts \<Longrightarrow> topics_ok (purge_client cid ts)"
  by (auto simp: topics_ok_def purge_wf map_of_purge split: option.splits if_splits)

lemma purge_subs:
  assumes "topics_ok ts"
  shows "topics_subs (purge_client cid ts) k = (topics_subs ts k)(cid := None)"
proof (cases "map_of ts k")
  case None
  with assms show ?thesis by (simp add: topics_subs_def topics_ok_def map_of_purge)
next
  case (Some m)
  have "AList.delete cid m = [] \<Longrightarrow> (map_of m)(cid := None) = Map.empty"
    by (metis gomap_lookup_delete map_of.simps(1))
  with Some assms show ?thesis by (simp add: topics_subs_def topics_ok_def map_of_purge)
qed

lemma fold_purge:
  "topics_ok ts \<Longrightarrow> topics_ok (fold (\<lambda>c. purge_client (f c)) cs ts) \<and>
   topics_subs (fold (\<lambda>c. purge_client (f c)) cs ts) k = topics_subs ts k |` (- f ` set cs)"
proof (induction cs arbitrary: ts)
  case Nil
  then show ?case by simp
next
  case (Cons c cs)
  then show ?case
    by (auto simp: purge_topics_ok purge_subs restrict_map_def fun_eq_iff)
qed

lemma gomap_wf_filter: "gomap_wf m \<Longrightarrow> gomap_wf (filter P m)"
  by (simp add: gomap_wf_def distinct_map_filter)

lemma Invalidate_matched_set:
  assumes "shard_wf s" and "range_order ord"
  shows "set (snd (Shard_InvalidateUser ord hp s t u)) =
    {c \<in> ran (map_of (sh_clients s)). user_matches hp t u c}"
proof -
  have "ran (map_of (sh_clients s)) = snd ` set (sh_clients s)"
    using assms(1) by (simp add: ran_distinct shard_wf_def gomap_wf_def)
  then show ?thesis
    using assms(2) by (auto simp: Shard_InvalidateUser_def Let_def range_order_set image_iff)
qed

lemma Invalidate_matched_distinct:
  assumes "shard_wf s" and "ids_ok hp s" and "range_order ord"
  shows "distinct (snd (Shard_InvalidateUser ord hp s t u))"
  using GetAllClients_distinct [OF assms]
  by (simp add: Shard_InvalidateUser_def Let_def GetAllClients_def distinct_map_filter)

lemma Invalidate_clients:
  assumes "shard_wf s"
  shows "map_of (sh_clients (fst (Shard_InvalidateUser ord hp s t u))) cid =
    (case map_of (sh_clients s) cid of None \<Rightarrow> None
     | Some c \<Rightarrow> if user_matches hp t u c then None else Some c)"
  using assms map_of_filter_snd [of "sh_clients s" "\<lambda>c. \<not> user_matches hp t u c"]
  by (auto simp: Shard_InvalidateUser_def Let_def shard_wf_def split: option.split)

lemma Invalidate_wf [wf_intros]:
  assumes "shard_wf s"
  shows "shard_wf (fst (Shard_InvalidateUser ord hp s t u))"
  using assms by (simp add: shard_wf_topics Shard_InvalidateUser_def Let_def fold_purge gomap_wf_filter)

text \<open>
  On a shard whose two maps agree, invalidation removes exactly the subscriptions of the
  user's clients.
\<close>

lemma Invalidate_subs:
  assumes wf: "shard_wf s" and ids: "ids_ok hp s" and sync: "shard_sync s" and ord: "range_order ord"
  shows "shard_subs (fst (Shard_InvalidateUser ord hp s t u)) k cid =
    (case shard_subs s k cid of None \<Rightarrow> None
     | Some c \<Rightarrow> if user_matches hp t u c then None else Some c)"
proof -
  let ?M = "snd (Shard_InvalidateUser ord hp s t u)"
  have "shard_subs (fst (Shard_InvalidateUser ord hp s t u)) k = shard_subs s k |` (- (\<lambda>c. cl_ID (hp c)) ` set ?M)"
    using wf fold_purge [of "sh_topics s" "\<lambda>c. cl_ID (hp c)"]
    by (simp add: shard_subs_topics shard_wf_topics Shard_InvalidateUser_def Let_def)
  moreover have "cid \<in> (\<lambda>c. cl_ID (hp c)) ` set ?M \<longleftrightarrow> user_matches hp t u c"
    if sub: "shard_subs s k cid = Some c" for c
  proof -
    have there: "map_of (sh_clients s) cid = Some c" using sync sub by (auto simp: shard_sync_def)
    have same: "c' = c" if "map_of (sh_clients s) cid' = Some c'" "cl_ID (hp c') = cid" for cid' c'
      using that there ids by (auto simp: ids_ok_def)
    have cid: "cl_ID (hp c) = cid" using there ids by (simp add: ids_ok_def)
    have M: "c' \<in> set ?M \<longleftrightarrow> (\<exists>cid'. map_of (sh_clients s) cid' = Some c') \<and> user_matches hp t u c'" for c'
      by (simp add: Invalidate_matched_set [OF wf ord] ran_def)
    show ?thesis
    proof
      assume "cid \<in> (\<lambda>c. cl_ID (hp c)) ` set ?M"
      then obtain c' where "c' \<in> set ?M" "cl_ID (hp c') = cid" by blast
      with M same show "user_matches hp t u c" by blast
    next
      assume "user_matches hp t u c"
      with M there cid show "cid \<in> (\<lambda>c. cl_ID (hp c)) ` set ?M" by blast
    qed
  qed
  ultimately show ?thesis by (auto simp: restrict_map_def split: option.split)
qed

lemma kept_iff:
  "(case x of None \<Rightarrow> None | Some c \<Rightarrow> if P c then None else Some c) = Some d \<longleftrightarrow> x = Some d \<and> \<not> P d"
  by (auto split: option.splits)

lemma Invalidate_ids:
  assumes "shard_wf s" and "ids_ok hp s" and "shard_sync s" and "range_order ord"
  shows "ids_ok hp (fst (Shard_InvalidateUser ord hp s t u))"
  using assms(2) unfolding ids_ok_def
  by (auto simp: Invalidate_subs [OF assms] Invalidate_clients [OF assms(1)] split: option.splits if_splits)

lemma Invalidate_sync:
  assumes "shard_wf s" and "ids_ok hp s" and "shard_sync s" and "range_order ord"
  shows "shard_sync (fst (Shard_InvalidateUser ord hp s t u))"
  using assms(3) unfolding shard_sync_def Invalidate_subs [OF assms] Invalidate_clients [OF assms(1)] kept_iff
  by blast

subsection \<open>Invariants along registration\<close>

lemma ids_ok_New [simp]: "ids_ok hp NewShard"
  by (simp add: ids_ok_def) (simp add: NewShard_def)

lemma shard_sync_New [simp]: "shard_sync NewShard"
  by (simp add: shard_sync_def) (simp add: NewShard_def)

lemma Shard_Register_ids:
  "ids_ok hp s \<Longrightarrow> cl_ID (hp c) = cid \<Longrightarrow> ids_ok hp (Shard_Register s k cid c)"
  by (auto simp: ids_ok_def Shard_Register_subs split: if_splits)

lemma Shard_Unregister_ids: "ids_ok hp s \<Longrightarrow> ids_ok hp (Shard_Unregister s k cid)"
  by (auto simp: ids_ok_def Shard_Unregister_subs split: if_splits)

lemma Shard_Register_sync:
  assumes "shard_sync s" and "\<And>c'. map_of (sh_clients s) cid = Some c' \<Longrightarrow> c' = c"
  shows "shard_sync (Shard_Register s k cid c)"
  unfolding shard_sync_def
proof (intro allI)
  fix cid' c'
  have old: "map_of (sh_clients s) cid' = Some c' \<longleftrightarrow> (\<exists>key. shard_subs s key cid' = Some c')"
    using assms(1) by (simp add: shard_sync_def)
  show "map_of (sh_clients (Shard_Register s k cid c)) cid' = Some c' \<longleftrightarrow>
    (\<exists>key. shard_subs (Shard_Register s k cid c) key cid' = Some c')"
  proof (cases "cid' = cid")
    case True
    with old assms(2) show ?thesis by (auto simp: Shard_Register_subs)
  next
    case False
    with old show ?thesis by (auto simp: Shard_Register_subs)
  qed
qed

end
