(* ===== verification/Quota.thy ===== *)
theory Quota
  imports Gateway_Prelude
begin

text \<open>
  \<^verbatim>\<open>internal/hub/quota.go\<close>: the quota tracker, and the error values of the hub package.

  Every method of \<^verbatim>\<open>QuotaTracker\<close> runs under one mutex, so a concurrent execution is a
  sequence of whole calls in some order; \<open>ledger_run\<close> runs such a sequence.

  The abstract state is the multiset of open sessions, pairs of tenant and user
  (\<open>quota_rep\<close>). The locale \<open>session_ledger\<close> is the contract the hub relies on: a granted
  acquire adds its session, a release of an open session removes it, and no grant takes
  the open sessions past the limits. Counters are mathematical integers: \<open>2 ^ 63\<close> open
  connections are out of reach.
\<close>

section \<open>Definitions\<close>

record limits_config =
  MaxConnections :: int
  MaxConnectionsPerUser :: int
  MaxConnectionsPerTenant :: int
  MaxTopicsPerConnection :: int

text \<open>Errors of the package; the arguments are the limits the messages print.\<close>

datatype hub_error =
    ErrMaxTopicsExceeded
  | ErrHubClosed
  | ErrMaxConnectionsReached int
  | ErrMaxConnectionsPerUserReached int
  | ErrMaxConnectionsPerTenantReached int

record quota_tracker =
  q_activeConns :: int
  q_userCounts :: "(string, int) gomap"
  q_tenantCounts :: "(string, int) gomap"
  q_limits :: limits_config

definition NewQuotaTracker :: "limits_config \<Rightarrow> quota_tracker" where
  "NewQuotaTracker limits =
     \<lparr>q_activeConns = 0, q_userCounts = [], q_tenantCounts = [], q_limits = limits\<rparr>"

definition userKey :: "string \<Rightarrow> string \<Rightarrow> string" where
  "userKey tenantID userID = tenantID @ '':'' @ userID"

definition checkUnderLock :: "quota_tracker \<Rightarrow> string \<Rightarrow> string \<Rightarrow> hub_error option" where
  "checkUnderLock q tenantID userID =
     (let l = q_limits q
      in if MaxConnections l > 0 \<and> q_activeConns q \<ge> MaxConnections l
         then Some (ErrMaxConnectionsReached (MaxConnections l))
         else if MaxConnectionsPerUser l > 0 \<and> userID \<noteq> [] \<and>
                 gomap_count (q_userCounts q) (userKey tenantID userID) \<ge> MaxConnectionsPerUser l
         then Some (ErrMaxConnectionsPerUserReached (MaxConnectionsPerUser l))
         else if MaxConnectionsPerTenant l > 0 \<and> tenantID \<noteq> [] \<and>
                 gomap_count (q_tenantCounts q) tenantID \<ge> MaxConnectionsPerTenant l
         then Some (ErrMaxConnectionsPerTenantReached (MaxConnectionsPerTenant l))
         else None)"

definition Check :: "quota_tracker \<Rightarrow> string \<Rightarrow> string \<Rightarrow> hub_error option" where
  "Check q tenantID userID = checkUnderLock q tenantID userID"

text \<open>\<^verbatim>\<open>m[k]++\<close> and the guarded decrement that deletes an entry reaching zero.\<close>

definition incr_count :: "(string, int) gomap \<Rightarrow> string \<Rightarrow> (string, int) gomap" where
  "incr_count m k = AList.update k (gomap_count m k + 1) m"

definition decr_count :: "(string, int) gomap \<Rightarrow> string \<Rightarrow> (string, int) gomap" where
  "decr_count m k =
     (if gomap_count m k > 0 then
        (let m' = AList.update k (gomap_count m k - 1) m
         in if gomap_count m' k = 0 then AList.delete k m' else m')
      else m)"

definition Acquire :: "quota_tracker \<Rightarrow> string \<Rightarrow> string \<Rightarrow> hub_error + quota_tracker" where
  "Acquire q tenantID userID =
     (case checkUnderLock q tenantID userID of
        Some err \<Rightarrow> Inl err
      | None \<Rightarrow> Inr (q\<lparr>q_activeConns := q_activeConns q + 1,
                      q_userCounts := incr_count (q_userCounts q) (userKey tenantID userID),
                      q_tenantCounts := (if tenantID \<noteq> [] then incr_count (q_tenantCounts q) tenantID
                                         else q_tenantCounts q)\<rparr>))"

definition Release :: "quota_tracker \<Rightarrow> string \<Rightarrow> string \<Rightarrow> quota_tracker" where
  "Release q tenantID userID =
     q\<lparr>q_activeConns := (if q_activeConns q > 0 then q_activeConns q - 1 else q_activeConns q),
       q_userCounts := decr_count (q_userCounts q) (userKey tenantID userID),
       q_tenantCounts := (if tenantID \<noteq> [] \<and> gomap_count (q_tenantCounts q) tenantID > 0
                          then decr_count (q_tenantCounts q) tenantID
                          else q_tenantCounts q)\<rparr>"

definition ActiveCount :: "quota_tracker \<Rightarrow> int" where
  "ActiveCount q = q_activeConns q"

subsection \<open>The abstract ledger\<close>

type_synonym session = "string \<times> string"

definition counts_match :: "(string, int) gomap \<Rightarrow> (session \<Rightarrow> bool) \<Rightarrow> (session \<Rightarrow> string) \<Rightarrow> session multiset \<Rightarrow> bool" where
  "counts_match m P key M \<longleftrightarrow>
     gomap_wf m \<and> (\<forall>k n. map_of m k = Some n \<longrightarrow> n > 0) \<and>
     (\<forall>k. gomap_count m k = int (size (filter_mset (\<lambda>s. P s \<and> key s = k) M)))"

definition quota_rep :: "quota_tracker \<Rightarrow> session multiset \<Rightarrow> bool" where
  "quota_rep q M \<longleftrightarrow>
     q_activeConns q = int (size M) \<and>
     counts_match (q_userCounts q) (\<lambda>_. True) (\<lambda>(t, u). userKey t u) M \<and>
     counts_match (q_tenantCounts q) (\<lambda>(t, _). t \<noteq> []) fst M"

text \<open>What the limits promise of the open sessions.\<close>

definition within_limits :: "limits_config \<Rightarrow> session multiset \<Rightarrow> bool" where
  "within_limits l M \<longleftrightarrow>
     (MaxConnections l > 0 \<longrightarrow> int (size M) \<le> MaxConnections l) \<and>
     (MaxConnectionsPerUser l > 0 \<longrightarrow>
        (\<forall>k. int (size (filter_mset (\<lambda>(t, u). u \<noteq> [] \<and> userKey t u = k) M)) \<le> MaxConnectionsPerUser l)) \<and>
     (MaxConnectionsPerTenant l > 0 \<longrightarrow>
        (\<forall>k. k \<noteq> [] \<longrightarrow> int (size (filter_mset (\<lambda>(t, _). t = k) M)) \<le> MaxConnectionsPerTenant l))"

datatype quota_op = QAcquire session | QRelease session

text \<open>
  A schedule of calls: a grant opens its session, and a release happens for open sessions
  only (the hub releases a client once, see the theory of the hub).
\<close>

fun ledger_step ::
  "('q \<Rightarrow> session \<Rightarrow> 'e + 'q) \<Rightarrow> ('q \<Rightarrow> session \<Rightarrow> 'q) \<Rightarrow> 'q \<times> session multiset \<Rightarrow> quota_op \<Rightarrow>
   'q \<times> session multiset" where
  "ledger_step acq rel (q, M) (QAcquire s) =
     (case acq q s of Inl _ \<Rightarrow> (q, M) | Inr q' \<Rightarrow> (q', add_mset s M))"
| "ledger_step acq rel (q, M) (QRelease s) =
     (if s \<in># M then (rel q s, M - {#s#}) else (q, M))"

definition ledger_run ::
  "('q \<Rightarrow> session \<Rightarrow> 'e + 'q) \<Rightarrow> ('q \<Rightarrow> session \<Rightarrow> 'q) \<Rightarrow> 'q \<times> session multiset \<Rightarrow> quota_op list \<Rightarrow>
   'q \<times> session multiset" where
  "ledger_run acq rel s ops = foldl (ledger_step acq rel) s ops"

section \<open>The ledger contract\<close>

locale session_ledger =
  fixes rep :: "'q \<Rightarrow> session multiset \<Rightarrow> bool"
    and allowed :: "'q \<Rightarrow> session multiset \<Rightarrow> bool"
    and acquire :: "'q \<Rightarrow> session \<Rightarrow> 'e + 'q"
    and release :: "'q \<Rightarrow> session \<Rightarrow> 'q"
  assumes acquire_rep: "rep q M \<Longrightarrow> acquire q s = Inr q' \<Longrightarrow> rep q' (add_mset s M)"
    and release_rep: "rep q M \<Longrightarrow> s \<in># M \<Longrightarrow> rep (release q s) (M - {#s#})"
    and acquire_allowed: "rep q M \<Longrightarrow> allowed q M \<Longrightarrow> acquire q s = Inr q' \<Longrightarrow> allowed q' (add_mset s M)"
    and release_allowed: "allowed q M \<Longrightarrow> allowed (release q s) (M - {#s#})"
begin

lemma step_keeps:
  assumes "rep q M" and "allowed q M" and "ledger_step acquire release (q, M) op = (q', M')"
  shows "rep q' M' \<and> allowed q' M'"
  using assms
  by (cases op) (auto split: sum.splits if_splits
      intro: acquire_rep release_rep acquire_allowed release_allowed)

lemma run_keeps:
  "rep q M \<Longrightarrow> allowed q M \<Longrightarrow> ledger_run acquire release (q, M) ops = (q', M') \<Longrightarrow>
   rep q' M' \<and> allowed q' M'"
proof (induction ops arbitrary: q M)
  case Nil
  then show ?case by (simp add: ledger_run_def)
next
  case (Cons op ops)
  obtain q1 M1 where step: "ledger_step acquire release (q, M) op = (q1, M1)" by fastforce
  with Cons.prems(3) have "ledger_run acquire release (q1, M1) ops = (q', M')"
    by (simp add: ledger_run_def)
  with Cons.IH step_keeps [OF Cons.prems(1,2) step] show ?case by blast
qed

text \<open>A session that is opened and closed again leaves the ledger where it was.\<close>

lemma acquire_release_rep:
  "rep q M \<Longrightarrow> acquire q s = Inr q' \<Longrightarrow> rep (release q' s) M"
  using acquire_rep [of q M s q'] release_rep [of q' "add_mset s M" s] by simp

end

section \<open>Lemmas\<close>

subsection \<open>Counters\<close>

lemma counts_match_incr:
  assumes "counts_match m P key M" and "P s"
  shows "counts_match (incr_count m (key s)) P key (add_mset s M)"
  using assms unfolding counts_match_def incr_count_def by auto

lemma counts_match_skip:
  "counts_match m P key M \<Longrightarrow> \<not> P s \<Longrightarrow> counts_match m P key (add_mset s M)"
  "counts_match m P key M \<Longrightarrow> \<not> P s \<Longrightarrow> counts_match m P key (M - {#s#})"
  by (auto simp: counts_match_def)

lemma filter_size_remove:
  assumes "s \<in># M"
  shows "int (size (filter_mset P (M - {#s#}))) =
    int (size (filter_mset P M)) - (if P s then 1 else 0)"
proof -
  obtain N where "M = add_mset s N" using assms by (metis mset_add)
  then show ?thesis by simp
qed

lemma counts_match_decr:
  assumes cm: "counts_match m P key M" and s: "P s" "s \<in># M"
  shows "counts_match (decr_count m (key s)) P key (M - {#s#})"
proof -
  obtain N where M: "M = add_mset s N" using s(2) by (metis mset_add)
  have count: "gomap_count m k = int (size (filter_mset (\<lambda>s. P s \<and> key s = k) N)) + (if key s = k then 1 else 0)" for k
    using cm s(1) by (simp add: counts_match_def M)
  show ?thesis
    using cm unfolding counts_match_def decr_count_def
    by (auto simp: count M Let_def simp del: size_eq_0_iff_empty)
qed

lemma decr_incr_count:
  assumes "gomap_wf m" and "\<And>n. map_of m k = Some n \<Longrightarrow> n > 0"
  shows "decr_count (incr_count m k) k = m"
proof (cases "map_of m k")
  case None
  then have "k \<notin> fst ` set m" by (simp add: map_of_eq_None_iff)
  then have "AList.delete k (AList.update k n m) = m" for n
    by (induction m) (auto simp: AList.delete_eq)
  with None show ?thesis
    by (simp add: decr_count_def incr_count_def Let_def gomap_count_def)
next
  case (Some n)
  with assms have "n > 0" by simp
  have upd: "AList.update k b (AList.update k a m) = AList.update k b m" for a b
    by (induction m) auto
  have same: "AList.update k n m = m"
    using assms(1) Some by (induction m) (auto simp: gomap_wf_def split: if_splits)
  show ?thesis
    using Some \<open>n > 0\<close> same by (simp add: decr_count_def incr_count_def Let_def gomap_count_def upd)
qed

subsection \<open>The tracker represents the open sessions\<close>

lemma Acquire_Inr_iff:
  "Acquire q t u = Inr q' \<longleftrightarrow> Check q t u = None \<and>
     q' = q\<lparr>q_activeConns := q_activeConns q + 1,
            q_userCounts := incr_count (q_userCounts q) (userKey t u),
            q_tenantCounts := (if t \<noteq> [] then incr_count (q_tenantCounts q) t else q_tenantCounts q)\<rparr>"
  by (auto simp: Acquire_def Check_def split: option.splits)

lemma Acquire_limits [simp]: "Acquire q t u = Inr q' \<Longrightarrow> q_limits q' = q_limits q"
  by (simp add: Acquire_Inr_iff)

lemma Release_limits [simp]: "q_limits (Release q t u) = q_limits q"
  by (simp add: Release_def)

lemma NewQuotaTracker_rep [simp]: "quota_rep (NewQuotaTracker l) {#}"
  by (simp add: quota_rep_def NewQuotaTracker_def counts_match_def)

lemma Acquire_rep:
  assumes "quota_rep q M" and "Acquire q t u = Inr q'"
  shows "quota_rep q' (add_mset (t, u) M)"
proof -
  have "counts_match (incr_count (q_userCounts q) (userKey t u)) (\<lambda>_. True) (\<lambda>(t, u). userKey t u) (add_mset (t, u) M)"
    using counts_match_incr [of "q_userCounts q" "\<lambda>_. True" "\<lambda>(t, u). userKey t u" M "(t, u)"] assms(1)
    by (simp add: quota_rep_def)
  moreover have "counts_match (if t \<noteq> [] then incr_count (q_tenantCounts q) t else q_tenantCounts q)
      (\<lambda>(t, _). t \<noteq> []) fst (add_mset (t, u) M)"
    using counts_match_incr [of "q_tenantCounts q" "\<lambda>(t, _). t \<noteq> []" fst M "(t, u)"]
      counts_match_skip(1) [of "q_tenantCounts q" "\<lambda>(t, _). t \<noteq> []" fst M "(t, u)"] assms(1)
    by (simp add: quota_rep_def)
  ultimately show ?thesis
    using assms by (simp add: quota_rep_def Acquire_Inr_iff)
qed

lemma decr_count_zero: "gomap_count m k \<le> 0 \<Longrightarrow> decr_count m k = m"
  by (simp add: decr_count_def)

lemma Release_rep:
  assumes "quota_rep q M" and "(t, u) \<in># M"
  shows "quota_rep (Release q t u) (M - {#(t, u)#})"
proof -
  have "counts_match (decr_count (q_userCounts q) (userKey t u)) (\<lambda>_. True) (\<lambda>(t, u). userKey t u) (M - {#(t, u)#})"
    using counts_match_decr [of "q_userCounts q" "\<lambda>_. True" "\<lambda>(t, u). userKey t u" M "(t, u)"] assms
    by (simp add: quota_rep_def)
  moreover have "counts_match (if t \<noteq> [] \<and> gomap_count (q_tenantCounts q) t > 0
        then decr_count (q_tenantCounts q) t else q_tenantCounts q)
      (\<lambda>(t, _). t \<noteq> []) fst (M - {#(t, u)#})"
    using counts_match_decr [of "q_tenantCounts q" "\<lambda>(t, _). t \<noteq> []" fst M "(t, u)"]
      counts_match_skip(2) [of "q_tenantCounts q" "\<lambda>(t, _). t \<noteq> []" fst M "(t, u)"] assms
    by (cases "gomap_count (q_tenantCounts q) t > 0") (auto simp: quota_rep_def decr_count_zero)
  moreover have "size M > 0" using assms(2) by (metis nonempty_has_size empty_not_add_mset mset_add)
  ultimately show ?thesis
    using assms by (simp add: quota_rep_def Release_def size_Diff_singleton)
qed

subsection \<open>A grant stays within the limits\<close>

lemma quota_rep_counts:
  assumes "quota_rep q M"
  shows "q_activeConns q = int (size M)"
    and "gomap_count (q_userCounts q) k = int (size (filter_mset (\<lambda>(t, u). userKey t u = k) M))"
    and "k \<noteq> [] \<Longrightarrow> gomap_count (q_tenantCounts q) k = int (size (filter_mset (\<lambda>(t, _). t = k) M))"
proof -
  have "filter_mset (\<lambda>s. (case s of (t, _) \<Rightarrow> t \<noteq> []) \<and> fst s = k) M = filter_mset (\<lambda>(t, _). t = k) M"
    if "k \<noteq> []" using that by (intro filter_mset_cong) auto
  then show "k \<noteq> [] \<Longrightarrow> gomap_count (q_tenantCounts q) k = int (size (filter_mset (\<lambda>(t, _). t = k) M))"
    using assms by (simp add: quota_rep_def counts_match_def)
qed (use assms in \<open>auto simp: quota_rep_def counts_match_def case_prod_unfold\<close>)

lemma filter_user_le:
  "size (filter_mset (\<lambda>(t, u). u \<noteq> [] \<and> userKey t u = k) M) \<le> size (filter_mset (\<lambda>(t, u). userKey t u = k) M)"
  by (induction M) auto

lemma Acquire_within:
  assumes rep: "quota_rep q M" and lim: "within_limits (q_limits q) M" and ok: "Acquire q t u = Inr q'"
  shows "within_limits (q_limits q) (add_mset (t, u) M)"
proof -
  let ?l = "q_limits q"
  have chk: "checkUnderLock q t u = None" using ok by (simp add: Acquire_Inr_iff Check_def)
  note counts = quota_rep_counts [OF rep]
  have 1: "int (size M) + 1 \<le> MaxConnections ?l" if "MaxConnections ?l > 0"
    using chk that by (auto simp: checkUnderLock_def Let_def counts split: if_splits)
  have 2: "int (size (filter_mset (\<lambda>(t, u). userKey t u = k) M)) + 1 \<le> MaxConnectionsPerUser ?l"
    if "MaxConnectionsPerUser ?l > 0" "u \<noteq> []" "userKey t u = k" for k
    using chk that by (auto simp: checkUnderLock_def Let_def counts split: if_splits)
  have 3: "int (size (filter_mset (\<lambda>(t, _). t = t') M)) + 1 \<le> MaxConnectionsPerTenant ?l"
    if "MaxConnectionsPerTenant ?l > 0" "t \<noteq> []" "t' = t" for t'
    using chk that by (auto simp: checkUnderLock_def Let_def counts split: if_splits)
  show ?thesis
    unfolding within_limits_def
  proof (intro conjI impI allI)
    assume "0 < MaxConnections ?l"
    then show "int (size (add_mset (t, u) M)) \<le> MaxConnections ?l" using 1 by simp
  next
    fix k assume pos: "0 < MaxConnectionsPerUser ?l"
    then have old: "int (size (filter_mset (\<lambda>(t, u). u \<noteq> [] \<and> userKey t u = k) M)) \<le> MaxConnectionsPerUser ?l"
      using lim by (simp add: within_limits_def)
    show "int (size (filter_mset (\<lambda>(t, u). u \<noteq> [] \<and> userKey t u = k) (add_mset (t, u) M))) \<le> MaxConnectionsPerUser ?l"
      using old 2 [OF pos] filter_user_le [of k M] by (cases "u \<noteq> [] \<and> userKey t u = k") auto
  next
    fix k :: string assume pos: "0 < MaxConnectionsPerTenant ?l" and k: "k \<noteq> []"
    then have old: "int (size (filter_mset (\<lambda>(t, _). t = k) M)) \<le> MaxConnectionsPerTenant ?l"
      using lim by (simp add: within_limits_def)
    show "int (size (filter_mset (\<lambda>(t, _). t = k) (add_mset (t, u) M))) \<le> MaxConnectionsPerTenant ?l"
      using old 3 [OF pos] k by (cases "t = k") auto
  qed
qed

lemma within_limits_subset:
  assumes "within_limits l M" and "N \<subseteq># M"
  shows "within_limits l N"
proof -
  have "int (size (filter_mset P N)) \<le> int (size (filter_mset P M))" for P
    using assms(2) by (simp add: multiset_filter_mono size_mset_mono)
  moreover have "size N \<le> size M" using assms(2) by (rule size_mset_mono)
  ultimately show ?thesis
    using assms(1) unfolding within_limits_def by (meson of_nat_mono order_trans)
qed

interpretation quota: session_ledger quota_rep "\<lambda>q. within_limits (q_limits q)"
  "\<lambda>q (t, u). Acquire q t u" "\<lambda>q (t, u). Release q t u"
proof
  show "quota_rep q' (add_mset s M)"
    if "quota_rep q M" "(\<lambda>(t, u). Acquire q t u) s = Inr q'" for q M s q'
    using that Acquire_rep by (cases s) auto
  show "quota_rep ((\<lambda>(t, u). Release q t u) s) (M - {#s#})" if "quota_rep q M" "s \<in># M" for q M s
    using that Release_rep by (cases s) auto
  show "within_limits (q_limits q') (add_mset s M)"
    if "quota_rep q M" "within_limits (q_limits q) M" "(\<lambda>(t, u). Acquire q t u) s = Inr q'" for q M s q'
    using that Acquire_within by (cases s) auto
  show "within_limits (q_limits ((\<lambda>(t, u). Release q t u) s)) (M - {#s#})"
    if "within_limits (q_limits q) M" for q M s
    using that within_limits_subset [of _ M "M - {#s#}"] by (cases s) simp
qed

section \<open>Properties\<close>

text \<open>
  Under every schedule of acquires and releases, from every goroutine and in any order,
  the tracker's counters are exactly the numbers of open sessions (in total, per user key
  and per tenant, with no stale entry), and the open sessions never exceed the global, the
  per-user and the per-tenant limit: there is no window between the check and the
  increment.
\<close>

theorem quota_limits_never_exceeded:
  assumes "ledger_run (\<lambda>q (t, u). Acquire q t u) (\<lambda>q (t, u). Release q t u) (NewQuotaTracker l, {#}) ops = (q, M)"
  shows "quota_rep q M \<and> within_limits (q_limits q) M"
proof -
  have "within_limits (q_limits (NewQuotaTracker l)) {#}" by (simp add: within_limits_def)
  from quota.run_keeps [OF NewQuotaTracker_rep this assms] show ?thesis .
qed

lemma acquire_eval:
  "Acquire \<lparr>q_activeConns = n, q_userCounts = us, q_tenantCounts = ts,
      q_limits = \<lparr>MaxConnections = a, MaxConnectionsPerUser = b, MaxConnectionsPerTenant = c,
        MaxTopicsPerConnection = d\<rparr>\<rparr> t u =
   (if a > 0 \<and> n \<ge> a then Inl (ErrMaxConnectionsReached a)
    else if b > 0 \<and> u \<noteq> [] \<and> gomap_count us (t @ '':'' @ u) \<ge> b then Inl (ErrMaxConnectionsPerUserReached b)
    else if c > 0 \<and> t \<noteq> [] \<and> gomap_count ts t \<ge> c then Inl (ErrMaxConnectionsPerTenantReached c)
    else Inr \<lparr>q_activeConns = n + 1, q_userCounts = AList.update (t @ '':'' @ u) (gomap_count us (t @ '':'' @ u) + 1) us,
      q_tenantCounts = (if t \<noteq> [] then AList.update t (gomap_count ts t + 1) ts else ts),
      q_limits = \<lparr>MaxConnections = a, MaxConnectionsPerUser = b, MaxConnectionsPerTenant = c,
        MaxTopicsPerConnection = d\<rparr>\<rparr>)"
  by (simp add: Acquire_def checkUnderLock_def Let_def incr_count_def userKey_def)

theorem quota_limits_never_exceeded_witness:
  "\<exists>q M. ledger_run (\<lambda>q (t, u). Acquire q t u) (\<lambda>q (t, u). Release q t u)
      (NewQuotaTracker \<lparr>MaxConnections = 5, MaxConnectionsPerUser = 1, MaxConnectionsPerTenant = 0,
                        MaxTopicsPerConnection = 0\<rparr>, {#})
      [QAcquire (''t'', ''u''), QAcquire (''t'', ''u''), QAcquire (''t'', ''v'')] = (q, M)
    \<and> size M = 2 \<and> quota_rep q M \<and> within_limits (q_limits q) M"
proof -
  let ?l = "\<lparr>MaxConnections = 5, MaxConnectionsPerUser = 1, MaxConnectionsPerTenant = 0,
    MaxTopicsPerConnection = 0\<rparr>"
  let ?ops = "[QAcquire (''t'', ''u''), QAcquire (''t'', ''u''), QAcquire (''t'', ''v'')]"
  obtain q M where run: "ledger_run (\<lambda>q (t, u). Acquire q t u) (\<lambda>q (t, u). Release q t u)
    (NewQuotaTracker ?l, {#}) ?ops = (q, M)" by fastforce
  have "size M = 2"
    using run by (auto simp: ledger_run_def NewQuotaTracker_def acquire_eval gomap_count_def)
  with run quota_limits_never_exceeded [OF run] show ?thesis by blast
qed

text \<open>
  A granted acquire followed by the release of the same session restores the tracker
  exactly, entry by entry, on every state that represents some set of open sessions: no
  counter leaks.
\<close>

lemma release_undoes_acquire:
  assumes "quota_rep q M" and "Acquire q t u = Inr q'"
  shows "Release q' t u = q"
proof -
  have "decr_count (incr_count (q_userCounts q) k) k = q_userCounts q"
    and "decr_count (incr_count (q_tenantCounts q) k) k = q_tenantCounts q" for k
    using assms(1) by (auto simp: quota_rep_def counts_match_def intro!: decr_incr_count)
  moreover have "0 \<le> q_activeConns q" "0 \<le> gomap_count (q_tenantCounts q) t"
    using assms(1) by (auto simp: quota_rep_def counts_match_def)
  ultimately show ?thesis
    using assms(2) by (auto simp: Acquire_Inr_iff Release_def incr_count_def)
qed

text \<open>
  User keys are not injective: the tracker cannot tell user \<^verbatim>\<open>b:c\<close> of tenant \<^verbatim>\<open>a\<close> from user
  \<^verbatim>\<open>c\<close> of tenant \<^verbatim>\<open>a:b\<close>. With a per-user limit of one, a connection of the former makes
  the tracker refuse the latter, a user of another tenant, who has no connection at all.
\<close>

theorem user_quota_shared_across_tenants:
  "\<exists>q'. Acquire (NewQuotaTracker \<lparr>MaxConnections = 0, MaxConnectionsPerUser = 1,
        MaxConnectionsPerTenant = 0, MaxTopicsPerConnection = 0\<rparr>) ''a'' ''b:c'' = Inr q'
    \<and> Acquire q' ''a:b'' ''c'' = Inl (ErrMaxConnectionsPerUserReached 1)"
  by (simp add: NewQuotaTracker_def acquire_eval gomap_count_def)

end
