(* ===== verification/Hash_Util.thy ===== *)
theory Hash_Util
  imports Gateway_Prelude "HOL-Library.Word"
begin

unbundle bit_operations_syntax

text \<open>
  \<^verbatim>\<open>internal/hashutil/hash.go\<close>: the 32-bit FNV-1a hash and the partition index derived from it.
  \<^verbatim>\<open>hash/fnv\<close> is part of Go's standard library; its \<^verbatim>\<open>Write\<close> folds the bytes into the state
  with an exclusive or and a multiplication modulo \<open>2 ^ 32\<close>.

  \<^verbatim>\<open>ShardIndex\<close> converts its \<^verbatim>\<open>int\<close> count to \<^verbatim>\<open>uint32\<close>. For counts below \<open>2 ^ 32\<close> (and no machine
  holds a hub of \<open>2 ^ 32\<close> shards) the conversion is exact, which the facts below assume; the
  model keeps the conversion as the code has it.

  The locale \<open>partitioner\<close> is what the hub and the dispatcher rely on: every key has one
  partition, within range.
\<close>

section \<open>Definitions\<close>

definition fnv_offset32 :: "32 word" where
  "fnv_offset32 = 2166136261"

definition fnv_prime32 :: "32 word" where
  "fnv_prime32 = 16777619"

definition fnv_step :: "32 word \<Rightarrow> char \<Rightarrow> 32 word" where
  "fnv_step h c = (h XOR of_nat (of_char c)) * fnv_prime32"

definition Fnv32a :: "string \<Rightarrow> 32 word" where
  "Fnv32a s = foldl fnv_step fnv_offset32 s"

definition ShardIndex :: "string \<Rightarrow> int \<Rightarrow> nat" where
  "ShardIndex key cnt =
     (if cnt \<le> 1 then 0 else unat (Fnv32a key mod word_of_int cnt))"

section \<open>The partition contract\<close>

locale partitioner =
  fixes index :: "string \<Rightarrow> int \<Rightarrow> nat"
    and max_count :: int
  assumes index_in_range: "0 < cnt \<Longrightarrow> cnt < max_count \<Longrightarrow> index key cnt < nat cnt"
begin

lemma nth_defined:
  assumes "xs \<noteq> []" and "int (length xs) < max_count"
  shows "index key (int (length xs)) < length xs"
  using index_in_range [of "int (length xs)" key] assms by simp

text \<open>Every partition of the index space is an element of the partitioned list.\<close>

lemma nth_mem_defined:
  assumes "xs \<noteq> []" and "int (length xs) < max_count"
  shows "xs ! index key (int (length xs)) \<in> set xs"
  using nth_defined [OF assms] by simp

end

section \<open>Lemmas\<close>

lemma Fnv32a_Nil [simp]: "Fnv32a [] = fnv_offset32"
  by (simp add: Fnv32a_def)

lemma Fnv32a_append: "Fnv32a (s @ t) = foldl fnv_step (Fnv32a s) t"
  by (simp add: Fnv32a_def)

lemma word_of_int_count_unat:
  "0 \<le> cnt \<Longrightarrow> cnt < 2 ^ 32 \<Longrightarrow> unat (word_of_int cnt :: 32 word) = nat cnt"
  by (simp add: unat_eq_nat_uint uint_word_of_int_eq take_bit_int_eq_self)

lemma ShardIndex_nat_mod:
  assumes "1 < cnt" and "cnt < 2 ^ 32"
  shows "ShardIndex key cnt = unat (Fnv32a key) mod nat cnt"
  using assms word_of_int_count_unat [of cnt] by (simp add: ShardIndex_def unat_mod)

lemma ShardIndex_less:
  assumes "0 < cnt" and "cnt < 2 ^ 32"
  shows "ShardIndex key cnt < nat cnt"
proof (cases "cnt \<le> 1")
  case True
  with assms show ?thesis by (simp add: ShardIndex_def)
next
  case False
  with assms show ?thesis by (simp add: ShardIndex_nat_mod)
qed

interpretation fnv: partitioner ShardIndex "2 ^ 32"
  by unfold_locales (rule ShardIndex_less)

end
