(* ===== verification/Hub.thy ===== *)
theory Hub
  imports Shard Quota Hash_Util
begin

text \<open>
  \<^verbatim>\<open>internal/hub/hub.go\<close>: the sharded hub. The state holds the shards, the quota tracker, the
  closed flag, the running heartbeat (interval and frame, if \<^verbatim>\<open>heartbeatCancel\<close> is set), which
  observability callbacks are installed and how often each was called, and the heap of
  client objects the pointers refer to. The operations here are whole calls; the theory
  \<open>Hub_Concurrent\<close> interleaves their atomic sections.

  \<open>ConditionalBroadcast\<close> takes the callback \<^verbatim>\<open>decryptAndBuildFrame\<close> as a function on an ambient
  state of its caller (metrics, the key service), so that whether it ran is visible.
  A \<^verbatim>\<open>nil\<close> frame is \<open>None\<close>.
\<close>

section \<open>Definitions\<close>

record hub =
  h_numShards :: int
  h_shards :: "shard list"
  h_limits :: limits_config
  h_closed :: bool
  h_quotas :: quota_tracker
  h_heartbeat :: "(int \<times> frame) option"
  h_onSlow :: bool
  h_onFanout :: bool
  h_slowCalls :: nat
  h_fanoutCalls :: nat
  h_heap :: heap

definition NewHub :: "heap \<Rightarrow> int \<Rightarrow> limits_config \<Rightarrow> hub" where
  "NewHub hp numShards limits =
     (let n = (if numShards \<le> 0 then 256 else numShards)
      in \<lparr>h_numShards = n, h_shards = replicate (nat n) NewShard, h_limits = limits, h_closed = False,
          h_quotas = NewQuotaTracker limits, h_heartbeat = None, h_onSlow = False, h_onFanout = False,
          h_slowCalls = 0, h_fanoutCalls = 0, h_heap = hp\<rparr>)"

definition SetObservabilityCallbacks :: "hub \<Rightarrow> bool \<Rightarrow> bool \<Rightarrow> hub" where
  "SetObservabilityCallbacks h onSlow onFanout = h\<lparr>h_onSlow := onSlow, h_onFanout := onFanout\<rparr>"

definition getShard :: "hub \<Rightarrow> string \<Rightarrow> nat" where
  "getShard h routingKey = ShardIndex routingKey (h_numShards h)"

definition StartHeartbeat :: "hub \<Rightarrow> int \<Rightarrow> string \<Rightarrow> hub" where
  "StartHeartbeat h interval payload =
     (if interval \<le> 0 then h else h\<lparr>h_heartbeat := Some (interval, NewHeartbeatFrame payload)\<rparr>)"

definition CheckLimits :: "hub \<Rightarrow> string \<Rightarrow> string \<Rightarrow> int \<Rightarrow> hub_error option" where
  "CheckLimits h tenantID userID topicCount =
     (if h_closed h then Some ErrHubClosed
      else if MaxTopicsPerConnection (h_limits h) > 0 \<and> topicCount > MaxTopicsPerConnection (h_limits h)
      then Some ErrMaxTopicsExceeded
      else Check (h_quotas h) tenantID userID)"

text \<open>\<^verbatim>\<open>h.getShard(k).Register(k, client)\<close> and \<^verbatim>\<open>h.getShard(k).Unregister(k, id)\<close>.\<close>

definition register_key :: "hub \<Rightarrow> string \<Rightarrow> string \<Rightarrow> ref \<Rightarrow> hub" where
  "register_key h rKey clientID client =
     (let i = getShard h rKey
      in h\<lparr>h_shards := (h_shards h)[i := Shard_Register (h_shards h ! i) rKey clientID client]\<rparr>)"

definition unregister_key :: "hub \<Rightarrow> string \<Rightarrow> string \<Rightarrow> hub" where
  "unregister_key h topic clientID =
     (let i = getShard h topic
      in h\<lparr>h_shards := (h_shards h)[i := Shard_Unregister (h_shards h ! i) topic clientID]\<rparr>)"

definition Hub_Register :: "hub \<Rightarrow> ref \<Rightarrow> string list \<Rightarrow> hub_error + hub" where
  "Hub_Register h client routingKeys =
     (if h_closed h then Inl ErrHubClosed
      else if MaxTopicsPerConnection (h_limits h) > 0 \<and>
              int (length routingKeys) > MaxTopicsPerConnection (h_limits h)
      then Inl ErrMaxTopicsExceeded
      else case Acquire (h_quotas h) (cl_TenantID (h_heap h client)) (cl_UserID (h_heap h client)) of
             Inl err \<Rightarrow> Inl err
           | Inr q \<Rightarrow> Inr (reg_all register_key (h\<lparr>h_quotas := q\<rparr>) routingKeys
                              (cl_ID (h_heap h client)) client))"

text \<open>\<^verbatim>\<open>nil\<close> is \<open>None\<close>.\<close>

definition Unregister :: "hub \<Rightarrow> ref option \<Rightarrow> hub" where
  "Unregister h client =
     (case client of
        None \<Rightarrow> h
      | Some c \<Rightarrow>
          (case MarkUnregistered (h_heap h c) of
             (_, False) \<Rightarrow> h
           | (cl, True) \<Rightarrow>
               let h1 = h\<lparr>h_heap := (h_heap h)(c := Client_Close cl)\<rparr>;
                   h2 = unreg_all unregister_key h1 (cl_Topics cl) (cl_ID cl)
               in h2\<lparr>h_quotas := Release (h_quotas h2) (cl_TenantID cl) (cl_UserID cl)\<rparr>))"

definition HasSubscribers :: "hub \<Rightarrow> string \<Rightarrow> bool" where
  "HasSubscribers h routingKey = Shard_HasSubscribers (h_shards h ! getShard h routingKey) routingKey"

definition NotifySlowClient :: "hub \<Rightarrow> hub" where
  "NotifySlowClient h = (if h_onSlow h then h\<lparr>h_slowCalls := Suc (h_slowCalls h)\<rparr> else h)"

text \<open>One \<^verbatim>\<open>client.EnqueueFrame(frame)\<close> with its callback, and the loop over the recipients.\<close>

definition enqueue_to :: "hub \<Rightarrow> ref \<Rightarrow> frame \<Rightarrow> hub \<times> bool" where
  "enqueue_to h c f =
     (case EnqueueFrame (h_heap h c) f of
        (cl, ok, slow) \<Rightarrow>
          (let h1 = (if slow then NotifySlowClient h else h)
           in (h1\<lparr>h_heap := (h_heap h)(c := cl)\<rparr>, ok)))"

fun fanout :: "hub \<Rightarrow> ref list \<Rightarrow> frame \<Rightarrow> hub \<times> int" where
  "fanout h [] f = (h, 0)"
| "fanout h (c # cs) f =
     (let (h1, ok) = enqueue_to h c f; (h2, delivered) = fanout h1 cs f
      in (h2, (if ok then 1 else 0) + delivered))"

definition ConditionalBroadcast ::
  "client_order \<Rightarrow> hub \<Rightarrow> 'x \<Rightarrow> string \<Rightarrow> ('x \<Rightarrow> 'x \<times> ('e + frame option)) \<Rightarrow> hub \<times> 'x \<times> ('e + int)" where
  "ConditionalBroadcast ord h x routingKey decryptAndBuildFrame =
     (let recipients = GetRecipients ord (h_shards h ! getShard h routingKey) routingKey
      in if length recipients = 0 then (h, x, Inr 0)
         else case decryptAndBuildFrame x of
           (x', Inl err) \<Rightarrow> (h, x', Inl err)
         | (x', Inr None) \<Rightarrow> (h, x', Inr 0)
         | (x', Inr (Some frame)) \<Rightarrow>
             (case fanout h recipients frame of
                (h1, delivered) \<Rightarrow>
                  (if h_onFanout h1 then h1\<lparr>h_fanoutCalls := Suc (h_fanoutCalls h1)\<rparr> else h1,
                   x', Inr delivered)))"

definition BroadcastHeartbeat :: "client_order \<Rightarrow> hub \<Rightarrow> frame \<Rightarrow> hub" where
  "BroadcastHeartbeat ord h frame =
     foldl (\<lambda>h s. fst (fanout h (GetAllClients ord s) frame)) h (h_shards h)"

text \<open>The loop of \<^verbatim>\<open>InvalidateUser\<close> over the clients one shard matched.\<close>

fun release_matched :: "hub \<Rightarrow> ref list \<Rightarrow> hub \<times> int" where
  "release_matched h [] = (h, 0)"
| "release_matched h (c # cs) =
     (case MarkUnregistered (h_heap h c) of
        (cl, True) \<Rightarrow>
          (let h1 = h\<lparr>h_heap := (h_heap h)(c := Client_Close cl),
                      h_quotas := Release (h_quotas h) (cl_TenantID cl) (cl_UserID cl)\<rparr>;
               (h2, n) = release_matched h1 cs
           in (h2, n + 1))
      | (_, False) \<Rightarrow> release_matched h cs)"

definition invalidate_shard :: "client_order \<Rightarrow> string \<Rightarrow> string \<Rightarrow> hub \<times> int \<Rightarrow> nat \<Rightarrow> hub \<times> int" where
  "invalidate_shard ord tenantID userID hn i =
     (case hn of (h, n) \<Rightarrow>
        case Shard_InvalidateUser ord (h_heap h) (h_shards h ! i) tenantID userID of
          (s, matched) \<Rightarrow>
            (case release_matched (h\<lparr>h_shards := (h_shards h)[i := s]\<rparr>) matched of
               (h', m) \<Rightarrow> (h', n + m)))"

definition InvalidateUser :: "client_order \<Rightarrow> hub \<Rightarrow> string \<Rightarrow> string \<Rightarrow> hub \<times> int" where
  "InvalidateUser ord h tenantID userID =
     foldl (invalidate_shard ord tenantID userID) (h, 0) [0..<length (h_shards h)]"

definition ActiveConnections :: "hub \<Rightarrow> int" where
  "ActiveConnections h = ActiveCount (h_quotas h)"

definition close_clients :: "hub \<Rightarrow> ref list \<Rightarrow> hub" where
  "close_clients h cs = foldl (\<lambda>h c. h\<lparr>h_heap := (h_heap h)(c := Client_Close (h_heap h c))\<rparr>) h cs"

definition Hub_Close :: "client_order \<Rightarrow> hub \<Rightarrow> hub" where
  "Hub_Close ord h =
     (if h_closed h then h
      else (let h1 = h\<lparr>h_closed := True, h_heartbeat := None\<rparr>
            in foldl (\<lambda>h s. close_clients h (GetAllClients ord s)) h1 (h_shards h1)))"

subsection \<open>Abstraction and invariants\<close>

text \<open>The flat subscription map a sharded hub implements.\<close>

definition hub_subs :: "hub \<Rightarrow> string \<Rightarrow> (string \<rightharpoonup> ref)" where
  "hub_subs h key = shard_subs (h_shards h ! getShard h key) key"

definition hub_recipients :: "client_order \<Rightarrow> hub \<Rightarrow> string \<Rightarrow> ref list" where
  "hub_recipients ord h key = GetRecipients ord (h_shards h ! getShard h key) key"

text \<open>Structure of the index: each key lives in its own shard only.\<close>

definition hub_wf :: "hub \<Rightarrow> bool" where
  "hub_wf h \<longleftrightarrow> h_numShards h = int (length (h_shards h)) \<and> 0 < length (h_shards h) \<and>
     int (length (h_shards h)) < 2 ^ 32 \<and> list_all shard_wf (h_shards h) \<and>
     (\<forall>i < length (h_shards h). \<forall>key. shard_subs (h_shards h ! i) key \<noteq> Map.empty \<longrightarrow> i = getShard h key)"

section \<open>Lemmas\<close>

subsection \<open>The hub is a subscription index\<close>

lemma getShard_less: "hub_wf h \<Longrightarrow> getShard h key < length (h_shards h)"
  using fnv.nth_defined [of "h_shards h" key] by (simp add: hub_wf_def getShard_def)

lemma hub_wf_shard: "hub_wf h \<Longrightarrow> i < length (h_shards h) \<Longrightarrow> shard_wf (h_shards h ! i)"
  by (simp add: hub_wf_def list_all_length)

text \<open>Every subscription of every shard is one of the flat map.\<close>

lemma shard_subs_hub:
  assumes "hub_wf h" and "i < length (h_shards h)"
  shows "shard_subs (h_shards h ! i) key = (if i = getShard h key then hub_subs h key else Map.empty)"
  using assms by (auto simp: hub_wf_def hub_subs_def)

lemma hub_wf_update:
  assumes wf: "hub_wf h" and s: "shard_wf s"
    and place: "\<And>key. shard_subs s key \<noteq> Map.empty \<Longrightarrow> i = getShard h key"
  shows "hub_wf (h\<lparr>h_shards := (h_shards h)[i := s]\<rparr>)"
proof (cases "i < length (h_shards h)")
  case True
  have g: "getShard (h\<lparr>h_shards := (h_shards h)[i := s]\<rparr>) = getShard h" by (simp add: getShard_def fun_eq_iff)
  have "shard_wf ((h_shards h)[i := s] ! j)" if "j < length (h_shards h)" for j
    using that True s hub_wf_shard [OF wf that] by (cases "j = i") auto
  moreover have "j = getShard h key"
    if "j < length (h_shards h)" "shard_subs ((h_shards h)[i := s] ! j) key \<noteq> Map.empty" for j key
    using that True place [of key] wf by (cases "j = i") (auto simp: hub_wf_def)
  ultimately show ?thesis
    using wf by (simp add: hub_wf_def g list_all_length)
next
  case False
  then show ?thesis using wf by (simp add: list_update_beyond)
qed

lemma NewHub_wf [wf_intros]: "numShards < 2 ^ 32 \<Longrightarrow> hub_wf (NewHub hp numShards l)"
  by (simp add: hub_wf_def NewHub_def Let_def list_all_iff)

lemma register_key_wf [wf_intros]: "hub_wf h \<Longrightarrow> hub_wf (register_key h k cid c)"
  unfolding register_key_def Let_def
  by (rule hub_wf_update)
    (auto simp: hub_wf_shard getShard_less Shard_Register_wf Shard_Register_subs shard_subs_hub split: if_splits)

lemma unregister_key_wf [wf_intros]: "hub_wf h \<Longrightarrow> hub_wf (unregister_key h k cid)"
  unfolding unregister_key_def Let_def
  by (rule hub_wf_update)
    (auto simp: hub_wf_shard getShard_less Shard_Unregister_wf Shard_Unregister_subs shard_subs_hub split: if_splits)

lemma getShard_key_ops [simp]:
  "getShard (register_key h k cid c) = getShard h" "getShard (unregister_key h k cid) = getShard h"
  by (simp_all add: getShard_def register_key_def unregister_key_def Let_def fun_eq_iff)

lemma register_key_subs:
  assumes "hub_wf h"
  shows "hub_subs (register_key h k cid c) = (hub_subs h)(k := (hub_subs h k)(cid \<mapsto> c))"
proof
  fix key
  show "hub_subs (register_key h k cid c) key = ((hub_subs h)(k := (hub_subs h k)(cid \<mapsto> c))) key"
    using getShard_less [OF assms, of k]
    by (cases "getShard h key = getShard h k")
      (auto simp: hub_subs_def register_key_def Let_def Shard_Register_subs getShard_def)
qed

lemma unregister_key_subs:
  assumes "hub_wf h"
  shows "hub_subs (unregister_key h k cid) = (hub_subs h)(k := (hub_subs h k)(cid := None))"
proof
  fix key
  show "hub_subs (unregister_key h k cid) key = ((hub_subs h)(k := (hub_subs h k)(cid := None))) key"
    using getShard_less [OF assms, of k]
    by (cases "getShard h key = getShard h k")
      (auto simp: hub_subs_def unregister_key_def Let_def Shard_Unregister_subs getShard_def)
qed

lemma HasSubscribers_iff: "hub_wf h \<Longrightarrow> HasSubscribers h k \<longleftrightarrow> hub_subs h k \<noteq> Map.empty"
  by (simp add: HasSubscribers_def hub_subs_def Shard_HasSubscribers_iff hub_wf_shard getShard_less)

lemma hub_recipients_set:
  "hub_wf h \<Longrightarrow> range_order ord \<Longrightarrow> set (hub_recipients ord h k) = ran (hub_subs h k)"
  by (simp add: hub_recipients_def hub_subs_def GetRecipients_set hub_wf_shard getShard_less)

interpretation hubidx: subscription_index hub_wf hub_subs register_key unregister_key HasSubscribers hub_recipients
  by unfold_locales
    (simp_all add: register_key_wf unregister_key_wf register_key_subs unregister_key_subs HasSubscribers_iff
      hub_recipients_set)

end
