(* ===== verification/Hub_Invariant.thy ===== *)
theory Hub_Invariant
  imports Hub
begin

text \<open>
  The invariant of the hub and its preservation by every operation. The ghost set \<open>L\<close>
  holds the live connections: the clients that were registered and neither unregistered
  nor invalidated since. \<open>hub_inv h L\<close> says that the index contains exactly the live
  clients, each under exactly its topics, that the two maps of every shard agree, and that
  the quota counters are those of the live clients and within the limits.
\<close>

section \<open>Definitions\<close>

definition client_session :: "client \<Rightarrow> session" where
  "client_session c = (cl_TenantID c, cl_UserID c)"

definition live_sessions :: "heap \<Rightarrow> ref set \<Rightarrow> session multiset" where
  "live_sessions hp L = image_mset (\<lambda>c. client_session (hp c)) (mset_set L)"

text \<open>The part of the invariant that concerns the index.\<close>

definition index_inv :: "hub \<Rightarrow> ref set \<Rightarrow> bool" where
  "index_inv h L \<longleftrightarrow> hub_wf h \<and>
     (\<forall>key cid c. hub_subs h key cid = Some c \<longleftrightarrow>
        c \<in> L \<and> cl_ID (h_heap h c) = cid \<and> key \<in> set (cl_Topics (h_heap h c))) \<and>
     list_all shard_sync (h_shards h) \<and> inj_on (\<lambda>c. cl_ID (h_heap h c)) L"

definition quota_inv :: "hub \<Rightarrow> ref set \<Rightarrow> bool" where
  "quota_inv h L \<longleftrightarrow> quota_rep (h_quotas h) (live_sessions (h_heap h) L) \<and>
     q_limits (h_quotas h) = h_limits h \<and>
     within_limits (h_limits h) (live_sessions (h_heap h) L)"

definition heap_inv :: "hub \<Rightarrow> ref set \<Rightarrow> bool" where
  "heap_inv h L \<longleftrightarrow> finite L \<and> (\<forall>c. client_wf (h_heap h c)) \<and>
     (\<forall>c \<in> L. \<not> cl_unregistered (h_heap h c))"

definition hub_inv :: "hub \<Rightarrow> ref set \<Rightarrow> bool" where
  "hub_inv h L \<longleftrightarrow> index_inv h L \<and> quota_inv h L \<and> heap_inv h L"

text \<open>The live clients of a user that have a topic, i.e. that some shard knows.\<close>

definition user_live :: "hub \<Rightarrow> ref set \<Rightarrow> string \<Rightarrow> string \<Rightarrow> ref set" where
  "user_live h L t u = {c \<in> L. user_matches (h_heap h) t u c \<and> cl_Topics (h_heap h c) \<noteq> []}"

text \<open>Heaps that differ in the mutable fields of their clients only.\<close>

definition same_clients :: "heap \<Rightarrow> heap \<Rightarrow> bool" where
  "same_clients hp hp' \<longleftrightarrow> (\<forall>c. same_identity (hp c) (hp' c))"

definition same_frame :: "hub \<Rightarrow> hub \<Rightarrow> bool" where
  "same_frame h h' \<longleftrightarrow> h_numShards h' = h_numShards h \<and> h_shards h' = h_shards h \<and>
     h_limits h' = h_limits h \<and> h_quotas h' = h_quotas h \<and> same_clients (h_heap h') (h_heap h)"

section \<open>Lemmas\<close>

subsection \<open>Frames\<close>

lemma same_clients_refl [simp]: "same_clients hp hp"
  by (simp add: same_clients_def)

lemma same_clients_upd [simp]: "same_identity cl (hp c) \<Longrightarrow> same_clients (hp(c := cl)) hp"
  by (simp add: same_clients_def)

lemma same_clients_trans: "same_clients a b \<Longrightarrow> same_clients b c \<Longrightarrow> same_clients a c"
  by (auto simp: same_clients_def intro: same_identity_trans)

lemma same_frame_refl [simp]: "same_frame h h"
  by (simp add: same_frame_def)

lemma same_frame_trans: "same_frame h h1 \<Longrightarrow> same_frame h1 h2 \<Longrightarrow> same_frame h h2"
  by (auto simp: same_frame_def intro: same_clients_trans)

lemma same_clients_fields:
  assumes "same_clients hp' hp"
  shows "cl_ID (hp' c) = cl_ID (hp c)" "cl_Topics (hp' c) = cl_Topics (hp c)"
    "client_session (hp' c) = client_session (hp c)" "user_matches hp' t u = user_matches hp t u"
  using assms by (auto simp: same_clients_def same_identity_def client_session_def user_matches_def fun_eq_iff)

lemma same_clients_sessions: "same_clients hp' hp \<Longrightarrow> live_sessions hp' L = live_sessions hp L"
  by (simp add: live_sessions_def same_clients_fields)

lemma index_inv_frame:
  assumes "index_inv h L" and "h_numShards h' = h_numShards h" "h_shards h' = h_shards h"
    and "same_clients (h_heap h') (h_heap h)"
  shows "index_inv h' L"
proof -
  have "getShard h' = getShard h" using assms(2) by (simp add: getShard_def fun_eq_iff)
  then have "hub_wf h' = hub_wf h" "hub_subs h' = hub_subs h"
    using assms by (auto simp: hub_wf_def hub_subs_def fun_eq_iff)
  with assms show ?thesis by (simp add: index_inv_def same_clients_fields)
qed

lemma hub_inv_frame:
  assumes inv: "hub_inv h L" and fr: "same_frame h h'"
    and "\<And>c. client_wf (h_heap h' c)" and "\<And>c. c \<in> L \<Longrightarrow> \<not> cl_unregistered (h_heap h' c)"
  shows "hub_inv h' L"
  using assms index_inv_frame [of h L h'] same_clients_sessions [of "h_heap h'" "h_heap h" L]
  by (simp add: hub_inv_def same_frame_def quota_inv_def heap_inv_def)

text \<open>Identifiers are consistent in every shard of a hub that satisfies the invariant.\<close>

lemma index_inv_ids:
  assumes inv: "index_inv h L" and i: "i < length (h_shards h)"
  shows "ids_ok (h_heap h) (h_shards h ! i)"
proof -
  have wf: "hub_wf h" using inv by (simp add: index_inv_def)
  have sub: "cl_ID (h_heap h c) = cid" if "shard_subs (h_shards h ! i) key cid = Some c" for key cid c
    using that inv by (auto simp: shard_subs_hub [OF wf i] index_inv_def split: if_splits)
  have "shard_sync (h_shards h ! i)" using inv i by (simp add: index_inv_def list_all_length)
  with sub show ?thesis by (auto simp: ids_ok_def shard_sync_def)
qed

lemma index_inv_shard:
  assumes "index_inv h L" and "i < length (h_shards h)"
  shows "shard_wf (h_shards h ! i)" and "shard_sync (h_shards h ! i)"
  using assms by (auto simp: index_inv_def list_all_length intro: hub_wf_shard)

text \<open>Who is in a shard's client map.\<close>

lemma index_inv_clients:
  assumes inv: "index_inv h L" and i: "i < length (h_shards h)"
  shows "ran (map_of (sh_clients (h_shards h ! i))) =
    {c \<in> L. \<exists>key \<in> set (cl_Topics (h_heap h c)). getShard h key = i}"
proof -
  have wf: "hub_wf h" using inv by (simp add: index_inv_def)
  have "map_of (sh_clients (h_shards h ! i)) cid = Some c \<longleftrightarrow>
    (\<exists>key. getShard h key = i \<and> hub_subs h key cid = Some c)" for cid c
    using index_inv_shard(2) [OF inv i] shard_subs_hub [OF wf i]
    by (auto simp: shard_sync_def split: if_splits)
  then show ?thesis
    using inv by (auto simp: ran_def index_inv_def)
qed

subsection \<open>Fan-out\<close>

lemma enqueue_to_simps:
  "h_heap (fst (enqueue_to h c f)) = (h_heap h)(c := fst (EnqueueFrame (h_heap h c) f))"
  "snd (enqueue_to h c f) = fst (snd (EnqueueFrame (h_heap h c) f))"
  by (simp_all add: enqueue_to_def Let_def split: prod.split)

lemma enqueue_to_frame:
  assumes "client_wf (h_heap h c)"
  shows "same_frame h (fst (enqueue_to h c f))"
  using EnqueueFrame_identity [OF assms, of f]
  by (auto simp: same_frame_def enqueue_to_def NotifySlowClient_def Let_def split: prod.split)

lemma fanout_Cons:
  "fst (fanout h (c # cs) f) = fst (fanout (fst (enqueue_to h c f)) cs f)"
  "snd (fanout h (c # cs) f) =
     (if snd (enqueue_to h c f) then 1 else 0) + snd (fanout (fst (enqueue_to h c f)) cs f)"
  by (simp_all add: Let_def split: prod.split)

declare fanout.simps(2) [simp del]
declare fanout_Cons [simp]

lemma fanout_append: "fst (fanout h (cs @ ds) f) = fst (fanout (fst (fanout h cs f)) ds f)"
  by (induction cs arbitrary: h) simp_all

lemma fanout_wf:
  assumes "\<And>c. client_wf (h_heap h c)"
  shows "client_wf (h_heap (fst (fanout h cs f)) c)" and "same_frame h (fst (fanout h cs f))"
proof -
  have "(\<forall>c. client_wf (h_heap (fst (fanout h cs f)) c)) \<and> same_frame h (fst (fanout h cs f))"
    using assms
  proof (induction cs arbitrary: h)
    case Nil
    then show ?case by simp
  next
    case (Cons d cs)
    have "client_wf (h_heap (fst (enqueue_to h d f)) c)" for c
      using Cons.prems EnqueueFrame_wf by (simp add: enqueue_to_simps)
    with Cons.IH [of "fst (enqueue_to h d f)"] enqueue_to_frame [OF Cons.prems [of d], of f] show ?case
      using same_frame_trans by auto
  qed
  then show "client_wf (h_heap (fst (fanout h cs f)) c)" and "same_frame h (fst (fanout h cs f))"
    by auto
qed

lemma fanout_fields [simp]:
  "h_closed (fst (fanout h cs f)) = h_closed h" "h_limits (fst (fanout h cs f)) = h_limits h"
  "h_onSlow (fst (fanout h cs f)) = h_onSlow h" "h_onFanout (fst (fanout h cs f)) = h_onFanout h"
  by (induction cs arbitrary: h)
    (simp_all add: enqueue_to_def NotifySlowClient_def Let_def case_prod_unfold)

text \<open>Every client receives the frame as often as it is listed, whatever the order.\<close>

lemma fanout_heap:
  "h_heap (fst (fanout h cs f)) c = fst (enqueue_run (h_heap h c) (replicate (count_list cs c) f))"
proof (induction cs arbitrary: h)
  case (Cons d cs)
  then show ?case by (cases "d = c") (auto simp: enqueue_to_simps enqueue_run_Cons simp del: enqueue_run.simps(2))
qed simp

lemma fanout_delivered:
  "distinct cs \<Longrightarrow>
   snd (fanout h cs f) = int (length (filter (\<lambda>c. fst (snd (EnqueueFrame (h_heap h c) f))) cs))"
proof (induction cs arbitrary: h)
  case (Cons d cs)
  then have "filter (\<lambda>c. fst (snd (EnqueueFrame (h_heap (fst (enqueue_to h d f)) c) f))) cs =
    filter (\<lambda>c. fst (snd (EnqueueFrame (h_heap h c) f))) cs"
    by (intro filter_cong) (auto simp: enqueue_to_simps)
  with Cons show ?case by (simp add: enqueue_to_simps)
qed simp

lemma enqueue_run_unregistered:
  "client_wf c \<Longrightarrow> cl_unregistered (fst (enqueue_run c fs)) = cl_unregistered c"
proof (induction fs arbitrary: c)
  case (Cons x xs)
  then show ?case
    by (simp only: enqueue_run_Cons EnqueueFrame_wf EnqueueFrame_unregistered)
qed simp

lemma fanout_inv:
  assumes "hub_inv h L"
  shows "hub_inv (fst (fanout h cs f)) L"
proof (rule hub_inv_frame [OF assms])
  have wf: "client_wf (h_heap h c)" for c using assms by (simp add: hub_inv_def heap_inv_def)
  show "client_wf (h_heap (fst (fanout h cs f)) c)" for c by (rule fanout_wf(1)) (rule wf)
  show "same_frame h (fst (fanout h cs f))" by (rule fanout_wf(2)) (rule wf)
  show "\<not> cl_unregistered (h_heap (fst (fanout h cs f)) c)" if "c \<in> L" for c
    using that assms wf by (simp add: fanout_heap enqueue_run_unregistered hub_inv_def heap_inv_def)
qed

subsection \<open>Registration\<close>

lemma key_ops_fields [simp]:
  "h_heap (register_key h k cid c) = h_heap h" "h_heap (unregister_key h k cid) = h_heap h"
  "h_quotas (register_key h k cid c) = h_quotas h" "h_quotas (unregister_key h k cid) = h_quotas h"
  "h_closed (register_key h k cid c) = h_closed h" "h_closed (unregister_key h k cid) = h_closed h"
  "h_limits (register_key h k cid c) = h_limits h" "h_limits (unregister_key h k cid) = h_limits h"
  "h_numShards (register_key h k cid c) = h_numShards h" "h_numShards (unregister_key h k cid) = h_numShards h"
  "length (h_shards (register_key h k cid c)) = length (h_shards h)"
  "length (h_shards (unregister_key h k cid)) = length (h_shards h)"
  by (simp_all add: register_key_def unregister_key_def Let_def)

lemma all_keys_fields [simp]:
  "h_heap (reg_all register_key h ks cid c) = h_heap h" "h_heap (unreg_all unregister_key h ks cid) = h_heap h"
  "h_quotas (reg_all register_key h ks cid c) = h_quotas h" "h_quotas (unreg_all unregister_key h ks cid) = h_quotas h"
  "h_closed (reg_all register_key h ks cid c) = h_closed h" "h_closed (unreg_all unregister_key h ks cid) = h_closed h"
  "h_limits (reg_all register_key h ks cid c) = h_limits h" "h_limits (unreg_all unregister_key h ks cid) = h_limits h"
  "getShard (reg_all register_key h ks cid c) = getShard h" "getShard (unreg_all unregister_key h ks cid) = getShard h"
  "length (h_shards (reg_all register_key h ks cid c)) = length (h_shards h)"
  "length (h_shards (unreg_all unregister_key h ks cid)) = length (h_shards h)"
  by (induction ks arbitrary: h) simp_all

lemma register_key_clients:
  assumes "hub_wf h" and "i < length (h_shards h)"
  shows "map_of (sh_clients (h_shards (register_key h k cid c) ! i)) =
    (if getShard h k = i then (map_of (sh_clients (h_shards h ! i)))(cid \<mapsto> c) else map_of (sh_clients (h_shards h ! i)))"
  using assms by (simp add: register_key_def Let_def)

lemma unregister_key_clients:
  assumes "hub_wf h" and "i < length (h_shards h)"
  shows "map_of (sh_clients (h_shards (unregister_key h k cid) ! i)) =
    (if getShard h k = i then (map_of (sh_clients (h_shards h ! i)))(cid := None) else map_of (sh_clients (h_shards h ! i)))"
  using assms by (simp add: unregister_key_def Let_def)

lemma reg_all_clients:
  "hub_wf h \<Longrightarrow> i < length (h_shards h) \<Longrightarrow>
   map_of (sh_clients (h_shards (reg_all register_key h ks cid c) ! i)) =
    (if \<exists>k \<in> set ks. getShard h k = i then (map_of (sh_clients (h_shards h ! i)))(cid \<mapsto> c)
     else map_of (sh_clients (h_shards h ! i)))"
  by (induction ks arbitrary: h) (auto simp: register_key_wf register_key_clients)

lemma unreg_all_clients:
  "hub_wf h \<Longrightarrow> i < length (h_shards h) \<Longrightarrow>
   map_of (sh_clients (h_shards (unreg_all unregister_key h ks cid) ! i)) =
    (if \<exists>k \<in> set ks. getShard h k = i then (map_of (sh_clients (h_shards h ! i)))(cid := None)
     else map_of (sh_clients (h_shards h ! i)))"
  by (induction ks arbitrary: h) (auto simp: unregister_key_wf unregister_key_clients)

text \<open>The index invariant, read off the flat map and the client maps.\<close>

definition clients_exact :: "hub \<Rightarrow> ref set \<Rightarrow> bool" where
  "clients_exact h L \<longleftrightarrow> (\<forall>i < length (h_shards h). \<forall>cid c.
     map_of (sh_clients (h_shards h ! i)) cid = Some c \<longleftrightarrow>
       c \<in> L \<and> cl_ID (h_heap h c) = cid \<and> (\<exists>k \<in> set (cl_Topics (h_heap h c)). getShard h k = i))"

definition subs_exact :: "hub \<Rightarrow> ref set \<Rightarrow> bool" where
  "subs_exact h L \<longleftrightarrow> (\<forall>key cid c. hub_subs h key cid = Some c \<longleftrightarrow>
     c \<in> L \<and> cl_ID (h_heap h c) = cid \<and> key \<in> set (cl_Topics (h_heap h c)))"

lemma index_inv_iff:
  "index_inv h L \<longleftrightarrow> hub_wf h \<and> subs_exact h L \<and> clients_exact h L \<and> inj_on (\<lambda>c. cl_ID (h_heap h c)) L"
proof -
  have "list_all shard_sync (h_shards h) \<longleftrightarrow> clients_exact h L" if wf: "hub_wf h" and ex: "subs_exact h L"
  proof -
    have "(\<exists>key. shard_subs (h_shards h ! i) key cid = Some c) \<longleftrightarrow>
        c \<in> L \<and> cl_ID (h_heap h c) = cid \<and> (\<exists>k \<in> set (cl_Topics (h_heap h c)). getShard h k = i)"
      if "i < length (h_shards h)" for i cid c
      using ex by (auto simp: shard_subs_hub [OF wf that] subs_exact_def split: if_splits)
    then show ?thesis by (simp add: list_all_length shard_sync_def clients_exact_def)
  qed
  then show ?thesis by (auto simp: index_inv_def subs_exact_def)
qed

lemma Register_index:
  assumes inv: "index_inv h L" and c: "c \<notin> L" "cl_Topics (h_heap h c) = ks" "cl_ID (h_heap h c) = cid"
    and fresh: "\<And>d. d \<in> L \<Longrightarrow> cl_ID (h_heap h d) \<noteq> cid"
  shows "index_inv (reg_all register_key h ks cid c) (insert c L)"
proof -
  have wf: "hub_wf h" and se: "subs_exact h L" and ce: "clients_exact h L" and inj: "inj_on (\<lambda>c. cl_ID (h_heap h c)) L"
    using inv by (auto simp: index_inv_iff)
  have "subs_exact (reg_all register_key h ks cid c) (insert c L)"
    using se c fresh by (auto simp: subs_exact_def hubidx.subs_reg_all [OF wf] split: if_splits)
  moreover have "clients_exact (reg_all register_key h ks cid c) (insert c L)"
    using ce c fresh by (auto simp: clients_exact_def reg_all_clients [OF wf] split: if_splits)
  moreover have "inj_on (\<lambda>c. cl_ID (h_heap h c)) (insert c L)"
    unfolding inj_on_insert using inj c(1,3) fresh by fastforce
  ultimately show ?thesis
    using hubidx.inv_reg_all [OF wf] by (simp add: index_inv_iff)
qed

lemma live_sessions_insert:
  "finite L \<Longrightarrow> c \<notin> L \<Longrightarrow> live_sessions hp (insert c L) = add_mset (client_session (hp c)) (live_sessions hp L)"
  by (simp add: live_sessions_def)

lemma live_sessions_remove:
  "finite L \<Longrightarrow> c \<in> L \<Longrightarrow> live_sessions hp (L - {c}) = live_sessions hp L - {#client_session (hp c)#}"
  by (metis Diff_iff add_mset_remove_trivial finite_Diff insert_Diff insertI1 live_sessions_insert)

text \<open>A successful registration adds its client to the live ones.\<close>

lemma Register_inv:
  assumes inv: "hub_inv h L" and reg: "Hub_Register h c ks = Inr h'"
    and c: "c \<notin> L" "cl_Topics (h_heap h c) = ks" "\<not> cl_unregistered (h_heap h c)"
    and fresh: "\<And>d. d \<in> L \<Longrightarrow> cl_ID (h_heap h d) \<noteq> cl_ID (h_heap h c)"
  shows "hub_inv h' (insert c L)"
proof -
  let ?t = "cl_TenantID (h_heap h c)" and ?u = "cl_UserID (h_heap h c)"
  obtain q where acq: "Acquire (h_quotas h) ?t ?u = Inr q"
    and h': "h' = reg_all register_key (h\<lparr>h_quotas := q\<rparr>) ks (cl_ID (h_heap h c)) c"
    using reg by (auto simp: Hub_Register_def split: if_splits sum.splits)
  have fin: "finite L" using inv by (simp add: hub_inv_def heap_inv_def)
  have "index_inv (h\<lparr>h_quotas := q\<rparr>) L"
    using inv by (auto simp: hub_inv_def intro: index_inv_frame)
  then have "index_inv h' (insert c L)"
    unfolding h' using c fresh by (intro Register_index) auto
  moreover have "quota_inv h' (insert c L)"
    using inv acq Acquire_rep [OF _ acq] Acquire_within [OF _ _ acq] fin c(1)
    by (simp add: h' hub_inv_def quota_inv_def live_sessions_insert client_session_def)
  moreover have "heap_inv h' (insert c L)"
    using inv c by (simp add: h' hub_inv_def heap_inv_def)
  ultimately show ?thesis by (simp add: hub_inv_def)
qed

subsection \<open>Unregistration\<close>

lemma Unregister_index:
  assumes inv: "index_inv h L" and c: "c \<in> L"
  shows "index_inv (unreg_all unregister_key h (cl_Topics (h_heap h c)) (cl_ID (h_heap h c))) (L - {c})"
proof -
  let ?h = "unreg_all unregister_key h (cl_Topics (h_heap h c)) (cl_ID (h_heap h c))"
  have wf: "hub_wf h" and se: "subs_exact h L" and ce: "clients_exact h L" and inj: "inj_on (\<lambda>c. cl_ID (h_heap h c)) L"
    using inv by (auto simp: index_inv_iff)
  have ids: "cl_ID (h_heap h d) = cl_ID (h_heap h c) \<longleftrightarrow> d = c" if "d \<in> L" for d
    using inj c that by (auto simp: inj_on_def)
  have "subs_exact ?h (L - {c})"
    using se c ids by (auto simp: subs_exact_def hubidx.subs_unreg_all [OF wf] split: if_splits)
  moreover have "clients_exact ?h (L - {c})"
    using ce c ids by (auto simp: clients_exact_def unreg_all_clients [OF wf] split: if_splits)
  moreover have "inj_on (\<lambda>c. cl_ID (h_heap h c)) (L - {c})"
    using inj by (rule inj_on_subset) blast
  ultimately show ?thesis
    using hubidx.inv_unreg_all [OF wf] by (simp add: index_inv_iff)
qed

lemma Unregister_noop: "cl_unregistered (h_heap h c) \<Longrightarrow> Unregister h (Some c) = h"
  by (simp add: Unregister_def MarkUnregistered_def)

lemma Unregister_marks:
  "cl_unregistered (h_heap (Unregister h (Some c)) c)"
  by (simp add: Unregister_def MarkUnregistered_def Let_def Client_Close_def)

text \<open>Marking and closing a client, the first half of \<^verbatim>\<open>Unregister\<close>.\<close>

definition retire :: "client \<Rightarrow> client" where
  "retire cl = Client_Close (cl\<lparr>cl_unregistered := True\<rparr>)"

lemma retire_simps [simp]:
  "same_identity (retire cl) cl" "cl_unregistered (retire cl)" "cl_queue (retire cl) = cl_queue cl"
  "cl_Topics (retire cl) = cl_Topics cl" "cl_ID (retire cl) = cl_ID cl"
  "cl_TenantID (retire cl) = cl_TenantID cl" "cl_UserID (retire cl) = cl_UserID cl"
  by (simp_all add: retire_def Client_Close_def same_identity_def)

lemma retire_wf [simp]: "client_wf cl \<Longrightarrow> client_wf (retire cl)" "client_wf cl \<Longrightarrow> cl_closed (retire cl)"
  by (auto simp: retire_def client_wf_def Client_Close_def)

lemma Unregister_live:
  assumes "\<not> cl_unregistered (h_heap h c)"
  shows "Unregister h (Some c) =
    (let h1 = h\<lparr>h_heap := (h_heap h)(c := retire (h_heap h c))\<rparr>;
         h2 = unreg_all unregister_key h1 (cl_Topics (h_heap h c)) (cl_ID (h_heap h c))
     in h2\<lparr>h_quotas := Release (h_quotas h) (cl_TenantID (h_heap h c)) (cl_UserID (h_heap h c))\<rparr>)"
  using assms by (simp add: Unregister_def MarkUnregistered_def Let_def retire_def)

text \<open>Releasing the quota of a live client while retiring it.\<close>

lemma retire_quota:
  assumes q: "quota_inv h L" and fin: "finite L" and c: "c \<in> L"
    and h': "h_heap h' = (h_heap h)(c := retire (h_heap h c))" "h_limits h' = h_limits h"
      "h_quotas h' = Release (h_quotas h) (cl_TenantID (h_heap h c)) (cl_UserID (h_heap h c))"
  shows "quota_inv h' (L - {c})"
proof -
  have sc: "same_clients (h_heap h') (h_heap h)" by (simp add: h')
  have ses: "live_sessions (h_heap h') (L - {c}) = live_sessions (h_heap h) L - {#client_session (h_heap h c)#}"
    using same_clients_sessions [OF sc, of "L - {c}"] live_sessions_remove [OF fin c] by simp
  have mem: "(cl_TenantID (h_heap h c), cl_UserID (h_heap h c)) \<in># live_sessions (h_heap h) L"
    using fin c by (auto simp: live_sessions_def client_session_def)
  show ?thesis
    using q Release_rep [OF _ mem] within_limits_subset [of "h_limits h" "live_sessions (h_heap h) L"]
    by (auto simp: h'(2,3) quota_inv_def ses client_session_def)
qed

lemma Unregister_inv:
  assumes inv: "hub_inv h L" and c: "c \<in> L"
  shows "hub_inv (Unregister h (Some c)) (L - {c})"
proof -
  let ?cl = "h_heap h c"
  let ?hp = "(h_heap h)(c := retire ?cl)"
  let ?h1 = "h\<lparr>h_heap := ?hp\<rparr>"
  let ?h2 = "unreg_all unregister_key ?h1 (cl_Topics ?cl) (cl_ID ?cl)"
  have live: "\<not> cl_unregistered ?cl" and fin: "finite L" using inv c by (auto simp: hub_inv_def heap_inv_def)
  have h': "Unregister h (Some c) = ?h2\<lparr>h_quotas := Release (h_quotas h) (cl_TenantID ?cl) (cl_UserID ?cl)\<rparr>"
    using Unregister_live [OF live] by (simp add: Let_def)
  have sc: "same_clients ?hp (h_heap h)" by simp
  have "index_inv ?h1 L"
    using inv sc by (auto simp: hub_inv_def intro: index_inv_frame)
  then have "index_inv ?h2 (L - {c})"
    using Unregister_index [of ?h1 L c] c by simp
  then have "index_inv (Unregister h (Some c)) (L - {c})"
    unfolding h' by (rule index_inv_frame) simp_all
  moreover have "quota_inv (Unregister h (Some c)) (L - {c})"
    using inv by (intro retire_quota [OF _ fin c]) (simp_all add: hub_inv_def h')
  moreover have "heap_inv (Unregister h (Some c)) (L - {c})"
    using inv by (auto simp: h' hub_inv_def heap_inv_def)
  ultimately show ?thesis by (simp add: hub_inv_def)
qed

subsection \<open>Invalidation\<close>

abbreviation release_one :: "hub \<Rightarrow> ref \<Rightarrow> hub" where
  "release_one h c \<equiv> h\<lparr>h_heap := (h_heap h)(c := retire (h_heap h c)),
     h_quotas := Release (h_quotas h) (cl_TenantID (h_heap h c)) (cl_UserID (h_heap h c))\<rparr>"

lemma release_matched_step:
  "release_matched h (c # cs) =
    (if cl_unregistered (h_heap h c) then release_matched h cs
     else (fst (release_matched (release_one h c) cs), snd (release_matched (release_one h c) cs) + 1))"
  by (simp add: MarkUnregistered_def retire_def split: prod.split)

declare release_matched.simps(2) [simp del]
declare release_matched_step [simp]

lemma release_matched_heap:
  "h_heap (fst (release_matched h cs)) =
     (\<lambda>c. if c \<in> set cs \<and> \<not> cl_unregistered (h_heap h c) then retire (h_heap h c) else h_heap h c)"
  by (induction cs arbitrary: h) (auto simp: fun_eq_iff)

lemma release_matched_fields [simp]:
  "h_shards (fst (release_matched h cs)) = h_shards h" "h_numShards (fst (release_matched h cs)) = h_numShards h"
  "h_limits (fst (release_matched h cs)) = h_limits h" "h_closed (fst (release_matched h cs)) = h_closed h"
  by (induction cs arbitrary: h) simp_all

lemma release_matched_same_clients: "same_clients (h_heap (fst (release_matched h cs))) (h_heap h)"
  by (simp add: same_clients_def release_matched_heap)

lemma release_matched_append:
  "release_matched h (cs @ ds) =
     (case release_matched h cs of (h1, n) \<Rightarrow> case release_matched h1 ds of (h2, m) \<Rightarrow> (h2, n + m))"
  by (induction cs arbitrary: h) (simp_all add: case_prod_unfold)

lemma release_matched_shards:
  "release_matched (h\<lparr>h_shards := ss\<rparr>) cs =
     (case release_matched h cs of (h', n) \<Rightarrow> (h'\<lparr>h_shards := ss\<rparr>, n))"
proof (induction cs arbitrary: h)
  case (Cons c cs)
  show ?case
  proof (cases "cl_unregistered (h_heap h c)")
    case False
    have eq: "release_one (h\<lparr>h_shards := ss\<rparr>) c = (release_one h c)\<lparr>h_shards := ss\<rparr>" by simp
    have "release_matched (h\<lparr>h_shards := ss\<rparr>) (c # cs) =
      (fst (release_matched (release_one (h\<lparr>h_shards := ss\<rparr>) c) cs),
       snd (release_matched (release_one (h\<lparr>h_shards := ss\<rparr>) c) cs) + 1)"
      using False by simp
    then show ?thesis
      unfolding eq Cons.IH [of "release_one h c"] using False by (simp add: case_prod_unfold)
  qed (use Cons in simp)
qed simp

text \<open>Each listed live client is released exactly once, however often it is listed.\<close>

lemma release_matched_quota:
  assumes "quota_inv h L" and "finite L" and "\<And>c. c \<in> set cs \<Longrightarrow> c \<in> L \<longleftrightarrow> \<not> cl_unregistered (h_heap h c)"
  shows "quota_inv (fst (release_matched h cs)) (L - set cs) \<and> snd (release_matched h cs) = int (card (L \<inter> set cs))"
  using assms
proof (induction cs arbitrary: h L)
  case Nil
  then show ?case by simp
next
  case (Cons c cs)
  show ?case
  proof (cases "c \<in> L")
    case True
    let ?h = "release_one h c"
    have live: "\<not> cl_unregistered (h_heap h c)" using True Cons.prems(3) [of c] by simp
    have q: "quota_inv ?h (L - {c})"
      using Cons.prems(1,2) True by (rule retire_quota) simp_all
    have cs: "d \<in> L - {c} \<longleftrightarrow> \<not> cl_unregistered (h_heap ?h d)" if "d \<in> set cs" for d
      using Cons.prems(3) [of d] that by auto
    have "quota_inv (fst (release_matched ?h cs)) (L - {c} - set cs) \<and>
      snd (release_matched ?h cs) = int (card ((L - {c}) \<inter> set cs))"
      using Cons.prems(2) by (intro Cons.IH q cs) auto
    moreover have "L - {c} - set cs = L - set (c # cs)" by auto
    moreover have "L \<inter> set (c # cs) = insert c ((L - {c}) \<inter> set cs)" using True by auto
    then have "card (L \<inter> set (c # cs)) = Suc (card ((L - {c}) \<inter> set cs))"
      using Cons.prems(2) by simp
    ultimately show ?thesis using live by simp
  next
    case False
    then have "cl_unregistered (h_heap h c)" using Cons.prems(3) [of c] by simp
    moreover have "L - set cs = L - set (c # cs)" "L \<inter> set (c # cs) = L \<inter> set cs" using False by auto
    ultimately show ?thesis using Cons.IH [OF Cons.prems(1,2)] Cons.prems(3) by simp
  qed
qed

lemma Shard_InvalidateUser_cong:
  assumes "same_clients hp' hp"
  shows "Shard_InvalidateUser ord hp' s t u = Shard_InvalidateUser ord hp s t u"
  by (simp add: Shard_InvalidateUser_def Let_def same_clients_fields [OF assms])

text \<open>The whole call: every shard purged, and the clients they matched released in turn.\<close>

definition invalidated :: "client_order \<Rightarrow> hub \<Rightarrow> string \<Rightarrow> string \<Rightarrow> ref list" where
  "invalidated ord h t u = concat (map (\<lambda>s. snd (Shard_InvalidateUser ord (h_heap h) s t u)) (h_shards h))"

lemma InvalidateUser_prefix:
  "k \<le> length (h_shards h) \<Longrightarrow>
   foldl (invalidate_shard ord t u) (h, 0) [0..<k] =
     (case release_matched h (concat (map (\<lambda>s. snd (Shard_InvalidateUser ord (h_heap h) s t u)) (take k (h_shards h)))) of
        (h', m) \<Rightarrow>
          (h'\<lparr>h_shards := map (\<lambda>s. fst (Shard_InvalidateUser ord (h_heap h) s t u)) (take k (h_shards h)) @
                          drop k (h_shards h)\<rparr>, m))"
proof (induction k)
  case 0
  then show ?case by simp
next
  case (Suc k)
  let ?I = "\<lambda>s. Shard_InvalidateUser ord (h_heap h) s t u"
  let ?ss = "h_shards h"
  let ?ms = "concat (map (\<lambda>s. snd (?I s)) (take k ?ss))"
  obtain h1 m1 where rel: "release_matched h ?ms = (h1, m1)" by fastforce
  have k: "k < length ?ss" using Suc.prems by simp
  have sc: "same_clients (h_heap h1) (h_heap h)"
    using release_matched_same_clients [of h ?ms] rel by simp
  obtain s ms where I: "?I (?ss ! k) = (s, ms)" by fastforce
  obtain h2 m2 where rel2: "release_matched h1 ms = (h2, m2)" by fastforce
  have nth: "(map (\<lambda>s. fst (?I s)) (take k ?ss) @ drop k ?ss) ! k = ?ss ! k"
    using k by (simp add: nth_append)
  have upd: "(map (\<lambda>s. fst (?I s)) (take k ?ss) @ drop k ?ss)[k := s] =
      map (\<lambda>s. fst (?I s)) (take (Suc k) ?ss) @ drop (Suc k) ?ss"
    using k I by (simp add: list_update_append take_Suc_conv_app_nth Cons_nth_drop_Suc [symmetric])
  have ms: "concat (map (\<lambda>s. snd (?I s)) (take (Suc k) ?ss)) = ?ms @ ms"
    using k I by (simp add: take_Suc_conv_app_nth)
  have "foldl (invalidate_shard ord t u) (h, 0) [0..<Suc k] =
    invalidate_shard ord t u (h1\<lparr>h_shards := map (\<lambda>s. fst (?I s)) (take k ?ss) @ drop k ?ss\<rparr>, m1) k"
    using Suc rel by simp
  also have "\<dots> = (h2\<lparr>h_shards := map (\<lambda>s. fst (?I s)) (take (Suc k) ?ss) @ drop (Suc k) ?ss\<rparr>, m1 + m2)"
    using rel2 I by (simp add: invalidate_shard_def nth upd Shard_InvalidateUser_cong [OF sc] release_matched_shards)
  finally show ?case
    using rel rel2 unfolding ms by (simp add: release_matched_append)
qed

lemma InvalidateUser_eq:
  "InvalidateUser ord h t u =
     (case release_matched h (invalidated ord h t u) of
        (h', m) \<Rightarrow> (h'\<lparr>h_shards := map (\<lambda>s. fst (Shard_InvalidateUser ord (h_heap h) s t u)) (h_shards h)\<rparr>, m))"
  using InvalidateUser_prefix [of "length (h_shards h)" h] by (simp add: InvalidateUser_def invalidated_def)

lemma invalidated_set:
  assumes inv: "index_inv h L" and ord: "range_order ord"
  shows "set (invalidated ord h t u) =
    {c \<in> L. user_matches (h_heap h) t u c \<and> cl_Topics (h_heap h c) \<noteq> []}"
proof -
  have wf: "hub_wf h" using inv by (simp add: index_inv_def)
  let ?U = "user_matches (h_heap h) t u"
  have "set (snd (Shard_InvalidateUser ord (h_heap h) (h_shards h ! i) t u)) =
      {c \<in> L. ?U c \<and> (\<exists>key \<in> set (cl_Topics (h_heap h c)). getShard h key = i)}"
    if "i < length (h_shards h)" for i
    using Invalidate_matched_set [OF index_inv_shard(1) [OF inv that] ord] index_inv_clients [OF inv that] by auto
  then have "set (invalidated ord h t u) =
      (\<Union>i < length (h_shards h). {c \<in> L. ?U c \<and> (\<exists>key \<in> set (cl_Topics (h_heap h c)). getShard h key = i)})"
    by (simp only: invalidated_def set_concat_map_nth) simp
  also have "\<dots> = {c \<in> L. ?U c \<and> cl_Topics (h_heap h c) \<noteq> []}"
    using getShard_less [OF wf] by (fastforce simp: neq_Nil_conv)
  finally show ?thesis .
qed

lemma hub_wf_map:
  assumes wf: "hub_wf h" and g: "\<And>i. i < length (h_shards h) \<Longrightarrow> shard_wf (g (h_shards h ! i))"
    and subs: "\<And>i key. i < length (h_shards h) \<Longrightarrow> shard_subs (h_shards h ! i) key = Map.empty \<Longrightarrow>
      shard_subs (g (h_shards h ! i)) key = Map.empty"
  shows "hub_wf (h\<lparr>h_shards := map g (h_shards h)\<rparr>)"
proof -
  have "getShard (h\<lparr>h_shards := map g (h_shards h)\<rparr>) = getShard h" by (simp add: getShard_def fun_eq_iff)
  moreover have "i = getShard h key"
    if "i < length (h_shards h)" "shard_subs (g (h_shards h ! i)) key \<noteq> Map.empty" for i key
    using wf that subs [of i key] unfolding hub_wf_def by blast
  ultimately show ?thesis
    using wf g by (simp add: hub_wf_def list_all_length)
qed

lemma Invalidate_index:
  assumes inv: "index_inv h L" and ord: "range_order ord"
  shows "index_inv (h\<lparr>h_shards := map (\<lambda>s. fst (Shard_InvalidateUser ord (h_heap h) s t u)) (h_shards h)\<rparr>)
    (L - {c \<in> L. user_matches (h_heap h) t u c \<and> cl_Topics (h_heap h c) \<noteq> []})"
proof -
  let ?I = "\<lambda>s. fst (Shard_InvalidateUser ord (h_heap h) s t u)"
  let ?h = "h\<lparr>h_shards := map ?I (h_shards h)\<rparr>"
  have wf: "hub_wf h" and inj: "inj_on (\<lambda>c. cl_ID (h_heap h c)) L" using inv by (auto simp: index_inv_def)
  have subs: "shard_subs (?I (h_shards h ! i)) key cid = (case shard_subs (h_shards h ! i) key cid of
      None \<Rightarrow> None | Some c \<Rightarrow> if user_matches (h_heap h) t u c then None else Some c)"
    if "i < length (h_shards h)" for i key cid
    using that inv ord by (intro Invalidate_subs) (auto intro: index_inv_shard index_inv_ids)
  have wf': "hub_wf ?h"
    using wf subs by (intro hub_wf_map) (auto simp: hub_wf_shard Invalidate_wf fun_eq_iff)
  have g: "getShard ?h = getShard h" by (simp add: getShard_def fun_eq_iff)
  have hs: "hub_subs ?h key cid = (case hub_subs h key cid of
      None \<Rightarrow> None | Some c \<Rightarrow> if user_matches (h_heap h) t u c then None else Some c)" for key cid
    using subs [OF getShard_less [OF wf, of key]] getShard_less [OF wf, of key] by (simp add: hub_subs_def g)
  have sync: "list_all shard_sync (map ?I (h_shards h))"
    unfolding list_all_length using inv ord
    by (auto intro!: Invalidate_sync intro: index_inv_shard index_inv_ids)
  have "hub_subs h key cid = Some c \<and> \<not> user_matches (h_heap h) t u c \<longleftrightarrow>
      c \<in> L - {c \<in> L. user_matches (h_heap h) t u c \<and> cl_Topics (h_heap h c) \<noteq> []} \<and>
      cl_ID (h_heap h c) = cid \<and> key \<in> set (cl_Topics (h_heap h c))" for key cid c
    using inv by (auto simp: index_inv_def)
  then show ?thesis
    using wf' sync inj inj_on_subset [OF inj, of "L - _"]
    unfolding index_inv_def hs kept_iff by (simp add: Diff_subset)
qed

text \<open>
  An invalidation removes exactly the live clients of the user (those with at least one
  topic, which is all of them when tickets are validated), and reports how many they were.
\<close>

lemma InvalidateUser_inv:
  assumes inv: "hub_inv h L" and ord: "range_order ord"
  shows "hub_inv (fst (InvalidateUser ord h t u)) (L - user_live h L t u) \<and>
    snd (InvalidateUser ord h t u) = int (card (user_live h L t u)) \<and>
    h_heap (fst (InvalidateUser ord h t u)) =
      (\<lambda>c. if c \<in> user_live h L t u then retire (h_heap h c) else h_heap h c)"
proof -
  let ?gone = "user_live h L t u"
  let ?ms = "invalidated ord h t u"
  let ?I = "\<lambda>s. fst (Shard_InvalidateUser ord (h_heap h) s t u)"
  obtain h1 m where rel: "release_matched h ?ms = (h1, m)" by fastforce
  have res: "InvalidateUser ord h t u = (h1\<lparr>h_shards := map ?I (h_shards h)\<rparr>, m)"
    using rel by (simp add: InvalidateUser_eq)
  have ii: "index_inv h L" and qi: "quota_inv h L" and hi: "heap_inv h L"
    using inv by (auto simp: hub_inv_def)
  have ms: "set ?ms = ?gone" unfolding user_live_def by (rule invalidated_set [OF ii ord])
  have live: "c \<in> L \<longleftrightarrow> \<not> cl_unregistered (h_heap h c)" if "c \<in> set ?ms" for c
    using that hi by (auto simp: ms user_live_def heap_inv_def)
  have fin: "finite L" using hi by (simp add: heap_inv_def)
  have q: "quota_inv h1 (L - ?gone)" "m = int (card ?gone)"
    using release_matched_quota [of h L ?ms, OF qi fin live] rel Int_absorb1 [of ?gone L]
    by (auto simp: ms user_live_def)
  have heap1: "h_heap h1 = (\<lambda>c. if c \<in> ?gone then retire (h_heap h c) else h_heap h c)"
  proof -
    have "\<not> cl_unregistered (h_heap h c)" if "c \<in> ?gone" for c
      using that live [of c] ms by (simp add: user_live_def)
    then show ?thesis using release_matched_heap [of h ?ms] rel by (auto simp: ms fun_eq_iff)
  qed
  have f1: "h_numShards h1 = h_numShards h" "same_clients (h_heap h1) (h_heap h)"
    using release_matched_fields(2) [of h ?ms] release_matched_same_clients [of h ?ms] rel by auto
  have "index_inv (h1\<lparr>h_shards := map ?I (h_shards h)\<rparr>) (L - ?gone)"
    by (rule index_inv_frame [OF Invalidate_index [OF ii ord, of t u, folded user_live_def]]) (simp_all add: f1)
  moreover have "quota_inv (h1\<lparr>h_shards := map ?I (h_shards h)\<rparr>) (L - ?gone)"
    using q(1) by (simp add: quota_inv_def)
  moreover have "heap_inv (h1\<lparr>h_shards := map ?I (h_shards h)\<rparr>) (L - ?gone)"
    using hi by (auto simp: heap_inv_def heap1)
  ultimately show ?thesis
    using q(2) by (simp add: hub_inv_def res heap1)
qed

subsection \<open>Broadcasts and shutdown\<close>

lemma fanout_shards: "(\<And>c. client_wf (h_heap h c)) \<Longrightarrow> h_shards (fst (fanout h cs f)) = h_shards h"
  using fanout_wf(2) by (simp add: same_frame_def)

text \<open>The heartbeat loop is one fan-out over the clients of all shards, with repetitions.\<close>

lemma BroadcastHeartbeat_eq:
  "BroadcastHeartbeat ord h f = fst (fanout h (concat (map (GetAllClients ord) (h_shards h))) f)"
proof -
  have "foldl (\<lambda>h s. fst (fanout h (GetAllClients ord s) f)) g ss =
    fst (fanout g (concat (map (GetAllClients ord) ss)) f)" for g ss
    by (induction ss arbitrary: g) (simp_all add: fanout_append)
  then show ?thesis by (simp add: BroadcastHeartbeat_def)
qed

lemma close_clients_heap:
  "h_heap (close_clients h cs) = (\<lambda>c. if c \<in> set cs then Client_Close (h_heap h c) else h_heap h c)"
  unfolding close_clients_def by (induction cs arbitrary: h) (auto simp: fun_eq_iff)

lemma close_clients_fields [simp]:
  "h_shards (close_clients h cs) = h_shards h" "h_numShards (close_clients h cs) = h_numShards h"
  "h_limits (close_clients h cs) = h_limits h" "h_quotas (close_clients h cs) = h_quotas h"
  "h_closed (close_clients h cs) = h_closed h" "h_heartbeat (close_clients h cs) = h_heartbeat h"
  unfolding close_clients_def by (induction cs arbitrary: h) simp_all

lemma close_clients_append: "close_clients h (cs @ ds) = close_clients (close_clients h cs) ds"
  by (simp add: close_clients_def)

lemma Hub_Close_eq:
  "\<not> h_closed h \<Longrightarrow> Hub_Close ord h =
     close_clients (h\<lparr>h_closed := True, h_heartbeat := None\<rparr>) (concat (map (GetAllClients ord) (h_shards h)))"
proof -
  have "foldl (\<lambda>h s. close_clients h (GetAllClients ord s)) g ss =
    close_clients g (concat (map (GetAllClients ord) ss))" for g ss
    by (induction ss arbitrary: g) (simp_all add: close_clients_append, simp add: close_clients_def)
  then show "\<not> h_closed h \<Longrightarrow> ?thesis" by (simp add: Hub_Close_def Let_def)
qed

text \<open>The clients that a walk over all shards visits: the live ones that have a topic.\<close>

lemma all_clients_set:
  assumes inv: "index_inv h L" and ord: "range_order ord"
  shows "set (concat (map (GetAllClients ord) (h_shards h))) = {c \<in> L. cl_Topics (h_heap h c) \<noteq> []}"
proof -
  have wf: "hub_wf h" using inv by (simp add: index_inv_def)
  have "set (GetAllClients ord (h_shards h ! i)) =
    {c \<in> L. \<exists>key \<in> set (cl_Topics (h_heap h c)). getShard h key = i}" if "i < length (h_shards h)" for i
    using GetAllClients_set [OF index_inv_shard(1) [OF inv that] ord] index_inv_clients [OF inv that] by simp
  then have "set (concat (map (GetAllClients ord) (h_shards h))) =
    (\<Union>i < length (h_shards h). {c \<in> L. \<exists>key \<in> set (cl_Topics (h_heap h c)). getShard h key = i})"
    by (simp only: set_concat_map_nth) simp
  also have "\<dots> = {c \<in> L. cl_Topics (h_heap h c) \<noteq> []}"
    using getShard_less [OF wf] by (fastforce simp: neq_Nil_conv)
  finally show ?thesis .
qed

lemma Hub_Close_inv:
  assumes inv: "hub_inv h L"
  shows "hub_inv (Hub_Close ord h) L"
proof (cases "h_closed h")
  case True
  with inv show ?thesis by (simp add: Hub_Close_def)
next
  case False
  show ?thesis
    using inv by (intro hub_inv_frame [OF inv])
      (auto simp: Hub_Close_eq [OF False] close_clients_heap same_frame_def same_clients_def hub_inv_def
        heap_inv_def Close_wf)
qed

lemma ConditionalBroadcast_inv:
  assumes "hub_inv h L"
  shows "hub_inv (fst (ConditionalBroadcast ord h x key cb)) L"
proof -
  have upd: "hub_inv (h1\<lparr>h_fanoutCalls := n\<rparr>) L" if h1: "hub_inv h1 L" for h1 n
    by (rule hub_inv_frame [OF h1]) (use h1 in \<open>auto simp: same_frame_def hub_inv_def heap_inv_def\<close>)
  show ?thesis
    using assms fanout_inv [OF assms] upd
    by (auto simp: ConditionalBroadcast_def Let_def split: prod.split sum.split option.split)
      (metis fst_conv)+
qed

end
