(* ===== verification/Hub_Reach.thy ===== *)
theory Hub_Reach
  imports Hub_Invariant
begin

text \<open>
  The hub as a state machine. \<open>hub_reach\<close> relates the states that the gateway's use of the
  hub can produce: connections are admitted by \<^verbatim>\<open>Handler.admit\<close> (a new client object with a
  fresh identifier, registered under its own topics), left by the deferred \<^verbatim>\<open>Unregister\<close> of
  \<^verbatim>\<open>Handler.Events\<close>, drained by its streaming loop, and in between events are broadcast,
  heartbeats sent, users invalidated and the hub closed, in any order. The ghost set holds
  the clients that were ever registered; the live ones are those not yet marked
  unregistered. Each operation is one step here; \<open>Hub_Concurrent\<close> splits them.
\<close>

section \<open>Definitions\<close>

definition live :: "hub \<Rightarrow> ref set \<Rightarrow> ref set" where
  "live h R = {c \<in> R. \<not> cl_unregistered (h_heap h c)}"

text \<open>
  \<^verbatim>\<open>client := hub.NewClient(...)\<close> stores a new object at an address not used before. Its
  identifier is new (12 random bytes) and its topics are those of a validated ticket, at
  least one.
\<close>

definition alloc_client :: "hub \<Rightarrow> ref \<Rightarrow> client \<Rightarrow> hub" where
  "alloc_client h c cl = h\<lparr>h_heap := (h_heap h)(c := cl)\<rparr>"

definition fresh_client :: "hub \<Rightarrow> ref set \<Rightarrow> ref \<Rightarrow> client \<Rightarrow> bool" where
  "fresh_client h R c cl \<longleftrightarrow> c \<notin> R \<and> client_wf cl \<and> \<not> cl_unregistered cl \<and> cl_Topics cl \<noteq> [] \<and>
     (\<forall>d \<in> R. cl_ID (h_heap h d) \<noteq> cl_ID cl)"

text \<open>The streaming loop of a connection takes one frame from its queue, if there is one.\<close>

definition drain_one :: "hub \<Rightarrow> ref \<Rightarrow> hub" where
  "drain_one h c = (case DequeueFrame (h_heap h c) of
     None \<Rightarrow> h | Some (_, cl) \<Rightarrow> h\<lparr>h_heap := (h_heap h)(c := cl)\<rparr>)"

type_synonym build_result = "string + frame option"

inductive hub_reach :: "client_order \<Rightarrow> int \<Rightarrow> limits_config \<Rightarrow> hub \<Rightarrow> ref set \<Rightarrow> bool"
  for ord :: client_order and n :: int and lim :: limits_config where
  start: "(\<And>c. client_wf (hp c)) \<Longrightarrow> hub_reach ord n lim (NewHub hp n lim) {}"
| callbacks: "hub_reach ord n lim h R \<Longrightarrow> hub_reach ord n lim (SetObservabilityCallbacks h a b) R"
| heartbeat_on: "hub_reach ord n lim h R \<Longrightarrow> hub_reach ord n lim (StartHeartbeat h i p) R"
| admitted: "hub_reach ord n lim h R \<Longrightarrow> fresh_client h R c cl \<Longrightarrow>
    Hub_Register (alloc_client h c cl) c (cl_Topics cl) = Inr h' \<Longrightarrow> hub_reach ord n lim h' (insert c R)"
| refused: "hub_reach ord n lim h R \<Longrightarrow> fresh_client h R c cl \<Longrightarrow>
    Hub_Register (alloc_client h c cl) c (cl_Topics cl) = Inl err \<Longrightarrow>
    hub_reach ord n lim (alloc_client h c cl) R"
| left: "hub_reach ord n lim h R \<Longrightarrow> c \<in> R \<Longrightarrow> hub_reach ord n lim (Unregister h (Some c)) R"
| broadcast: "hub_reach ord n lim h R \<Longrightarrow>
    hub_reach ord n lim (fst (ConditionalBroadcast ord h () key (\<lambda>_. ((), built :: build_result)))) R"
| heartbeat: "hub_reach ord n lim h R \<Longrightarrow> hub_reach ord n lim (BroadcastHeartbeat ord h f) R"
| drained: "hub_reach ord n lim h R \<Longrightarrow> hub_reach ord n lim (drain_one h c) R"
| invalidated: "hub_reach ord n lim h R \<Longrightarrow> hub_reach ord n lim (fst (InvalidateUser ord h t u)) R"
| closed: "hub_reach ord n lim h R \<Longrightarrow> hub_reach ord n lim (Hub_Close ord h) R"

text \<open>
  What the callback does to its caller's state does not matter to the hub, only the frame or
  error it returns: \<open>built\<close> ranges over both.
\<close>

inductive_cases hub_reach_elim: "hub_reach ord n lim h R"

section \<open>Lemmas\<close>

lemma NewHub_inv:
  assumes "n < 2 ^ 32" and "\<And>c. client_wf (hp c)"
  shows "hub_inv (NewHub hp n lim) {}"
proof -
  have "hub_wf (NewHub hp n lim)" using assms(1) by (rule NewHub_wf)
  moreover have "hub_subs (NewHub hp n lim) key = Map.empty" for key
    using getShard_less [OF calculation, of key] by (simp add: hub_subs_def NewHub_def Let_def)
  moreover have "q_limits (NewQuotaTracker lim) = lim" by (simp add: NewQuotaTracker_def)
  ultimately show ?thesis
    using assms(2)
    by (auto simp: hub_inv_def index_inv_def quota_inv_def heap_inv_def list_all_iff NewHub_def Let_def
        live_sessions_def within_limits_def)
qed


lemma alloc_inv:
  assumes inv: "hub_inv h L" and c: "c \<notin> L" "client_wf cl"
  shows "hub_inv (alloc_client h c cl) L"
proof -
  let ?h = "alloc_client h c cl"
  have heap: "h_heap ?h d = h_heap h d" if "d \<in> L" for d using that c by (auto simp: alloc_client_def)
  have fin: "finite L" using inv by (simp add: hub_inv_def heap_inv_def)
  have ses: "live_sessions (h_heap ?h) L = live_sessions (h_heap h) L"
    using fin by (auto simp: live_sessions_def heap intro!: image_mset_cong)
  have same: "h_shards ?h = h_shards h" "hub_subs ?h = hub_subs h" "hub_wf ?h = hub_wf h"
    by (simp_all add: alloc_client_def hub_subs_def getShard_def hub_wf_def fun_eq_iff)
  have "index_inv ?h L"
    using inv heap by (auto simp: hub_inv_def index_inv_def same cong: inj_on_cong)
  moreover have "quota_inv ?h L" using inv ses by (simp add: hub_inv_def quota_inv_def alloc_client_def)
  moreover have "heap_inv ?h L"
    using inv c by (auto simp: hub_inv_def heap_inv_def alloc_client_def)
  ultimately show ?thesis by (simp add: hub_inv_def)
qed


text \<open>Which clients are marked, and which limits apply, after each operation.\<close>

lemma fanout_unregistered:
  assumes "\<And>d. client_wf (h_heap h d)"
  shows "cl_unregistered (h_heap (fst (fanout h cs f)) c) = cl_unregistered (h_heap h c)"
  unfolding fanout_heap by (rule enqueue_run_unregistered) (rule assms)

lemma BroadcastHeartbeat_inv: "hub_inv h L \<Longrightarrow> hub_inv (BroadcastHeartbeat ord h f) L"
  by (simp add: BroadcastHeartbeat_eq fanout_inv)

lemma live_fanout: "hub_inv h L \<Longrightarrow> live (fst (fanout h cs f)) R = live h R"
  by (simp add: live_def fanout_unregistered hub_inv_def heap_inv_def)

text \<open>The call of the fan-out callback, if one is installed.\<close>

definition note_fanout :: "hub \<Rightarrow> hub" where
  "note_fanout h = h\<lparr>h_fanoutCalls := (if h_onFanout h then Suc (h_fanoutCalls h) else h_fanoutCalls h)\<rparr>"

lemma ConditionalBroadcast_eq:
  "ConditionalBroadcast ord h x key cb =
     (if hub_recipients ord h key = [] then (h, x, Inr 0)
      else case snd (cb x) of
        Inl err \<Rightarrow> (h, fst (cb x), Inl err)
      | Inr None \<Rightarrow> (h, fst (cb x), Inr 0)
      | Inr (Some f) \<Rightarrow>
          (note_fanout (fst (fanout h (hub_recipients ord h key) f)), fst (cb x),
           Inr (snd (fanout h (hub_recipients ord h key) f))))"
  by (simp add: ConditionalBroadcast_def hub_recipients_def note_fanout_def Let_def case_prod_unfold
      split: sum.split option.split)

lemma note_fanout_fields [simp]:
  "h_heap (note_fanout h) = h_heap h" "h_limits (note_fanout h) = h_limits h"
  "h_shards (note_fanout h) = h_shards h" "h_closed (note_fanout h) = h_closed h"
  "live (note_fanout h) R = live h R"
  by (simp_all add: note_fanout_def live_def)

lemma live_broadcast: "hub_inv h L \<Longrightarrow> live (fst (ConditionalBroadcast ord h x key cb)) R = live h R"
  by (simp add: ConditionalBroadcast_eq live_fanout split: sum.split option.split)

lemma Hub_Close_if:
  "Hub_Close ord h = (if h_closed h then h else
     close_clients (h\<lparr>h_closed := True, h_heartbeat := None\<rparr>) (concat (map (GetAllClients ord) (h_shards h))))"
  by (cases "h_closed h") (simp add: Hub_Close_def, simp add: Hub_Close_eq)

lemma Hub_Close_heap:
  "h_heap (Hub_Close ord h) c =
     (if \<not> h_closed h \<and> c \<in> set (concat (map (GetAllClients ord) (h_shards h)))
      then Client_Close (h_heap h c) else h_heap h c)"
  by (simp add: Hub_Close_if close_clients_heap)

lemma live_close: "live (Hub_Close ord h) R = live h R"
  by (auto simp: live_def Hub_Close_heap simp del: set_concat set_map split: if_splits)

lemma DequeueFrame_keeps:
  assumes "DequeueFrame c = Some (f, c')"
  shows "same_identity c' c" "cl_unregistered c' = cl_unregistered c" "cl_closed c' = cl_closed c"
    "client_wf c \<Longrightarrow> client_wf c'"
  using assms
  by (auto simp: DequeueFrame_def same_identity_def client_wf_def chan_open_def try_recv_def chan_wf_def
      split: recv_result.splits list.splits if_splits)

lemma drain_one_inv:
  assumes inv: "hub_inv h L"
  shows "hub_inv (drain_one h c) L"
proof (cases "DequeueFrame (h_heap h c)")
  case (Some p)
  then obtain f cl where "DequeueFrame (h_heap h c) = Some (f, cl)" by (cases p) auto
  note k = DequeueFrame_keeps [OF this] and this
  then show ?thesis
    using inv by (intro hub_inv_frame [OF inv]) (auto simp: drain_one_def same_frame_def hub_inv_def heap_inv_def)
qed (use inv in \<open>simp add: drain_one_def\<close>)

lemma drain_one_fields:
  "live (drain_one h c) R = live h R" "h_limits (drain_one h c) = h_limits h"
  "h_closed (drain_one h c) = h_closed h" "cl_closed (h_heap (drain_one h c) d) = cl_closed (h_heap h d)"
  by (auto simp: drain_one_def live_def DequeueFrame_keeps split: option.split if_splits)


lemma Unregister_heap:
  "h_heap (Unregister h (Some c)) =
     (if cl_unregistered (h_heap h c) then h_heap h else (h_heap h)(c := retire (h_heap h c)))"
  by (simp add: Unregister_noop Unregister_live Let_def)

lemma live_Unregister: "live (Unregister h (Some c)) R = live h R - {c}"
  by (auto simp: live_def Unregister_heap)

lemma live_alloc: "c \<notin> R \<Longrightarrow> live (alloc_client h c cl) R = live h R"
  by (auto simp: live_def alloc_client_def)

lemma live_Invalidate:
  assumes "hub_inv h (live h R)" "range_order ord"
  shows "live (fst (InvalidateUser ord h t u)) R = live h R - user_live h (live h R) t u"
  using InvalidateUser_inv [OF assms, of t u] by (auto simp: live_def)

lemma Register_heap: "Hub_Register h c ks = Inr h' \<Longrightarrow> h_heap h' = h_heap h \<and> \<not> h_closed h \<and>
    h_closed h' = h_closed h \<and> h_limits h' = h_limits h"
  by (auto simp: Hub_Register_def split: if_splits sum.splits)

lemma unchanged_fields [simp]:
  "h_limits (SetObservabilityCallbacks h a b) = h_limits h" "h_closed (SetObservabilityCallbacks h a b) = h_closed h"
  "h_heap (SetObservabilityCallbacks h a b) = h_heap h" "h_limits (StartHeartbeat h i p) = h_limits h"
  "h_closed (StartHeartbeat h i p) = h_closed h" "h_heap (StartHeartbeat h i p) = h_heap h"
  "h_limits (alloc_client h c cl) = h_limits h" "h_closed (alloc_client h c cl) = h_closed h"
  "h_limits (Unregister h (Some c)) = h_limits h" "h_closed (Unregister h (Some c)) = h_closed h"
  by (simp_all add: SetObservabilityCallbacks_def StartHeartbeat_def alloc_client_def Unregister_def Let_def
      split: prod.split bool.split)


lemma Close_fields [simp]: "h_closed (Hub_Close ord h)" "h_limits (Hub_Close ord h) = h_limits h"
  by (simp_all add: Hub_Close_if)

lemma Invalidate_fields [simp]:
  "h_closed (fst (InvalidateUser ord h t u)) = h_closed h" "h_limits (fst (InvalidateUser ord h t u)) = h_limits h"
  using release_matched_fields [of h "invalidated ord h t u"]
  by (simp_all add: InvalidateUser_eq case_prod_unfold)

lemma broadcast_fields [simp]:
  "h_closed (fst (ConditionalBroadcast ord h x key cb)) = h_closed h"
  "h_limits (fst (ConditionalBroadcast ord h x key cb)) = h_limits h"
  by (simp_all add: ConditionalBroadcast_eq split: sum.split option.split)

lemma fanout_closed:
  assumes "client_wf (h_heap h c)" "cl_closed (h_heap h c)"
  shows "h_heap (fst (fanout h cs f)) c = h_heap h c"
  using assms by (simp add: fanout_heap enqueue_run_closed)

lemma broadcast_closed:
  assumes "client_wf (h_heap h c)" "cl_closed (h_heap h c)"
  shows "h_heap (fst (ConditionalBroadcast ord h x key cb)) c = h_heap h c"
  using fanout_closed [OF assms] by (simp add: ConditionalBroadcast_eq split: sum.split option.split)

subsection \<open>The invariant of reachable states\<close>

definition reach_inv :: "limits_config \<Rightarrow> hub \<Rightarrow> ref set \<Rightarrow> bool" where
  "reach_inv lim h R \<longleftrightarrow> hub_inv h (live h R) \<and> h_limits h = lim \<and>
     (\<forall>c \<in> R. cl_Topics (h_heap h c) \<noteq> []) \<and> (h_closed h \<longrightarrow> (\<forall>c \<in> live h R. cl_closed (h_heap h c)))"


text \<open>A step that registers nobody keeps the invariant if it keeps topics and closed clients.\<close>

lemma reach_inv_keep:
  assumes "reach_inv lim h R" and "hub_inv h' (live h' R)" "live h' R \<subseteq> live h R" "h_limits h' = h_limits h"
    and "h_closed h' = h_closed h"
    and "\<And>c. cl_Topics (h_heap h' c) = cl_Topics (h_heap h c)"
    and "\<And>c. c \<in> live h' R \<Longrightarrow> cl_closed (h_heap h c) \<Longrightarrow> cl_closed (h_heap h' c)"
  shows "reach_inv lim h' R"
  using assms by (auto simp: reach_inv_def)

lemma hub_inv_unused:
  assumes "hub_inv h L" and "same_frame h h'" "h_heap h' = h_heap h"
  shows "hub_inv h' L"
  by (rule hub_inv_frame [OF assms(1,2)]) (use assms in \<open>auto simp: hub_inv_def heap_inv_def\<close>)

lemma fanout_topics:
  assumes "\<And>d. client_wf (h_heap h d)"
  shows "cl_Topics (h_heap (fst (fanout h cs f)) c) = cl_Topics (h_heap h c)"
  using fanout_wf(2) [OF assms] by (simp add: same_frame_def same_clients_fields)

lemma reach_inv_fanout:
  assumes "reach_inv lim h R"
  shows "reach_inv lim (fst (fanout h cs f)) R"
proof -
  have inv: "hub_inv h (live h R)" using assms by (simp add: reach_inv_def)
  then have wf: "client_wf (h_heap h d)" for d by (simp add: hub_inv_def heap_inv_def)
  show ?thesis
    by (rule reach_inv_keep [OF assms])
      (use inv wf in \<open>auto simp: live_fanout [OF inv] fanout_inv fanout_topics fanout_closed\<close>)
qed

text \<open>Fields the invariant does not mention.\<close>

lemma reach_inv_unused:
  assumes "reach_inv lim h R" and "same_frame h h'" "h_heap h' = h_heap h" "h_closed h' = h_closed h"
  shows "reach_inv lim h' R"
proof -
  have "live h' R = live h R" using assms(3) by (simp add: live_def)
  moreover have "hub_inv h' (live h R)"
    using assms(1) by (intro hub_inv_unused [OF _ assms(2,3)]) (simp add: reach_inv_def)
  ultimately show ?thesis using assms(1,2,4) unfolding reach_inv_def same_frame_def assms(3) by simp
qed

lemma reach_inv_note: "reach_inv lim h R \<Longrightarrow> reach_inv lim (note_fanout h) R"
  by (rule reach_inv_unused) (simp_all add: same_frame_def note_fanout_def)

lemma reach_inv_broadcast:
  "reach_inv lim h R \<Longrightarrow> reach_inv lim (fst (ConditionalBroadcast ord h x key cb)) R"
  by (simp add: ConditionalBroadcast_eq reach_inv_fanout reach_inv_note split: sum.split option.split)

lemma reach_inv_admitted:
  assumes "reach_inv lim h R" and "fresh_client h R c cl"
    and "Hub_Register (alloc_client h c cl) c (cl_Topics cl) = Inr h'"
  shows "reach_inv lim h' (insert c R)"
proof -
  let ?h = "alloc_client h c cl"
  have inv: "hub_inv ?h (live h R)"
    using assms by (intro alloc_inv) (auto simp: reach_inv_def fresh_client_def live_def)
  have heap: "h_heap h' = h_heap ?h" "\<not> h_closed h" "h_closed h' = h_closed h" "h_limits h' = h_limits h"
    using Register_heap [OF assms(3)] by auto
  have "live h' (insert c R) = insert c (live h R)"
    using assms(2) by (auto simp: live_def heap fresh_client_def alloc_client_def)
  moreover have "hub_inv h' (insert c (live h R))"
    by (rule Register_inv [OF inv assms(3)])
      (use assms(2) in \<open>auto simp: fresh_client_def alloc_client_def live_def\<close>)
  ultimately show ?thesis
    using assms heap by (auto simp: reach_inv_def fresh_client_def alloc_client_def)
qed


lemma reach_inv_refused:
  assumes "reach_inv lim h R" and "fresh_client h R c cl"
  shows "reach_inv lim (alloc_client h c cl) R"
proof -
  have "hub_inv (alloc_client h c cl) (live h R)"
    using assms by (intro alloc_inv) (auto simp: reach_inv_def fresh_client_def live_def)
  then show ?thesis
    using assms by (auto simp: reach_inv_def live_alloc fresh_client_def)
      (auto simp: alloc_client_def live_def split: if_splits)
qed

lemma reach_inv_left:
  assumes inv: "reach_inv lim h R" and "c \<in> R"
  shows "reach_inv lim (Unregister h (Some c)) R"
proof (rule reach_inv_keep [OF inv])
  have hub: "hub_inv h (live h R)" using inv by (simp add: reach_inv_def)
  show "hub_inv (Unregister h (Some c)) (live (Unregister h (Some c)) R)"
    using Unregister_inv [OF hub, of c] hub assms(2) unfolding live_Unregister
    by (cases "c \<in> live h R") (auto simp: live_def Unregister_noop)
  show "cl_closed (h_heap (Unregister h (Some c)) d)"
    if "d \<in> live (Unregister h (Some c)) R" "cl_closed (h_heap h d)" for d
    using that unfolding live_Unregister by (auto simp: Unregister_heap)
qed (auto simp: live_Unregister Unregister_heap)

lemma reach_inv_drained:
  assumes inv: "reach_inv lim h R"
  shows "reach_inv lim (drain_one h c) R"
proof -
  have "cl_Topics (h_heap (drain_one h c) d) = cl_Topics (h_heap h d)" for d
    by (auto simp: drain_one_def same_identity_def dest: DequeueFrame_keeps(1) split: option.split)
  then show ?thesis
    by (rule reach_inv_keep [OF inv, rotated -2])
      (use inv in \<open>auto simp: drain_one_fields reach_inv_def intro: drain_one_inv\<close>)
qed

lemma reach_inv_invalidated:
  assumes inv: "reach_inv lim h R" and ord: "range_order ord"
  shows "reach_inv lim (fst (InvalidateUser ord h t u)) R"
proof (rule reach_inv_keep [OF inv])
  have hub: "hub_inv h (live h R)" using inv by (simp add: reach_inv_def)
  note live_Invalidate [OF hub ord, simp] and op = InvalidateUser_inv [OF hub ord, of t u]
  show "hub_inv (fst (InvalidateUser ord h t u)) (live (fst (InvalidateUser ord h t u)) R)"
    using op by simp
  show "cl_Topics (h_heap (fst (InvalidateUser ord h t u)) c) = cl_Topics (h_heap h c)" for c
    using op by simp
  show "cl_closed (h_heap (fst (InvalidateUser ord h t u)) c)"
    if "c \<in> live (fst (InvalidateUser ord h t u)) R" "cl_closed (h_heap h c)" for c
    using op that by auto
  show "live (fst (InvalidateUser ord h t u)) R \<subseteq> live h R" by auto
qed simp_all

lemma Close_topics: "cl_Topics (Client_Close c) = cl_Topics c"
  by (simp add: Client_Close_def)

lemma reach_inv_closed:
  assumes inv: "reach_inv lim h R" and ord: "range_order ord"
  shows "reach_inv lim (Hub_Close ord h) R"
proof -
  have hub: "hub_inv h (live h R)" using inv by (simp add: reach_inv_def)
  have "set (concat (map (GetAllClients ord) (h_shards h))) = live h R"
    using all_clients_set [OF _ ord, of h "live h R"] hub inv by (auto simp: hub_inv_def reach_inv_def live_def)
  moreover have "client_wf (h_heap h c)" for c using hub by (simp add: hub_inv_def heap_inv_def)
  ultimately show ?thesis
    using inv Hub_Close_inv [OF hub] unfolding reach_inv_def live_close
    by (auto simp: Hub_Close_heap Close_closed Close_topics simp del: set_concat set_map)
qed

lemma hub_reach_inv:
  assumes "hub_reach ord n lim h R" and ord: "range_order ord" and n: "n < 2 ^ 32"
  shows "reach_inv lim h R"
  using assms(1)
proof induction
  case (start hp)
  have "hub_inv (NewHub hp n lim) {}" by (rule NewHub_inv [OF n]) (rule start)
  then show ?case by (simp add: reach_inv_def live_def NewHub_def Let_def)
next
  case (heartbeat h R f)
  then show ?case by (simp add: BroadcastHeartbeat_eq reach_inv_fanout)
next
  case (callbacks h R a b)
  from this(2) show ?case
    by (rule reach_inv_unused) (simp_all add: same_frame_def SetObservabilityCallbacks_def)
next
  case (heartbeat_on h R i p)
  from this(2) show ?case by (rule reach_inv_unused) (simp_all add: same_frame_def StartHeartbeat_def)
qed (simp_all add: reach_inv_admitted reach_inv_refused reach_inv_left reach_inv_broadcast reach_inv_drained
    reach_inv_invalidated [OF _ ord] reach_inv_closed [OF _ ord])

end
