(* ===== verification/Hub_Props.thy ===== *)
theory Hub_Props
  imports Hub_Reach
begin

text \<open>
  What the hub promises in every reachable state, stated over the live connections: who
  receives a broadcast, what the counters say, what an invalidation, a departure and a
  shutdown do, and how often a heartbeat reaches a connection.
\<close>

section \<open>Definitions\<close>

text \<open>The live connections subscribed to a routing key.\<close>

definition subscribers :: "hub \<Rightarrow> ref set \<Rightarrow> string \<Rightarrow> ref set" where
  "subscribers h R key = {c \<in> live h R. key \<in> set (cl_Topics (h_heap h c))}"

text \<open>The live connections of a user.\<close>

definition user_conns :: "hub \<Rightarrow> ref set \<Rightarrow> string \<Rightarrow> string \<Rightarrow> ref set" where
  "user_conns h R t u = {c \<in> live h R. cl_TenantID (h_heap h c) = t \<and> cl_UserID (h_heap h c) = u}"

text \<open>A hub with two shards and one connection that has a topic on each.\<close>

definition demo_limits :: limits_config where
  "demo_limits = \<lparr>MaxConnections = 1, MaxConnectionsPerUser = 1, MaxConnectionsPerTenant = 1,
     MaxTopicsPerConnection = 2\<rparr>"

definition demo_client :: client where
  "demo_client = NewClient ''c1'' ''u'' ''t'' [''a'', ''b''] 1 [] True"

definition demo_empty :: hub where
  "demo_empty = NewHub (\<lambda>_. NewClient [] [] [] [] 1 [] False) 2 demo_limits"

definition demo_hub :: hub where
  "demo_hub = (case Hub_Register (alloc_client demo_empty 0 demo_client) 0 [''a'', ''b''] of
     Inr h \<Rightarrow> h | Inl _ \<Rightarrow> demo_empty)"

section \<open>Lemmas\<close>

lemma reach_parts:
  assumes "hub_reach ord n lim h R" "range_order ord" "n < 2 ^ 32"
  shows "hub_inv h (live h R)" "index_inv h (live h R)" "hub_wf h" "h_limits h = lim" "finite (live h R)"
    "client_wf (h_heap h c)" "c \<in> live h R \<Longrightarrow> cl_Topics (h_heap h c) \<noteq> []"
  using hub_reach_inv [OF assms] by (auto simp: reach_inv_def hub_inv_def index_inv_def heap_inv_def live_def)

lemma recipients_live:
  assumes "index_inv h L" "range_order ord"
  shows "set (hub_recipients ord h key) = {c \<in> L. key \<in> set (cl_Topics (h_heap h c))}"
    and "distinct (hub_recipients ord h key)"
proof -
  have wf: "hub_wf h" using assms by (simp add: index_inv_def)
  show "set (hub_recipients ord h key) = {c \<in> L. key \<in> set (cl_Topics (h_heap h c))}"
    using assms by (auto simp: hub_recipients_set [OF wf] ran_def index_inv_def)
  show "distinct (hub_recipients ord h key)"
    unfolding hub_recipients_def
    by (rule GetRecipients_distinct [OF _ index_inv_ids])
      (use assms wf in \<open>auto simp: hub_wf_shard getShard_less\<close>)
qed

lemma size_sessions:
  assumes "finite L"
  shows "size (filter_mset P (live_sessions hp L)) = card {c \<in> L. P (client_session (hp c))}"
  using assms by (simp add: live_sessions_def filter_mset_image_mset)

lemma ActiveConnections_live: "hub_inv h L \<Longrightarrow> ActiveConnections h = int (card L)"
  using size_sessions [of L "\<lambda>_. True"]
  by (simp add: hub_inv_def quota_inv_def quota_rep_def ActiveConnections_def ActiveCount_def heap_inv_def)

lemma demo_reach: "hub_reach (\<lambda>xs. xs) 2 demo_limits demo_hub {0}"
proof -
  have "hub_reach (\<lambda>xs. xs) 2 demo_limits demo_empty {}"
    unfolding demo_empty_def by (rule hub_reach.start) (rule NewClient_wf)
  moreover have "fresh_client demo_empty {} 0 demo_client"
    by (simp add: fresh_client_def demo_client_def NewClient_wf) (simp add: NewClient_def)
  moreover have "Hub_Register (alloc_client demo_empty 0 demo_client) 0 (cl_Topics demo_client) = Inr demo_hub"
    by (simp add: demo_hub_def Hub_Register_def alloc_client_def demo_empty_def NewHub_def Let_def
        demo_client_def NewClient_def demo_limits_def NewQuotaTracker_def acquire_eval)
  ultimately show ?thesis by (rule hub_reach.admitted)
qed

lemma demo_heap: "h_heap demo_hub 0 = demo_client"
  by (simp add: demo_hub_def Hub_Register_def alloc_client_def demo_empty_def NewHub_def Let_def
      demo_client_def NewClient_def demo_limits_def NewQuotaTracker_def acquire_eval)

lemma demo_client_eval:
  "cl_Topics demo_client = [''a'', ''b'']" "cl_TenantID demo_client = ''t''" "cl_UserID demo_client = ''u''"
  "\<not> cl_unregistered demo_client" "\<not> cl_closed demo_client" "cl_ID demo_client = ''c1''"
  "cl_Send demo_client = make_chan 1" "cl_SlowPolicy demo_client = SlowPolicyDisconnect"
  "cl_closeNotify demo_client = False" "client_wf demo_client"
  by (simp_all add: demo_client_def NewClient_wf) (simp_all add: NewClient_def)

lemma demo_live: "live demo_hub {0} = {0}"
  by (auto simp: live_def demo_heap demo_client_eval)

lemma demo_shards: "(2 :: int) < 2 ^ 32"
  by simp

lemmas demo = demo_reach range_order_id demo_shards

lemma demo_subscribers: "subscribers demo_hub {0} key = (if key = ''a'' \<or> key = ''b'' then {0} else {})"
  by (auto simp: subscribers_def demo_live demo_heap demo_client_eval)

section \<open>Properties\<close>

text \<open>
  C1. In every reachable state the subscription index is exact: a routing key has
  subscribers exactly if some live connection has it among its topics, and the snapshot a
  broadcast works on lists each of these connections once and nobody else.
\<close>

theorem index_is_exact:
  assumes "hub_reach ord n lim h R" "range_order ord" "n < 2 ^ 32"
  shows "(HasSubscribers h key \<longleftrightarrow> subscribers h R key \<noteq> {}) \<and>
    set (hub_recipients ord h key) = subscribers h R key \<and> distinct (hub_recipients ord h key)"
proof -
  note inv = reach_parts [OF assms]
  note rec = recipients_live [OF inv(2) assms(2), of key, folded subscribers_def]
  have "HasSubscribers h key \<longleftrightarrow> set (hub_recipients ord h key) \<noteq> {}"
    using inv(3) assms(2) by (auto simp: HasSubscribers_iff hub_recipients_set ran_def fun_eq_iff)
  with rec show ?thesis by simp
qed

theorem index_is_exact_witness:
  "HasSubscribers demo_hub ''b'' \<and> \<not> HasSubscribers demo_hub ''z'' \<and>
    set (hub_recipients (\<lambda>xs. xs) demo_hub ''b'') = {0}"
  using index_is_exact [OF demo, of "''b''"] index_is_exact [OF demo, of "''z''"]
  by (simp add: demo_subscribers)

text \<open>
  C6. In every reachable state \<^verbatim>\<open>ActiveConnections\<close> is the number of live connections, and it
  respects the configured limits: globally, for every user and for every named tenant.
\<close>

theorem connections_within_limits:
  assumes "hub_reach ord n lim h R" "range_order ord" "n < 2 ^ 32"
  shows "ActiveConnections h = int (card (live h R)) \<and>
    (0 < MaxConnections lim \<longrightarrow> int (card (live h R)) \<le> MaxConnections lim) \<and>
    (0 < MaxConnectionsPerUser lim \<longrightarrow>
      (\<forall>t u. u \<noteq> [] \<longrightarrow> int (card (user_conns h R t u)) \<le> MaxConnectionsPerUser lim)) \<and>
    (0 < MaxConnectionsPerTenant lim \<longrightarrow> (\<forall>t. t \<noteq> [] \<longrightarrow>
      int (card {c \<in> live h R. cl_TenantID (h_heap h c) = t}) \<le> MaxConnectionsPerTenant lim))"
proof -
  note inv = reach_parts [OF assms]
  let ?M = "live_sessions (h_heap h) (live h R)"
  have w: "within_limits lim ?M" using inv(1,4) by (simp add: hub_inv_def quota_inv_def)
  have sub: "user_conns h R t u \<subseteq> {c \<in> live h R. (\<lambda>(a, b). b \<noteq> [] \<and> userKey a b = userKey t u) (client_session (h_heap h c))}"
    if "u \<noteq> []" for t u
    using that by (auto simp: user_conns_def client_session_def)
  have user: "card (user_conns h R t u) \<le> size (filter_mset (\<lambda>(a, b). b \<noteq> [] \<and> userKey a b = userKey t u) ?M)"
    if "u \<noteq> []" for t u
    unfolding size_sessions [OF inv(5)] by (rule card_mono [OF _ sub [OF that]]) (use inv(5) in simp)
  have "int (card (user_conns h R t u)) \<le> MaxConnectionsPerUser lim"
    if "0 < MaxConnectionsPerUser lim" "u \<noteq> []" for t u
  proof -
    have "int (size (filter_mset (\<lambda>(a, b). b \<noteq> [] \<and> userKey a b = userKey t u) ?M)) \<le> MaxConnectionsPerUser lim"
      using w that(1) unfolding within_limits_def by blast
    with user [OF that(2), of t] show ?thesis by linarith
  qed
  moreover have "int (card {c \<in> live h R. cl_TenantID (h_heap h c) = t}) \<le> MaxConnectionsPerTenant lim"
    if "0 < MaxConnectionsPerTenant lim" "t \<noteq> []" for t
  proof -
    have "int (size (filter_mset (\<lambda>(a, _). a = t) ?M)) \<le> MaxConnectionsPerTenant lim"
      using w that unfolding within_limits_def by blast
    then show ?thesis
      using size_sessions [OF inv(5), of "\<lambda>(a, _). a = t" "h_heap h"] by (simp add: client_session_def)
  qed
  moreover have "int (card (live h R)) \<le> MaxConnections lim" if "0 < MaxConnections lim"
    using w that size_sessions [OF inv(5), of "\<lambda>_. True" "h_heap h"] by (simp add: within_limits_def)
  ultimately show ?thesis using ActiveConnections_live [OF inv(1)] by simp
qed

theorem connections_within_limits_witness:
  "ActiveConnections demo_hub = 1 \<and> int (card (live demo_hub {0})) \<le> MaxConnections demo_limits"
  using connections_within_limits [OF demo] by (simp add: demo_live demo_limits_def)

text \<open>
  A broadcast to a routing key nobody is subscribed to does nothing at all: the callback
  that would decrypt the payload is not run (the caller's state is returned as it was), the
  hub is unchanged and zero deliveries are reported.
\<close>

theorem no_subscriber_no_decryption:
  assumes "hub_reach ord n lim h R" "range_order ord" "n < 2 ^ 32" and "subscribers h R key = {}"
  shows "ConditionalBroadcast ord h x key cb = (h, x, Inr 0)"
  using recipients_live(1) [OF reach_parts(2) [OF assms(1-3)] assms(2), of key, folded subscribers_def] assms(4)
  by (simp add: ConditionalBroadcast_eq)

theorem no_subscriber_no_decryption_witness:
  "ConditionalBroadcast (\<lambda>xs. xs) demo_hub (5 :: nat) ''z'' (\<lambda>x. (Suc x, Inl ''err'')) = (demo_hub, 5, Inr 0)"
  by (rule no_subscriber_no_decryption [OF demo]) (simp add: demo_subscribers)

lemma fanout_subscribers:
  assumes "hub_reach ord n lim h R" "range_order ord" "n < 2 ^ 32"
  shows "h_heap (fst (fanout h (hub_recipients ord h key) f)) =
      (\<lambda>c. if c \<in> subscribers h R key then fst (EnqueueFrame (h_heap h c) f) else h_heap h c)"
    and "snd (fanout h (hub_recipients ord h key) f) =
      int (card {c \<in> subscribers h R key. fst (snd (EnqueueFrame (h_heap h c) f))})"
    and "hub_recipients ord h key = [] \<longleftrightarrow> subscribers h R key = {}"
proof -
  let ?rs = "hub_recipients ord h key"
  note rec = recipients_live [OF reach_parts(2) [OF assms(1-3)] assms(2), of key, folded subscribers_def]
  show "h_heap (fst (fanout h ?rs f)) =
    (\<lambda>c. if c \<in> subscribers h R key then fst (EnqueueFrame (h_heap h c) f) else h_heap h c)"
  proof
    fix c
    have "count_list ?rs c = (if c \<in> subscribers h R key then 1 else 0)"
      using rec by (simp add: count_list_distinct)
    then show "h_heap (fst (fanout h ?rs f)) c =
      (if c \<in> subscribers h R key then fst (EnqueueFrame (h_heap h c) f) else h_heap h c)"
      by (simp add: fanout_heap enqueue_run_Cons del: enqueue_run.simps(2))
  qed
  show "snd (fanout h ?rs f) = int (card {c \<in> subscribers h R key. fst (snd (EnqueueFrame (h_heap h c) f))})"
    using rec distinct_card [of "filter (\<lambda>c. fst (snd (EnqueueFrame (h_heap h c) f))) ?rs"]
    by (simp add: fanout_delivered)
  show "?rs = [] \<longleftrightarrow> subscribers h R key = {}" using rec(1) by (metis set_empty)
qed

lemma HasSubscribers_live:
  assumes "hub_reach ord n lim h R" "range_order ord" "n < 2 ^ 32"
  shows "HasSubscribers h key \<longleftrightarrow> subscribers h R key \<noteq> {}"
proof -
  note inv = reach_parts [OF assms]
  have "HasSubscribers h key \<longleftrightarrow> set (hub_recipients ord h key) \<noteq> {}"
    using inv(3) assms(2) by (auto simp: HasSubscribers_iff hub_recipients_set ran_def fun_eq_iff)
  then show ?thesis using fanout_subscribers(3) [OF assms] by simp
qed

text \<open>
  C2. A broadcast to a key with subscribers runs the callback exactly once. If it builds a
  frame, every subscribed live connection is offered that frame exactly once, no other
  connection is touched, and the result is the number of connections that took it. If it
  fails, its error is returned and the hub is unchanged; if it builds nothing, zero is
  returned and the hub is unchanged. None of this depends on the order in which Go walks
  the subscriber map.
\<close>

theorem broadcast_reaches_each_subscriber_once:
  assumes "hub_reach ord n lim h R" "range_order ord" "n < 2 ^ 32" and "subscribers h R key \<noteq> {}"
  shows "case ConditionalBroadcast ord h x key cb of (h', x', res) \<Rightarrow>
    x' = fst (cb x) \<and>
    (case snd (cb x) of
       Inl err \<Rightarrow> h' = h \<and> res = Inl err
     | Inr None \<Rightarrow> h' = h \<and> res = Inr 0
     | Inr (Some f) \<Rightarrow>
         h_heap h' = (\<lambda>c. if c \<in> subscribers h R key then fst (EnqueueFrame (h_heap h c) f) else h_heap h c) \<and>
         res = Inr (int (card {c \<in> subscribers h R key. fst (snd (EnqueueFrame (h_heap h c) f))})))"
proof -
  note fan = fanout_subscribers [OF assms(1-3), of key]
  show ?thesis
    using assms(4) by (simp add: ConditionalBroadcast_eq fan split: sum.split option.split)
qed

theorem broadcast_reaches_each_subscriber_once_witness:
  "case ConditionalBroadcast (\<lambda>xs. xs) demo_hub (5 :: nat) ''a''
      (\<lambda>x. (Suc x, Inr (Some \<lparr>Data = ''m''\<rparr>) :: build_result)) of (h', x', res) \<Rightarrow>
    x' = 6 \<and> res = Inr 1 \<and> cl_queue (h_heap h' 0) = [\<lparr>Data = ''m''\<rparr>]"
proof -
  have e: "EnqueueFrame demo_client \<lparr>Data = ''m''\<rparr> = (demo_client\<lparr>cl_Send := \<lparr>ch_buf = [\<lparr>Data = ''m''\<rparr>], ch_cap = 1, ch_closed = False\<rparr>\<rparr>, True, False)"
    by (simp add: EnqueueFrame_def demo_client_eval try_send_def make_chan_def)
  have sub: "subscribers demo_hub {0} ''a'' = {0}" by (simp add: demo_subscribers)
  have ne: "subscribers demo_hub {0} ''a'' \<noteq> {}" by (simp add: sub)
  have "{c. c = 0 \<and> fst (snd (EnqueueFrame (h_heap demo_hub c) \<lparr>Data = ''m''\<rparr>))} = {0}"
    by (auto simp: demo_heap e)
  then show ?thesis
    using broadcast_reaches_each_subscriber_once [OF demo ne, where x = "5 :: nat" and
      cb = "\<lambda>x. (Suc x, Inr (Some \<lparr>Data = ''m''\<rparr>) :: build_result)"]
    by (auto simp: sub demo_heap e split: prod.splits)
qed

text \<open>
  C9. Revoking a user closes every live connection of that user and marks it unregistered,
  returns their number, takes them out of the index and of the connection count, and leaves
  every other connection as it was.
\<close>

theorem invalidate_user_complete:
  assumes "hub_reach ord n lim h R" "range_order ord" "n < 2 ^ 32"
  shows "case InvalidateUser ord h t u of (h', closedCount) \<Rightarrow>
    closedCount = int (card (user_conns h R t u)) \<and>
    live h' R = live h R - user_conns h R t u \<and>
    (\<forall>c. if c \<in> user_conns h R t u then Done (h_heap h' c) \<and> IsClosed (h_heap h' c) else h_heap h' c = h_heap h c) \<and>
    (\<forall>key. subscribers h' R key = subscribers h R key - user_conns h R t u) \<and>
    ActiveConnections h' = ActiveConnections h - closedCount"
proof -
  obtain h' m where res: "InvalidateUser ord h t u = (h', m)" by fastforce
  note inv = reach_parts [OF assms]
  have gone: "user_live h (live h R) t u = user_conns h R t u"
    using inv(7) by (auto simp: user_live_def user_conns_def user_matches_def)
  have op: "hub_inv h' (live h R - user_conns h R t u)" "m = int (card (user_conns h R t u))"
    "h_heap h' = (\<lambda>c. if c \<in> user_conns h R t u then retire (h_heap h c) else h_heap h c)"
    using InvalidateUser_inv [OF inv(1) assms(2), of t u] unfolding gone res by simp_all
  have live': "live h' R = live h R - user_conns h R t u" using op(3) by (auto simp: live_def)
  have sub: "user_conns h R t u \<subseteq> live h R" by (auto simp: user_conns_def)
  have count: "ActiveConnections h' = ActiveConnections h - m"
    using ActiveConnections_live [OF op(1)] ActiveConnections_live [OF inv(1)] op(2) inv(5) sub
    by (simp add: card_Diff_subset finite_subset [OF sub] card_mono of_nat_diff)
  have "subscribers h' R key = subscribers h R key - user_conns h R t u" for key
    by (auto simp: subscribers_def live' op(3))
  moreover have "client_wf (retire (h_heap h c)) \<and> cl_closed (retire (h_heap h c))" for c
    using inv(6) by simp
  ultimately show ?thesis
    using op(2) live' count
    by (auto simp: res op(3) IsClosed_def Done_def client_wf_def)
qed

lemma demo_user: "user_conns demo_hub {0} ''t'' ''u'' = {0}"
  by (auto simp: user_conns_def demo_live demo_heap demo_client_eval)

theorem invalidate_user_complete_witness:
  "snd (InvalidateUser (\<lambda>xs. xs) demo_hub ''t'' ''u'') = 1 \<and>
    live (fst (InvalidateUser (\<lambda>xs. xs) demo_hub ''t'' ''u'')) {0} = {}"
  using invalidate_user_complete [OF demo, of "''t''" "''u''"]
  by (simp add: demo_user demo_live case_prod_unfold)

lemma invalidate_live:
  assumes "hub_inv h (live h R)" "range_order ord" "c \<in> live h R \<Longrightarrow> cl_Topics (h_heap h c) \<noteq> []"
  shows "c \<notin> live (fst (InvalidateUser ord h (cl_TenantID (h_heap h c)) (cl_UserID (h_heap h c)))) R"
  using assms live_Invalidate [OF assms(1,2)] by (auto simp: user_live_def user_matches_def)

text \<open>
  C19. Leaving is exact and happens once: \<^verbatim>\<open>Unregister\<close> of a live connection removes that
  connection from the index and from the count and closes it, and touches no other; a
  second call, or a call after the user was invalidated, changes nothing, so no quota is
  released twice.
\<close>

theorem unregister_exactly_once:
  assumes "hub_reach ord n lim h R" "range_order ord" "n < 2 ^ 32" and "c \<in> R"
  shows "live (Unregister h (Some c)) R = live h R - {c} \<and>
    ActiveConnections (Unregister h (Some c)) = ActiveConnections h - (if c \<in> live h R then 1 else 0) \<and>
    (\<forall>key. set (hub_recipients ord (Unregister h (Some c)) key) = subscribers h R key - {c}) \<and>
    (\<forall>d. d \<noteq> c \<longrightarrow> h_heap (Unregister h (Some c)) d = h_heap h d) \<and>
    (c \<in> live h R \<longrightarrow> Done (h_heap (Unregister h (Some c)) c)) \<and>
    Unregister (Unregister h (Some c)) (Some c) = Unregister h (Some c) \<and>
    (let h' = fst (InvalidateUser ord h (cl_TenantID (h_heap h c)) (cl_UserID (h_heap h c)))
     in Unregister h' (Some c) = h')"
proof -
  note inv = reach_parts [OF assms(1-3)]
  note inv' = reach_parts [OF hub_reach.left [OF assms(1,4)] assms(2,3)]
  let ?h = "Unregister h (Some c)"
  have "ActiveConnections ?h = ActiveConnections h - (if c \<in> live h R then 1 else 0)"
    using ActiveConnections_live [OF inv'(1)] ActiveConnections_live [OF inv(1)]
      card_Suc_Diff1 [OF inv(5), of c] unfolding live_Unregister by (cases "c \<in> live h R") simp_all
  moreover have "set (hub_recipients ord ?h key) = subscribers h R key - {c}" for key
    using recipients_live(1) [OF inv'(2) assms(2), of key]
    by (auto simp: live_Unregister subscribers_def Unregister_heap)
  moreover have "Done (h_heap ?h c)" if "c \<in> live h R"
    using that inv(6) retire_wf [of "h_heap h c"] by (auto simp: live_def Unregister_heap Done_def client_wf_def)
  moreover have "Unregister h' (Some c) = h'"
    if h': "h' = fst (InvalidateUser ord h (cl_TenantID (h_heap h c)) (cl_UserID (h_heap h c)))" for h'
  proof (rule Unregister_noop)
    have "c \<notin> live h' R"
      using invalidate_live [OF inv(1) assms(2) inv(7)] by (simp add: h')
    then show "cl_unregistered (h_heap h' c)" using assms(4) by (simp add: live_def)
  qed
  ultimately show ?thesis
    by (simp add: live_Unregister Unregister_noop [OF Unregister_marks] Unregister_heap Let_def)
qed

theorem unregister_exactly_once_witness:
  "ActiveConnections (Unregister demo_hub (Some 0)) = ActiveConnections demo_hub - 1 \<and>
    set (hub_recipients (\<lambda>xs. xs) (Unregister demo_hub (Some 0)) ''a'') = {}"
  using unregister_exactly_once [OF demo, of 0] by (simp add: demo_live demo_subscribers)

text \<open>
  Shutdown is complete and final: closing the hub stops the heartbeat and closes every
  live connection; from then on every registration and every advisory check is refused with
  \<^verbatim>\<open>ErrHubClosed\<close>, and no broadcast changes a live connection any more.
\<close>

theorem close_is_final:
  assumes "hub_reach ord n lim h R" "range_order ord" "n < 2 ^ 32" and "\<not> h_closed h"
  shows "let h' = Hub_Close ord h in
    h_heartbeat h' = None \<and> live h' R = live h R \<and>
    (\<forall>c \<in> live h R. Done (h_heap h' c)) \<and>
    (\<forall>c ks. Hub_Register h' c ks = Inl ErrHubClosed) \<and>
    (\<forall>t u k. CheckLimits h' t u k = Some ErrHubClosed) \<and>
    (\<forall>x key cb. \<forall>c \<in> live h R.
       h_heap (fst (ConditionalBroadcast ord h' x key (cb :: 'x \<Rightarrow> 'x \<times> ('e + frame option)))) c = h_heap h' c)"
proof -
  let ?h = "Hub_Close ord h"
  have reach: "hub_reach ord n lim ?h R" using assms(1) by (rule hub_reach.closed)
  note inv = reach_parts [OF reach assms(2,3)]
  have closed: "cl_closed (h_heap ?h c)" if "c \<in> live h R" for c
    using hub_reach_inv [OF reach assms(2,3)] that by (simp add: reach_inv_def live_close)
  have "Done (h_heap ?h c)" if "c \<in> live h R" for c
    using closed [OF that] inv(6) [of c] by (simp add: Done_def client_wf_def)
  moreover have "h_heartbeat ?h = None" using assms(4) by (simp add: Hub_Close_if)
  moreover have "h_heap (fst (ConditionalBroadcast ord ?h x key cb)) c = h_heap ?h c" if "c \<in> live h R"
    for x key c and cb :: "'x \<Rightarrow> 'x \<times> ('e + frame option)"
    using broadcast_closed [OF inv(6) closed [OF that]] .
  ultimately show ?thesis
    by (simp add: Let_def live_close Hub_Register_def CheckLimits_def)
qed

lemma demo_open: "\<not> h_closed demo_hub"
  by (simp add: demo_hub_def Hub_Register_def alloc_client_def demo_empty_def NewHub_def Let_def
      demo_client_def NewClient_def demo_limits_def NewQuotaTracker_def acquire_eval)

theorem close_is_final_witness:
  "Done (h_heap (Hub_Close (\<lambda>xs. xs) demo_hub) 0) \<and>
    Hub_Register (Hub_Close (\<lambda>xs. xs) demo_hub) 0 [''a''] = Inl ErrHubClosed"
  using close_is_final [OF demo demo_open, where ?'x = unit and ?'e = unit] by (simp add: Let_def demo_live)

subsection \<open>Heartbeats\<close>

lemma count_concat: "count_list (concat xss) x = sum_list (map (\<lambda>xs. count_list xs x) xss)"
  by (induction xss) simp_all

lemma sum_list_indicator: "sum_list (map (\<lambda>i. if P i then 1 else 0) xs) = length (filter P xs)"
  by (induction xs) auto

lemma heartbeat_count:
  assumes inv: "index_inv h L" and ord: "range_order ord"
  shows "count_list (concat (map (GetAllClients ord) (h_shards h))) c =
    (if c \<in> L then card (getShard h ` set (cl_Topics (h_heap h c))) else 0)"
proof -
  let ?S = "getShard h ` set (cl_Topics (h_heap h c))" and ?n = "length (h_shards h)"
  have wf: "hub_wf h" using inv by (simp add: index_inv_def)
  have one: "count_list (GetAllClients ord (h_shards h ! i)) c = (if c \<in> L \<and> i \<in> ?S then 1 else 0)"
    if i: "i < ?n" for i
  proof -
    have "set (GetAllClients ord (h_shards h ! i)) =
      {c \<in> L. \<exists>key \<in> set (cl_Topics (h_heap h c)). getShard h key = i}"
      using GetAllClients_set [OF index_inv_shard(1) [OF inv i] ord] index_inv_clients [OF inv i] by simp
    then show ?thesis
      using GetAllClients_distinct [OF index_inv_shard(1) [OF inv i] index_inv_ids [OF inv i] ord]
      by (auto simp: count_list_distinct)
  qed
  have "map (\<lambda>s. count_list (GetAllClients ord s) c) (h_shards h) =
    map (\<lambda>i. if c \<in> L \<and> i \<in> ?S then 1 else 0) [0..<?n]"
    by (rule nth_equalityI) (simp_all add: one)
  then have "count_list (concat (map (GetAllClients ord) (h_shards h))) c =
    length (filter (\<lambda>i. c \<in> L \<and> i \<in> ?S) [0..<?n])"
    by (simp add: count_concat comp_def sum_list_indicator)
  also have "\<dots> = card (set (filter (\<lambda>i. c \<in> L \<and> i \<in> ?S) [0..<?n]))"
    by (simp only: distinct_card distinct_filter distinct_upt)
  also have "set (filter (\<lambda>i. c \<in> L \<and> i \<in> ?S) [0..<?n]) = (if c \<in> L then ?S else {})"
    using getShard_less [OF wf] by auto
  finally show ?thesis by simp
qed

lemma heartbeat_heap:
  assumes "index_inv h L" "range_order ord"
  shows "h_heap (BroadcastHeartbeat ord h f) c =
    (if c \<in> L
     then fst (enqueue_run (h_heap h c) (replicate (card (getShard h ` set (cl_Topics (h_heap h c)))) f))
     else h_heap h c)"
  by (simp add: BroadcastHeartbeat_eq fanout_heap heartbeat_count [OF assms])

text \<open>
  One heartbeat tick offers the ping to a live connection once for every shard that
  holds one of its topics, and to nobody else. A connection whose topics hash to several
  shards therefore gets several pings per tick.
\<close>

theorem heartbeat_once_per_shard:
  assumes "hub_reach ord n lim h R" "range_order ord" "n < 2 ^ 32"
  shows "h_heap (BroadcastHeartbeat ord h f) c =
    (if c \<in> live h R
     then fst (enqueue_run (h_heap h c) (replicate (card (getShard h ` set (cl_Topics (h_heap h c)))) f))
     else h_heap h c)"
  by (rule heartbeat_heap [OF reach_parts(2) [OF assms] assms(2)])

lemma ShardIndex_demo: "ShardIndex ''a'' 2 = 0" "ShardIndex ''b'' 2 = 1"
  by code_simp+

lemma demo_shard: "getShard demo_hub ''a'' = 0" "getShard demo_hub ''b'' = 1"
  by (simp_all add: getShard_def demo_hub_def Hub_Register_def alloc_client_def demo_empty_def NewHub_def Let_def
      demo_client_def NewClient_def demo_limits_def NewQuotaTracker_def acquire_eval ShardIndex_demo)

theorem heartbeat_once_per_shard_witness:
  "h_heap (BroadcastHeartbeat (\<lambda>xs. xs) demo_hub (NewHeartbeatFrame ''hb'')) 0 =
     fst (enqueue_run demo_client [NewHeartbeatFrame ''hb'', NewHeartbeatFrame ''hb''])"
  using heartbeat_once_per_shard [OF demo, of "NewHeartbeatFrame ''hb''" 0]
  by (simp add: demo_live demo_heap demo_client_eval demo_shard numeral_2_eq_2)

text \<open>
  As a consequence a single tick can disconnect a healthy idle connection: with two
  shards, a connection with topics \<^verbatim>\<open>a\<close> and \<^verbatim>\<open>b\<close> (one on each), the default policy and a queue of
  one frame, nothing is queued before the tick, and after it the connection is closed as a
  slow client although it never failed to read.
\<close>

theorem heartbeat_disconnects_idle_client:
  "hub_reach (\<lambda>xs. xs) 2 demo_limits demo_hub {0} \<and>
   cl_queue (h_heap demo_hub 0) = [] \<and> \<not> IsClosed (h_heap demo_hub 0) \<and>
   IsClosed (h_heap (BroadcastHeartbeat (\<lambda>xs. xs) demo_hub f) 0)"
proof -
  have "h_heap (BroadcastHeartbeat (\<lambda>xs. xs) demo_hub f) 0 = fst (enqueue_run demo_client [f, f])"
    using heartbeat_heap [OF reach_parts(2) [OF demo] range_order_id, of f 0]
    by (simp add: demo_live demo_heap demo_client_eval demo_shard numeral_2_eq_2)
  then show ?thesis
    using demo_reach enqueue_run_disconnect [of demo_client "[f, f]"]
    by (simp add: demo_heap demo_client_eval IsClosed_def make_chan_def del: enqueue_run.simps)
qed

end
