(* ===== verification/Bus_Model.thy ===== *)
theory Bus_Model
  imports Gateway_Prelude "HOL-Library.Word"
begin

text \<open>
  The events of \<^verbatim>\<open>internal/bus/bus.go\<close> and the key envelope of \<^verbatim>\<open>internal/crypto/unwrap.go\<close>.
  Strings are byte strings. \<^verbatim>\<open>CreatedAt\<close> keeps the civil fields of a \<^verbatim>\<open>time.Time\<close> in its zone,
  the zone as minutes east of UTC; \<^verbatim>\<open>Version\<close> is a signed 64-bit value that is only printed.
\<close>

record go_time =
  t_year :: int
  t_month :: nat
  t_day :: nat
  t_hour :: nat
  t_min :: nat
  t_sec :: nat
  t_nsec :: nat
  t_zone :: int

definition SupportedEventSchema :: string where
  "SupportedEventSchema = ''realtime-event-v1''"

datatype bus_error = ErrBusClosed | ErrBusUnavailable

record encrypted_payload =
  ep_Algorithm :: string
  ep_Version :: string
  ep_SuiteID :: "16 word"
  ep_EncapsulatedKey :: string
  ep_WrappedKey :: string
  ep_Nonce :: string
  ep_PayloadNonce :: string
  ep_Ciphertext :: string

record encrypted_event =
  ev_Schema :: string
  ev_EventID :: string
  ev_TenantID :: string
  ev_AppID :: string
  ev_TopicID :: string
  ev_Type :: string
  ev_EntityID :: string
  ev_Version :: int
  ev_OriginUserID :: string
  ev_UserID :: string
  ev_CreatedAt :: go_time
  ev_Crypto :: encrypted_payload
  ev_RawChannel :: string
  ev_RoutingKey :: string

record wrapped_key_envelope =
  we_Algorithm :: string
  we_Version :: string
  we_SuiteID :: "16 word"
  we_EncapsulatedKey :: string
  we_Nonce :: string
  we_WrappedKey :: string

definition IsSchemaSupported :: "encrypted_event \<Rightarrow> bool" where
  "IsSchemaSupported e \<longleftrightarrow> ev_Schema e = [] \<or> ev_Schema e = SupportedEventSchema"

definition ToEnvelope :: "encrypted_event \<Rightarrow> wrapped_key_envelope" where
  "ToEnvelope e =
     \<lparr>we_Algorithm = ep_Algorithm (ev_Crypto e), we_Version = ep_Version (ev_Crypto e),
      we_SuiteID = ep_SuiteID (ev_Crypto e), we_EncapsulatedKey = ep_EncapsulatedKey (ev_Crypto e),
      we_Nonce = ep_Nonce (ev_Crypto e), we_WrappedKey = ep_WrappedKey (ev_Crypto e)\<rparr>"

text \<open>The zero values, from which examples are built.\<close>

definition zero_time :: go_time where
  "zero_time = \<lparr>t_year = 1, t_month = 1, t_day = 1, t_hour = 0, t_min = 0, t_sec = 0, t_nsec = 0, t_zone = 0\<rparr>"

definition zero_event :: encrypted_event where
  "zero_event = \<lparr>ev_Schema = [], ev_EventID = [], ev_TenantID = [], ev_AppID = [], ev_TopicID = [],
     ev_Type = [], ev_EntityID = [], ev_Version = 0, ev_OriginUserID = [], ev_UserID = [],
     ev_CreatedAt = zero_time,
     ev_Crypto = \<lparr>ep_Algorithm = [], ep_Version = [], ep_SuiteID = 0, ep_EncapsulatedKey = [],
       ep_WrappedKey = [], ep_Nonce = [], ep_PayloadNonce = [], ep_Ciphertext = []\<rparr>,
     ev_RawChannel = [], ev_RoutingKey = []\<rparr>"

section \<open>The contract of a bus\<close>

text \<open>
  What the server relies on when it shuts down, for either bus: closing succeeds (does not
  panic), is final for subscriptions and health checks, and may be repeated. \<open>good\<close> is the bus's own
  invariant.
\<close>

locale event_bus =
  fixes subscribe :: "'b \<Rightarrow> bus_error + 's"
    and health :: "'b \<Rightarrow> bus_error option"
    and close_bus :: "'b \<Rightarrow> 'b option"
    and good :: "'b \<Rightarrow> bool"
  assumes close_final: "good b \<Longrightarrow> \<exists>b'. close_bus b = Some b' \<and> good b' \<and> subscribe b' = Inl ErrBusClosed \<and>
      health b' = Some ErrBusClosed \<and> close_bus b' = Some b'"
begin

lemma close_twice: "good b \<Longrightarrow> Option.bind (close_bus b) close_bus = close_bus b"
  using close_final by fastforce

lemma never_reopened: "good b \<Longrightarrow> close_bus b = Some b' \<Longrightarrow> close_bus b' = Some b'' \<Longrightarrow> subscribe b'' = Inl ErrBusClosed"
  using close_final by fastforce

end

end
