(* ===== verification/Pipeline.thy ===== *)
theory Pipeline
  imports Event_Router Crypto_Aes Go_Json Hub_Props Bus_Model
begin

text \<open>
  \<^verbatim>\<open>internal/pipeline/processor.go\<close> with the payload type of \<^verbatim>\<open>internal/event/model.go\<close> and the
  interface of \<^verbatim>\<open>internal/crypto/unwrap.go\<close>. The unwrapper is a function on a state of its own
  (\<open>pi_svc\<close>: the remote service), AES-GCM the parameter \<open>gcm_open\<close>; key and plaintext buffers
  live in \<open>pi_mem\<close>, so that the deferred erasure of the key is visible. Metrics are counters, of
  histograms the number of observations, and may be absent. Logging is left out.

  The locale \<open>key_unwrapper\<close> is the contract of the interface: a key that is returned has 32
  bytes. The HTTP adapter provides it (theory \<open>Unwrap_Client\<close>).
\<close>

section \<open>Definitions\<close>

subsection \<open>Times\<close>

definition pad_left :: "nat \<Rightarrow> string \<Rightarrow> string" where
  "pad_left w s = replicate (w - length s) (CHR ''0'') @ s"

definition time_fraction :: "nat \<Rightarrow> string" where
  "time_fraction nsec =
     (if nsec = 0 then [] else CHR ''.'' # strings_TrimRight (pad_left 9 (nat_digits nsec)) ''0'')"

definition time_offset :: "int \<Rightarrow> string" where
  "time_offset z =
     (if z = 0 then ''Z''
      else (let a = nat \<bar>z\<bar>
            in (if z < 0 then CHR ''-'' else CHR ''+'') # pad_left 2 (nat_digits (a div 60)) @ '':'' @
               pad_left 2 (nat_digits (a mod 60))))"

text \<open>\<^verbatim>\<open>Time.MarshalJSON\<close>: years outside 0 to 9999 and zones of a day or more are errors.\<close>

definition json_time :: "go_time \<Rightarrow> string option" where
  "json_time t =
     (if t_year t < 0 \<or> t_year t > 9999 \<or> 24 \<le> nat \<bar>t_zone t\<bar> div 60 then None
      else Some (CHR 0x22 # pad_left 4 (nat_digits (nat (t_year t))) @ ''-'' @ pad_left 2 (nat_digits (t_month t)) @
        ''-'' @ pad_left 2 (nat_digits (t_day t)) @ ''T'' @ pad_left 2 (nat_digits (t_hour t)) @ '':'' @
        pad_left 2 (nat_digits (t_min t)) @ '':'' @ pad_left 2 (nat_digits (t_sec t)) @
        time_fraction (t_nsec t) @ time_offset (t_zone t) @ [CHR 0x22]))"

subsection \<open>The payload\<close>

record decrypted_payload =
  dp_EventID :: string
  dp_TenantID :: string
  dp_AppID :: string
  dp_TopicID :: string
  dp_Type :: string
  dp_EntityID :: string
  dp_Version :: int
  dp_OriginUserID :: string
  dp_CreatedAt :: go_time
  dp_Data :: "string option"

definition field :: "string \<Rightarrow> string \<Rightarrow> string" where
  "field name v = CHR 0x22 # name @ CHR 0x22 # CHR '':'' # v"

definition omit_empty :: "string \<Rightarrow> string \<Rightarrow> string" where
  "omit_empty name v = (if v = [] then [] else field name (json_string v) @ '','')"

definition marshal_payload :: "decrypted_payload \<Rightarrow> string option" where
  "marshal_payload p =
     (case json_time (dp_CreatedAt p) of
        None \<Rightarrow> None
      | Some created \<Rightarrow>
          (case json_raw (dp_Data p) of
             None \<Rightarrow> None
           | Some data \<Rightarrow>
               Some (''{'' @ field ''event_id'' (json_string (dp_EventID p)) @ '','' @
                 field ''tenant_id'' (json_string (dp_TenantID p)) @ '','' @
                 field ''app_id'' (json_string (dp_AppID p)) @ '','' @
                 field ''topic_id'' (json_string (dp_TopicID p)) @ '','' @
                 field ''type'' (json_string (dp_Type p)) @ '','' @
                 omit_empty ''entity_id'' (dp_EntityID p) @
                 field ''version'' (strconv_FormatInt (dp_Version p)) @ '','' @
                 omit_empty ''origin_user_id'' (dp_OriginUserID p) @
                 field ''created_at'' created @ '','' @ field ''data'' data @ ''}'')))"

subsection \<open>The processor\<close>

record pipe_metrics =
  DecryptErrorsTotal :: nat
  EventsDecryptedTotal :: nat
  CryptoDurations :: nat
  EventProcessingDurations :: nat
  FanoutTotal :: nat
  FanoutRecipientsTotal :: int
  EventsNoSubscriberTotal :: nat

record 'u pipe_state =
  pi_svc :: 'u
  pi_mem :: memory
  pi_metrics :: "pipe_metrics option"

record crypto_cfg =
  AADEnabled :: bool
  AADTemplate :: string
  MaxPayloadBytes :: int

type_synonym 'u unwrap = "'u \<Rightarrow> wrapped_key_envelope \<Rightarrow> 'u \<times> (crypto_error + string)"

definition on_metrics :: "(pipe_metrics \<Rightarrow> pipe_metrics) \<Rightarrow> 'u pipe_state \<Rightarrow> 'u pipe_state" where
  "on_metrics f st = st\<lparr>pi_metrics := map_option f (pi_metrics st)\<rparr>"

definition inc_decrypt_errors :: "'u pipe_state \<Rightarrow> 'u pipe_state" where
  "inc_decrypt_errors st = on_metrics (\<lambda>m. m\<lparr>DecryptErrorsTotal := Suc (DecryptErrorsTotal m)\<rparr>) st"

definition inc_decrypted :: "'u pipe_state \<Rightarrow> 'u pipe_state" where
  "inc_decrypted st = on_metrics (\<lambda>m. m\<lparr>CryptoDurations := Suc (CryptoDurations m),
     EventsDecryptedTotal := Suc (EventsDecryptedTotal m)\<rparr>) st"

definition event_payload :: "encrypted_event \<Rightarrow> string \<Rightarrow> decrypted_payload" where
  "event_payload ev plaintext =
     \<lparr>dp_EventID = ev_EventID ev, dp_TenantID = ev_TenantID ev, dp_AppID = ev_AppID ev, dp_TopicID = ev_TopicID ev,
      dp_Type = ev_Type ev, dp_EntityID = ev_EntityID ev, dp_Version = ev_Version ev,
      dp_OriginUserID = ev_OriginUserID ev, dp_CreatedAt = ev_CreatedAt ev,
      dp_Data = (if plaintext = [] then None else Some plaintext)\<rparr>"

definition event_aad :: "crypto_cfg \<Rightarrow> encrypted_event \<Rightarrow> string" where
  "event_aad cfg ev =
     (if AADEnabled cfg
      then BuildAAD (AADTemplate cfg) \<lparr>ac_TenantID = ev_TenantID ev, ac_AppID = ev_AppID ev,
             ac_TopicID = ev_TopicID ev, ac_EventID = ev_EventID ev, ac_Version = ev_Version ev\<rparr>
      else [])"

definition max_payload :: "crypto_cfg \<Rightarrow> int" where
  "max_payload cfg = (if MaxPayloadBytes cfg \<le> 0 then 5 * 1024 * 1024 else MaxPayloadBytes cfg)"

definition DecryptAndBuildFrame ::
  "'u unwrap \<Rightarrow> gcm \<Rightarrow> crypto_cfg \<Rightarrow> encrypted_event \<Rightarrow> 'u pipe_state \<Rightarrow>
    'u pipe_state \<times> (crypto_error + frame option)" where
  "DecryptAndBuildFrame unwrap gcm_open cfg ev st =
     (if ep_PayloadNonce (ev_Crypto ev) = [] then (inc_decrypt_errors st, Inl ErrMissingPayloadNonce)
      else case unwrap (pi_svc st) (ToEnvelope ev) of
        (svc, Inl err) \<Rightarrow> (inc_decrypt_errors (st\<lparr>pi_svc := svc\<rparr>), Inl err)
      | (svc, Inr key) \<Rightarrow>
          (let (m1, dek) = alloc_buf (pi_mem st) key;
               (m2, res) = DecryptPayload gcm_open m1 dek (ep_PayloadNonce (ev_Crypto ev))
                             (ep_Ciphertext (ev_Crypto ev)) (event_aad cfg ev) (max_payload cfg);
               st1 = st\<lparr>pi_svc := svc, pi_mem := Zeroize m2 dek\<rparr>
           in case res of
                Inl err \<Rightarrow> (inc_decrypt_errors st1, Inl err)
              | Inr plaintext \<Rightarrow>
                  (case marshal_payload (event_payload ev (m2 ! plaintext)) of
                     None \<Rightarrow> (inc_decrypted st1, Inl ErrMarshal)
                   | Some json \<Rightarrow>
                       (inc_decrypted st1, Inr (Some (NewDataFrame (ev_Type ev) (ev_EventID ev) json))))))"

definition event_key :: "router \<Rightarrow> encrypted_event \<Rightarrow> string" where
  "event_key r ev = (if ev_RoutingKey ev = [] then BuildKey r (ev_TenantID ev) (ev_AppID ev) (ev_TopicID ev)
                     else ev_RoutingKey ev)"

definition note_recipients :: "int \<Rightarrow> pipe_metrics \<Rightarrow> pipe_metrics" where
  "note_recipients recipients m =
     (let m1 = m\<lparr>EventProcessingDurations := Suc (EventProcessingDurations m)\<rparr>
      in if recipients > 0
         then m1\<lparr>FanoutTotal := Suc (FanoutTotal m), FanoutRecipientsTotal := FanoutRecipientsTotal m + recipients\<rparr>
         else m1\<lparr>EventsNoSubscriberTotal := Suc (EventsNoSubscriberTotal m)\<rparr>)"

definition HandleEvent ::
  "'u unwrap \<Rightarrow> gcm \<Rightarrow> crypto_cfg \<Rightarrow> router \<Rightarrow> client_order \<Rightarrow> encrypted_event \<Rightarrow>
    hub \<times> 'u pipe_state \<Rightarrow> hub \<times> 'u pipe_state" where
  "HandleEvent unwrap gcm_open cfg r ord ev s =
     (case ConditionalBroadcast ord (fst s) (snd s) (event_key r ev) (DecryptAndBuildFrame unwrap gcm_open cfg ev) of
        (h, st, Inl err) \<Rightarrow> (h, st)
      | (h, st, Inr recipients) \<Rightarrow> (h, on_metrics (note_recipients recipients) st))"

section \<open>The contract of the key service\<close>

locale key_unwrapper =
  fixes unwrap :: "'u unwrap"
  assumes dek_size: "unwrap svc env = (svc', Inr dek) \<Longrightarrow> length dek = 32"
begin

text \<open>The pipeline never presents AES with a key of the wrong size.\<close>

lemma decrypt_key_size: "snd (DecryptAndBuildFrame unwrap g cfg ev st) \<noteq> Inl ErrInvalidKeySize \<or>
    snd (unwrap (pi_svc st) (ToEnvelope ev)) = Inl ErrInvalidKeySize"
  using dek_size [of "pi_svc st" "ToEnvelope ev"]
  by (auto simp: DecryptAndBuildFrame_def alloc_buf_def DecryptPayload_def Let_def split: prod.split sum.split option.split)

end

section \<open>Lemmas\<close>

lemma one_line_no_break: "one_line s \<longleftrightarrow> no_break s"
  by (simp add: one_line_def no_break_def LF_def CR_def)

lemma no_break_nat_digits [simp]: "no_break (nat_digits n)"
  using no_break_FormatInt [of "int n"] by (simp add: strconv_FormatInt_def)

lemma no_break_pad [simp]: "no_break (pad_left w s) \<longleftrightarrow> no_break s"
  by (auto simp: pad_left_def no_break_def)

lemma no_break_TrimRight: "no_break s \<Longrightarrow> no_break (strings_TrimRight s cutset)"
  by (auto simp: no_break_def strings_TrimRight_def dest: set_dropWhileD)

lemma no_break_time: "json_time t = Some s \<Longrightarrow> no_break s"
  by (auto simp: json_time_def time_fraction_def time_offset_def Let_def no_break_TrimRight split: if_splits)

lemma no_break_field: "no_break (field n v) \<longleftrightarrow> no_break n \<and> no_break v"
  by (simp add: field_def)

lemma no_break_payload: "marshal_payload p = Some json \<Longrightarrow> no_break json"
  by (auto simp: marshal_payload_def no_break_field omit_empty_def no_break_time no_break_raw split: option.splits)

lemma metrics_mem [simp]:
  "pi_mem (inc_decrypt_errors st) = pi_mem st" "pi_mem (inc_decrypted st) = pi_mem st"
  "pi_svc (inc_decrypt_errors st) = pi_svc st" "pi_svc (inc_decrypted st) = pi_svc st"
  by (simp_all add: inc_decrypt_errors_def inc_decrypted_def on_metrics_def)

text \<open>The paths of the callback: no key obtained, or a key at the first new address.\<close>

lemma DecryptAndBuildFrame_cases:
  obtains (no_key) svc err where "DecryptAndBuildFrame unwrap g cfg ev st = (inc_decrypt_errors (st\<lparr>pi_svc := svc\<rparr>), Inl err)"
      "ep_PayloadNonce (ev_Crypto ev) = [] \<Longrightarrow> svc = pi_svc st \<and> err = ErrMissingPayloadNonce"
  | (rejected) svc key m2 err where "unwrap (pi_svc st) (ToEnvelope ev) = (svc, Inr key)"
      "DecryptPayload g (pi_mem st @ [key]) (length (pi_mem st)) (ep_PayloadNonce (ev_Crypto ev))
        (ep_Ciphertext (ev_Crypto ev)) (event_aad cfg ev) (max_payload cfg) = (m2, Inl err)"
      "DecryptAndBuildFrame unwrap g cfg ev st =
        (inc_decrypt_errors (st\<lparr>pi_svc := svc, pi_mem := Zeroize m2 (length (pi_mem st))\<rparr>), Inl err)"
  | (decrypted) svc key m2 p where "unwrap (pi_svc st) (ToEnvelope ev) = (svc, Inr key)"
      "DecryptPayload g (pi_mem st @ [key]) (length (pi_mem st)) (ep_PayloadNonce (ev_Crypto ev))
        (ep_Ciphertext (ev_Crypto ev)) (event_aad cfg ev) (max_payload cfg) = (m2, Inr p)"
      "DecryptAndBuildFrame unwrap g cfg ev st =
        (inc_decrypted (st\<lparr>pi_svc := svc, pi_mem := Zeroize m2 (length (pi_mem st))\<rparr>),
         case marshal_payload (event_payload ev (m2 ! p)) of
           None \<Rightarrow> Inl ErrMarshal
         | Some json \<Rightarrow> Inr (Some (NewDataFrame (ev_Type ev) (ev_EventID ev) json)))"
proof (cases "ep_PayloadNonce (ev_Crypto ev) = []")
  case True
  then show thesis by (intro no_key [of "pi_svc st"]) (simp_all add: DecryptAndBuildFrame_def)
next
  case False
  obtain svc r where u: "unwrap (pi_svc st) (ToEnvelope ev) = (svc, r)" by fastforce
  show thesis
  proof (cases r)
    case (Inl err)
    then show thesis using False u by (intro no_key [of svc err]) (simp_all add: DecryptAndBuildFrame_def)
  next
    case (Inr key)
    obtain m2 res where d: "DecryptPayload g (pi_mem st @ [key]) (length (pi_mem st)) (ep_PayloadNonce (ev_Crypto ev))
      (ep_Ciphertext (ev_Crypto ev)) (event_aad cfg ev) (max_payload cfg) = (m2, res)" by fastforce
    show thesis
    proof (cases res)
      case (Inl err)
      then show thesis using False u Inr d
        by (intro rejected [of svc key m2 err]) (simp_all add: DecryptAndBuildFrame_def alloc_buf_def)
    next
      case r: (Inr p)
      then show thesis using False u Inr d
        by (intro decrypted [of svc key m2 p])
          (simp_all add: DecryptAndBuildFrame_def alloc_buf_def split: option.split)
    qed
  qed
qed

text \<open>What a call leaves in memory, on every way out.\<close>

lemma DecryptAndBuildFrame_memory:
  "case DecryptAndBuildFrame unwrap gcm_open cfg ev st of (st', res) \<Rightarrow>
    (\<forall>b < length (pi_mem st). pi_mem st' ! b = pi_mem st ! b) \<and>
    (length (pi_mem st) < length (pi_mem st') \<longrightarrow> zeroed (pi_mem st') (length (pi_mem st))) \<and>
    (\<forall>err. res = Inl err \<longrightarrow> err = ErrMarshal \<or>
      (\<forall>b. length (pi_mem st) \<le> b \<and> b < length (pi_mem st') \<longrightarrow> zeroed (pi_mem st') b))"
proof -
  let ?n = "length (pi_mem st)"
  have kept: "(\<forall>b < ?n. Zeroize m2 ?n ! b = pi_mem st ! b) \<and> zeroed (Zeroize m2 ?n) ?n"
    if "Suc ?n \<le> length m2" "\<forall>b < Suc ?n. m2 ! b = (pi_mem st @ [key]) ! b" for m2 key
    using that by (auto simp: Zeroize_other nth_append intro: Zeroize_zeroed)
  have rest: "zeroed (Zeroize m2 ?n) b"
    if "\<forall>b. Suc ?n \<le> b \<and> b < length m2 \<longrightarrow> zeroed m2 b" "?n \<le> b" "b < length m2" for m2 b
    using that Zeroize_zeroed [of ?n m2] by (cases "b = ?n") (auto simp: zeroed_def Zeroize_other)
  show ?thesis
  proof (cases unwrap gcm_open cfg ev st rule: DecryptAndBuildFrame_cases)
    case (no_key svc err)
    then show ?thesis by auto
  next
    case (rejected svc key m2 err)
    then show ?thesis
      using DecryptPayload_memory [where g = gcm_open and m = "pi_mem st @ [key]" and dek = ?n and
        n = "ep_PayloadNonce (ev_Crypto ev)" and c = "ep_Ciphertext (ev_Crypto ev)" and aad = "event_aad cfg ev" and
        mx = "max_payload cfg"] kept [of m2 key] rest [of m2] by simp
  next
    case (decrypted svc key m2 p)
    then show ?thesis
      using DecryptPayload_memory [where g = gcm_open and m = "pi_mem st @ [key]" and dek = ?n and
        n = "ep_PayloadNonce (ev_Crypto ev)" and c = "ep_Ciphertext (ev_Crypto ev)" and aad = "event_aad cfg ev" and
        mx = "max_payload cfg"] kept [of m2 key] by (simp split: option.split)
  qed
qed

section \<open>Properties\<close>

text \<open>
  C16. The data key never outlives the call: whatever the key service returned and however
  the call ends (wrong key size, bad Base64, failed authentication, oversized or invalid
  payload, success), the buffer that held the key is all zeros afterwards; buffers that
  existed before are untouched; and when decryption failed, nothing but zeros is left in
  the buffers the call allocated.
\<close>

theorem dek_always_erased:
  "case DecryptAndBuildFrame unwrap gcm_open cfg ev st of (st', res) \<Rightarrow>
    (\<forall>b < length (pi_mem st). pi_mem st' ! b = pi_mem st ! b) \<and>
    (length (pi_mem st) < length (pi_mem st') \<longrightarrow> zeroed (pi_mem st') (length (pi_mem st))) \<and>
    (\<forall>err. res = Inl err \<longrightarrow> err = ErrMarshal \<or>
      (\<forall>b. length (pi_mem st) \<le> b \<and> b < length (pi_mem st') \<longrightarrow> zeroed (pi_mem st') b))"
  by (rule DecryptAndBuildFrame_memory)

text \<open>An unwrapper that always answers with one key, and an event that decrypts under it.\<close>

definition demo_unwrap :: "nat unwrap" where
  "demo_unwrap n env = (Suc n, Inr (replicate 32 (CHR ''k'')))"

definition demo_state :: "nat pipe_state" where
  "demo_state = \<lparr>pi_svc = 0, pi_mem = [], pi_metrics = None\<rparr>"

definition demo_cfg :: crypto_cfg where
  "demo_cfg = \<lparr>AADEnabled = True, AADTemplate = DefaultAADTemplate, MaxPayloadBytes = 0\<rparr>"

definition demo_event :: encrypted_event where
  "demo_event = zero_event\<lparr>ev_Type := ''msg'', ev_EventID := ''e1'', ev_RoutingKey := ''a'',
     ev_Crypto := (ev_Crypto zero_event)\<lparr>ep_PayloadNonce := demo_nonce, ep_Ciphertext := demo_cipher\<rparr>\<rparr>"

definition demo_json :: string where
  "demo_json = the (marshal_payload (event_payload demo_event ''{}''))"

lemma demo_marshal: "marshal_payload (event_payload demo_event ''{}'') = Some demo_json"
proof -
  have "json_Compact ''{}'' = Some ''{}''"
    by (simp add: json_Compact_def compact_emit_def scan_eof_def scan_defs isSpace_def maxNestingDepth_def)
  moreover have "json_time (ev_CreatedAt demo_event) \<noteq> None"
    by (simp add: demo_event_def zero_event_def zero_time_def json_time_def)
  ultimately have "marshal_payload (event_payload demo_event ''{}'') \<noteq> None"
    by (simp add: marshal_payload_def event_payload_def json_raw_def split: option.split)
  then show ?thesis by (simp add: demo_json_def)
qed

lemma demo_frame:
  "\<exists>st'. DecryptAndBuildFrame demo_unwrap demo_gcm demo_cfg demo_event st =
     (st', Inr (Some (NewDataFrame ''msg'' ''e1'' demo_json)))"
proof -
  have nonce: "demo_nonce \<noteq> []" by (simp add: demo_nonce_def)
  have ev: "ep_PayloadNonce (ev_Crypto demo_event) = demo_nonce" "ep_Ciphertext (ev_Crypto demo_event) = demo_cipher"
    "ev_Type demo_event = ''msg''" "ev_EventID demo_event = ''e1''" by (simp_all add: demo_event_def)
  have "DecryptPayload demo_gcm (m @ [replicate 32 (CHR ''k'')]) (length m) demo_nonce demo_cipher aad (max_payload demo_cfg) =
    (m @ [replicate 32 (CHR ''k'')] @ [''{}''], Inr (Suc (length m)))" for m aad
    by (simp add: DecryptPayload_def demo_nonce_def demo_cipher_def gcm_nonce_size_def demo_gcm_def alloc_buf_def
        max_payload_def demo_cfg_def)
  then show ?thesis
    by (simp add: DecryptAndBuildFrame_def demo_unwrap_def alloc_buf_def ev nonce nth_append demo_marshal)
qed

theorem dek_always_erased_witness:
  "case DecryptAndBuildFrame demo_unwrap demo_gcm demo_cfg demo_event demo_state of (st', res) \<Rightarrow>
    length (pi_mem st') = 0 \<or> zeroed (pi_mem st') 0"
  using dek_always_erased [where unwrap = demo_unwrap and gcm_open = demo_gcm and cfg = demo_cfg and
      ev = demo_event and st = demo_state]
  by (auto simp: demo_state_def split: prod.splits)

text \<open>
  C7. End to end, the frame built from an event means what it should to the subscriber's
  browser, whatever the producer put into the event and whatever bytes were encrypted: the
  event-stream specification reads it as exactly one event, whose name and identifier are
  the sanitised type and identifier and whose data is the JSON text of the event with the
  decrypted payload. No field and no plaintext can inject a line, a field or an event.
\<close>

theorem frame_means_event:
  assumes "DecryptAndBuildFrame unwrap gcm_open cfg ev st = (st', Inr (Some f))"
  shows "\<exists>key nonce ciphertext plaintext json.
    snd (unwrap (pi_svc st) (ToEnvelope ev)) = Inr key \<and> length key = 32 \<and>
    base64_DecodeString (ep_PayloadNonce (ev_Crypto ev)) = Some nonce \<and>
    base64_DecodeString (ep_Ciphertext (ev_Crypto ev)) = Some ciphertext \<and>
    gcm_open key nonce ciphertext (event_aad cfg ev) = Some plaintext \<and>
    int (length plaintext) \<le> max_payload cfg \<and>
    marshal_payload (event_payload ev plaintext) = Some json \<and>
    sse_parse last_id (Data f) = [frame_event last_id (ev_Type ev) (ev_EventID ev) json]"
proof -
  have "0 < max_payload cfg" by (simp add: max_payload_def)
  obtain svc key m2 p json where c: "unwrap (pi_svc st) (ToEnvelope ev) = (svc, Inr key)"
    "DecryptPayload gcm_open (pi_mem st @ [key]) (length (pi_mem st)) (ep_PayloadNonce (ev_Crypto ev))
      (ep_Ciphertext (ev_Crypto ev)) (event_aad cfg ev) (max_payload cfg) = (m2, Inr p)"
    and j: "marshal_payload (event_payload ev (m2 ! p)) = Some json"
      "f = NewDataFrame (ev_Type ev) (ev_EventID ev) json"
    using assms by (cases unwrap gcm_open cfg ev st rule: DecryptAndBuildFrame_cases) (auto split: option.splits)
  have "one_line json" using no_break_payload [OF j(1)] by (simp add: one_line_no_break)
  from sse_run_data_frame [OF this, of last_id _ _ "[]"] j
  have "sse_parse last_id (Data f) = [frame_event last_id (ev_Type ev) (ev_EventID ev) json]"
    by (simp add: sse_parse_def sse_lines_def)
  with DecryptPayload_Inr [OF c(2)] c(1) j(1) \<open>0 < max_payload cfg\<close> show ?thesis by force
qed

theorem frame_means_event_witness:
  "\<exists>json. sse_parse [] (Data (NewDataFrame ''msg'' ''e1'' demo_json)) =
    [frame_event [] (ev_Type demo_event) (ev_EventID demo_event) json]"
proof -
  obtain st' where "DecryptAndBuildFrame demo_unwrap demo_gcm demo_cfg demo_event demo_state =
    (st', Inr (Some (NewDataFrame ''msg'' ''e1'' demo_json)))" using demo_frame by blast
  from frame_means_event [OF this, of "[]"] show ?thesis by blast
qed

text \<open>
  The key service is asked only when it must be: an event nobody is subscribed to leaves
  the key service, the buffers and the hub exactly as they were, and so does an event
  without payload nonce, which is counted as a decryption error.
\<close>

theorem unwrap_only_when_needed:
  assumes "hub_reach ord n lim h R" "range_order ord" "n < 2 ^ 32"
    and "subscribers h R (event_key r ev) = {} \<or> ep_PayloadNonce (ev_Crypto ev) = []"
  shows "case HandleEvent unwrap gcm_open cfg r ord ev (h, st) of (h', st') \<Rightarrow>
    h' = h \<and> pi_svc st' = pi_svc st \<and> pi_mem st' = pi_mem st"
proof (cases "subscribers h R (event_key r ev) = {}")
  case True
  then have "hub_recipients ord h (event_key r ev) = []"
    using fanout_subscribers(3) [OF assms(1-3)] by simp
  then show ?thesis by (simp add: HandleEvent_def ConditionalBroadcast_eq on_metrics_def)
next
  case False
  then have "ep_PayloadNonce (ev_Crypto ev) = []" using assms(4) by simp
  then have "DecryptAndBuildFrame unwrap gcm_open cfg ev st = (inc_decrypt_errors st, Inl ErrMissingPayloadNonce)"
    by (simp add: DecryptAndBuildFrame_def)
  then show ?thesis by (simp add: HandleEvent_def ConditionalBroadcast_eq on_metrics_def)
qed

theorem unwrap_only_when_needed_witness:
  "case HandleEvent demo_unwrap demo_gcm demo_cfg default_router (\<lambda>xs. xs) (demo_event\<lparr>ev_RoutingKey := ''z''\<rparr>)
      (demo_hub, demo_state) of (h', st') \<Rightarrow> h' = demo_hub \<and> pi_svc st' = 0"
proof -
  let ?ev = "demo_event\<lparr>ev_RoutingKey := ''z''\<rparr>"
  have none: "subscribers demo_hub {0} (event_key default_router ?ev) = {} \<or> ep_PayloadNonce (ev_Crypto ?ev) = []"
    by (simp add: event_key_def demo_subscribers)
  show ?thesis
    using unwrap_only_when_needed [OF demo none, where unwrap = demo_unwrap and gcm_open = demo_gcm and
        cfg = demo_cfg and st = demo_state] by (auto simp: demo_state_def split: prod.splits)
qed

text \<open>
  One decryption serves every subscriber: handling an event with subscribers runs
  \<^verbatim>\<open>DecryptAndBuildFrame\<close> once, on the state before the call, and offers the frame it built to
  each subscribed live connection once and to nobody else; if it fails, no connection is
  touched.
\<close>

theorem one_decryption_per_event:
  assumes "hub_reach ord n lim h R" "range_order ord" "n < 2 ^ 32" and "subscribers h R (event_key r ev) \<noteq> {}"
    and "DecryptAndBuildFrame unwrap gcm_open cfg ev st = (st1, res)"
  shows "case HandleEvent unwrap gcm_open cfg r ord ev (h, st) of (h', st') \<Rightarrow>
    pi_svc st' = pi_svc st1 \<and> pi_mem st' = pi_mem st1 \<and>
    h_heap h' = (case res of
      Inr (Some f) \<Rightarrow> (\<lambda>c. if c \<in> subscribers h R (event_key r ev) then fst (EnqueueFrame (h_heap h c) f) else h_heap h c)
    | _ \<Rightarrow> h_heap h)"
  using assms(4) fanout_subscribers [OF assms(1-3), of "event_key r ev"]
  by (simp add: HandleEvent_def ConditionalBroadcast_eq assms(5) on_metrics_def split: sum.split option.split)

theorem one_decryption_per_event_witness:
  "case HandleEvent demo_unwrap demo_gcm demo_cfg default_router (\<lambda>xs. xs) demo_event (demo_hub, demo_state) of (h', st') \<Rightarrow>
    h_heap h' = (\<lambda>c. if c \<in> {0} then fst (EnqueueFrame (h_heap demo_hub c) (NewDataFrame ''msg'' ''e1'' demo_json))
      else h_heap demo_hub c)"
proof -
  have "event_key default_router demo_event = ''a''" by (simp add: event_key_def demo_event_def)
  then have sub: "subscribers demo_hub {0} (event_key default_router demo_event) = {0}"
    by (simp add: demo_subscribers)
  then have ne: "subscribers demo_hub {0} (event_key default_router demo_event) \<noteq> {}" by simp
  obtain st1 where "DecryptAndBuildFrame demo_unwrap demo_gcm demo_cfg demo_event demo_state =
    (st1, Inr (Some (NewDataFrame ''msg'' ''e1'' demo_json)))" using demo_frame by blast
  from one_decryption_per_event [OF demo ne this] show ?thesis unfolding sub by (auto split: prod.splits)
qed

end
