(* ===== verification/Http_Server.thy ===== *)
theory Http_Server
  imports Go_Json Client_Ip Logging Pipeline
begin

text \<open>
  HTTP answers and the middlewares around the endpoints: \<^verbatim>\<open>internal/api/helpers.go\<close> (\<^verbatim>\<open>respondJSON\<close>,
  \<^verbatim>\<open>respondError\<close>), \<^verbatim>\<open>models.go\<close> and \<^verbatim>\<open>middleware.go\<close>. A \<open>writer\<close> is the state of one
  \<^verbatim>\<open>http.ResponseWriter\<close>: the header map, the status once it is sent (a second \<^verbatim>\<open>WriteHeader\<close> is ignored, a
  \<^verbatim>\<open>Write\<close> without one sends 200), the body, the wrappers around the connection, and the write deadline. The
  access-log interceptor's fields are kept beside: what it recorded as status and bytes.

  \<^verbatim>\<open>http.ResponseController\<close> reaches the connection only through wrappers that have an \<^verbatim>\<open>Unwrap\<close> method or the
  operation itself. \<^verbatim>\<open>responseWriterInterceptor\<close> has \<^verbatim>\<open>Flush\<close> but neither \<^verbatim>\<open>Unwrap\<close> nor \<^verbatim>\<open>SetWriteDeadline\<close>, so
  a deadline set through it is the error \<^verbatim>\<open>ErrNotSupported\<close> and has no effect.

  A handler is a function on a state of its own and the writer; its last result says whether it panicked.
\<close>

section \<open>Definitions\<close>

subsection \<open>Response writers\<close>

datatype wrapper = ResponseWriterInterceptor

record writer =
  wr_header :: "(string, string) gomap"
  wr_status :: "nat option"
  wr_body :: string
  wr_wrappers :: "wrapper list"
  wr_deadline :: "int option"
  wr_logStatus :: nat
  wr_logBytes :: nat

definition new_writer :: writer where
  "new_writer = \<lparr>wr_header = [], wr_status = None, wr_body = [], wr_wrappers = [], wr_deadline = None,
     wr_logStatus = 0, wr_logBytes = 0\<rparr>"

definition Header_Set :: "writer \<Rightarrow> string \<Rightarrow> string \<Rightarrow> writer" where
  "Header_Set w k v = w\<lparr>wr_header := AList.update k v (wr_header w)\<rparr>"

definition send_status :: "writer \<Rightarrow> nat \<Rightarrow> writer" where
  "send_status w code = (if wr_status w = None then w\<lparr>wr_status := Some code\<rparr> else w)"

definition WriteHeader :: "writer \<Rightarrow> nat \<Rightarrow> writer" where
  "WriteHeader w code =
     send_status (if wr_wrappers w = [] then w else w\<lparr>wr_logStatus := code\<rparr>) code"

definition Write :: "writer \<Rightarrow> string \<Rightarrow> writer" where
  "Write w b =
     (let w1 = (if wr_wrappers w \<noteq> [] \<and> wr_logStatus w = 0 then w\<lparr>wr_logStatus := 200\<rparr> else w);
          w2 = (send_status w1 200)\<lparr>wr_body := wr_body w @ b\<rparr>
      in if wr_wrappers w = [] then w2 else w2\<lparr>wr_logBytes := wr_logBytes w + length b\<rparr>)"

definition rc_SetWriteDeadline :: "writer \<Rightarrow> int \<Rightarrow> writer" where
  "rc_SetWriteDeadline w t = (if wr_wrappers w = [] then w\<lparr>wr_deadline := Some t\<rparr> else w)"

subsection \<open>JSON answers\<close>

text \<open>
  The encoder writes its text and a line feed, or nothing if the value cannot be encoded (\<open>None\<close>: a time
  outside the years of RFC 3339).
\<close>

definition respondJSON :: "writer \<Rightarrow> nat \<Rightarrow> string option \<Rightarrow> writer" where
  "respondJSON w code payload =
     (let w1 = WriteHeader (Header_Set w ''Content-Type'' ''application/json; charset=utf-8'') code
      in case payload of None \<Rightarrow> w1 | Some p \<Rightarrow> Write w1 (p @ [LF]))"

definition error_response :: "string \<Rightarrow> string \<Rightarrow> string" where
  "error_response message details =
     ''{'' @ field ''error'' (json_string message) @
     (if details = [] then [] else '','' @ field ''details'' (json_string details)) @ ''}''"

definition respondError :: "writer \<Rightarrow> nat \<Rightarrow> string \<Rightarrow> string \<Rightarrow> writer" where
  "respondError w code message details = respondJSON w code (Some (error_response message details))"

record health_response =
  hr_Status :: string
  hr_Service :: string
  hr_Instance :: string
  hr_Timestamp :: go_time
  hr_UptimeSec :: int
  hr_Details :: "(string, string) gomap"

fun join_comma :: "string list \<Rightarrow> string" where
  "join_comma [] = []"
| "join_comma [s] = s"
| "join_comma (s # ss) = s @ '','' @ join_comma ss"

text \<open>A map is encoded with its keys in byte order.\<close>

definition json_map :: "(string, string) gomap \<Rightarrow> string" where
  "json_map m =
     ''{'' @ join_comma (map (\<lambda>k. json_string k @ '':'' @ json_string (the (map_of m k))) (sort (map fst m))) @ ''}''"

definition marshal_health :: "health_response \<Rightarrow> string option" where
  "marshal_health r =
     map_option (\<lambda>ts.
       ''{'' @ field ''status'' (json_string (hr_Status r)) @ '','' @ field ''service'' (json_string (hr_Service r)) @ '','' @
       omit_empty ''instance_id'' (hr_Instance r) @ field ''timestamp'' ts @ '','' @
       field ''uptime_seconds'' (strconv_FormatInt (hr_UptimeSec r)) @
       (if hr_Details r = [] then [] else '','' @ field ''details'' (json_map (hr_Details r))) @ ''}'')
     (json_time (hr_Timestamp r))"

subsection \<open>Middlewares\<close>

type_synonym 's serve = "string option \<Rightarrow> request \<Rightarrow> 's \<Rightarrow> writer \<Rightarrow> 's \<times> writer \<times> bool"

definition safe_trace_char :: "char \<Rightarrow> bool" where
  "safe_trace_char c \<longleftrightarrow>
     (CHR ''a'' \<le> c \<and> c \<le> CHR ''z'') \<or> (CHR ''A'' \<le> c \<and> c \<le> CHR ''Z'') \<or> (CHR ''0'' \<le> c \<and> c \<le> CHR ''9'') \<or>
     c = CHR ''-'' \<or> c = CHR ''_''"

definition isSafeTraceID :: "string \<Rightarrow> bool" where
  "isSafeTraceID s \<longleftrightarrow> \<not> (length s = 0 \<or> length s > 64) \<and> list_all safe_trace_char s"

text \<open>\<open>fresh\<close> is the hexadecimal text of sixteen random bytes.\<close>

definition trace_id :: "string \<Rightarrow> request \<Rightarrow> string" where
  "trace_id fresh r =
     (let requestID = Header_Get (r_Header r) ''X-Request-Id'';
          traceID = (if requestID = [] then Header_Get (r_Header r) ''X-Trace-Id'' else requestID)
      in if isSafeTraceID traceID then traceID else fresh)"

definition TraceMiddleware :: "string \<Rightarrow> 's serve \<Rightarrow> 's serve" where
  "TraceMiddleware fresh next ctx r s w =
     next (Some (trace_id fresh r)) r s (Header_Set w ''X-Request-Id'' (trace_id fresh r))"

definition security_headers :: "writer \<Rightarrow> writer" where
  "security_headers w =
     Header_Set (Header_Set (Header_Set (Header_Set w ''X-Content-Type-Options'' ''nosniff'') ''X-Frame-Options'' ''DENY'')
       ''Content-Security-Policy'' (''default-src '' @ [CHR 0x27] @ ''none'' @ [CHR 0x27])) ''Referrer-Policy'' ''no-referrer''"

definition SecurityHeadersMiddleware :: "'s serve \<Rightarrow> 's serve" where
  "SecurityHeadersMiddleware next ctx r s w = next ctx r s (security_headers w)"

definition RecoveryMiddleware :: "'s serve \<Rightarrow> 's serve" where
  "RecoveryMiddleware next ctx r s w =
     (case next ctx r s w of
        (s', w', panicked) \<Rightarrow>
          if panicked
          then (s', respondError w' 500 (''erreur interne du serveur'') (''une exception inattendue est survenue''), False)
          else (s', w', False))"

record access_entry =
  ae_method :: string
  ae_path :: string
  ae_status :: nat
  ae_bytes :: nat
  ae_remote :: string
  ae_trace :: "string option"

text \<open>
  The request URL as \<^verbatim>\<open>URL.String\<close> gives it for a path and a raw query. \<open>redact\<close> stands for \<^verbatim>\<open>RedactURL\<close>
  (theory \<open>Logging\<close>) with its URL parser.
\<close>

definition request_url :: "request \<Rightarrow> string" where
  "request_url r = r_Path r @ (if r_RawQuery r = [] then [] else CHR ''?'' # r_RawQuery r)"

definition wrap_interceptor :: "writer \<Rightarrow> writer" where
  "wrap_interceptor w = w\<lparr>wr_wrappers := ResponseWriterInterceptor # wr_wrappers w, wr_logStatus := 0, wr_logBytes := 0\<rparr>"

definition LoggerMiddleware :: "(string \<Rightarrow> string) \<Rightarrow> 's serve \<Rightarrow> ('s \<times> access_entry list) serve" where
  "LoggerMiddleware redact next ctx r s w =
     (case next ctx r (fst s) (wrap_interceptor w) of
        (s', w', panicked) \<Rightarrow>
          if panicked then ((s', snd s), w', True)
          else
            (let status = (if wr_logStatus w' = 0 then 200 else wr_logStatus w');
                 entry = \<lparr>ae_method = r_Method r, ae_path = redact (request_url r), ae_status = status,
                          ae_bytes = wr_logBytes w', ae_remote = r_RemoteAddr r, ae_trace = ctx\<rparr>
             in ((s', snd s @ [entry]), w', False)))"

text \<open>The chain \<^verbatim>\<open>NewRouter\<close> builds, outermost first: trace, access log, recovery, security headers.\<close>

definition middleware_chain :: "string \<Rightarrow> (string \<Rightarrow> string) \<Rightarrow> 's serve \<Rightarrow> ('s \<times> access_entry list) serve" where
  "middleware_chain fresh redact mux =
     TraceMiddleware fresh (LoggerMiddleware redact (RecoveryMiddleware (SecurityHeadersMiddleware mux)))"

text \<open>The writer an endpoint behind the chain is given for a new request.\<close>

definition endpoint_writer :: "string \<Rightarrow> request \<Rightarrow> writer" where
  "endpoint_writer fresh r =
     security_headers (wrap_interceptor (Header_Set new_writer ''X-Request-Id'' (trace_id fresh r)))"

section \<open>Lemmas\<close>

lemma Header_Set_fields [simp]:
  "wr_status (Header_Set w k v) = wr_status w" "wr_body (Header_Set w k v) = wr_body w"
  "wr_wrappers (Header_Set w k v) = wr_wrappers w" "wr_deadline (Header_Set w k v) = wr_deadline w"
  "map_of (wr_header (Header_Set w k v)) = (map_of (wr_header w))(k \<mapsto> v)"
  by (simp_all add: Header_Set_def update_conv')

lemma Write_fields [simp]:
  "wr_body (Write w b) = wr_body w @ b" "wr_wrappers (Write w b) = wr_wrappers w"
  "wr_deadline (Write w b) = wr_deadline w" "wr_header (Write w b) = wr_header w"
  "wr_status (Write w b) = Some (case wr_status w of None \<Rightarrow> 200 | Some code \<Rightarrow> code)"
  by (simp_all add: Write_def send_status_def Let_def split: option.split)

lemma WriteHeader_fields [simp]:
  "wr_body (WriteHeader w code) = wr_body w" "wr_wrappers (WriteHeader w code) = wr_wrappers w"
  "wr_deadline (WriteHeader w code) = wr_deadline w" "wr_header (WriteHeader w code) = wr_header w"
  "wr_status (WriteHeader w code) = Some (case wr_status w of None \<Rightarrow> code | Some code \<Rightarrow> code)"
  by (simp_all add: WriteHeader_def send_status_def split: option.split)

lemma SetWriteDeadline_fields [simp]:
  "wr_body (rc_SetWriteDeadline w t) = wr_body w" "wr_wrappers (rc_SetWriteDeadline w t) = wr_wrappers w"
  "wr_header (rc_SetWriteDeadline w t) = wr_header w" "wr_status (rc_SetWriteDeadline w t) = wr_status w"
  "wr_wrappers w \<noteq> [] \<Longrightarrow> rc_SetWriteDeadline w t = w"
  by (simp_all add: rc_SetWriteDeadline_def)

text \<open>An error answer on a writer nothing was sent through: its status, and its body as the only output.\<close>

lemma respondError_fields [simp]:
  "wr_body (respondError w code m d) = wr_body w @ error_response m d @ [LF]"
  "wr_wrappers (respondError w code m d) = wr_wrappers w" "wr_deadline (respondError w code m d) = wr_deadline w"
  "map_of (wr_header (respondError w code m d)) =
     (map_of (wr_header w))(''Content-Type'' \<mapsto> ''application/json; charset=utf-8'')"
  "wr_status (respondError w code m d) = Some (case wr_status w of None \<Rightarrow> code | Some c \<Rightarrow> c)"
  by (simp_all add: respondError_def respondJSON_def Let_def split: option.split)

lemma endpoint_writer_fields [simp]:
  "wr_status (endpoint_writer fresh r) = None" "wr_body (endpoint_writer fresh r) = []"
  "wr_wrappers (endpoint_writer fresh r) \<noteq> []" "wr_deadline (endpoint_writer fresh r) = None"
  by (simp_all add: endpoint_writer_def security_headers_def wrap_interceptor_def new_writer_def)

lemma trace_id_safe: "isSafeTraceID fresh \<Longrightarrow> isSafeTraceID (trace_id fresh r)"
  by (simp add: trace_id_def Let_def)

lemma middleware_chain_run:
  "middleware_chain fresh redact mux ctx r (s, log) new_writer =
     (case mux (Some (trace_id fresh r)) r s (endpoint_writer fresh r) of
        (s', w, panicked) \<Rightarrow>
          (let w' = (if panicked then respondError w 500 (''erreur interne du serveur'') (''une exception inattendue est survenue'') else w)
           in ((s', log @ [\<lparr>ae_method = r_Method r, ae_path = redact (request_url r),
                 ae_status = (if wr_logStatus w' = 0 then 200 else wr_logStatus w'), ae_bytes = wr_logBytes w',
                 ae_remote = r_RemoteAddr r, ae_trace = Some (trace_id fresh r)\<rparr>]), w', False)))"
  by (simp add: middleware_chain_def TraceMiddleware_def LoggerMiddleware_def RecoveryMiddleware_def
      SecurityHeadersMiddleware_def endpoint_writer_def Let_def split: prod.split)

end
