(* ===== verification/Go_Json_Decode.thy ===== *)
theory Go_Json_Decode
  imports Go_Json Go_Case "HOL-Library.Word"
begin

text \<open>
  Decoding with Go's \<^verbatim>\<open>encoding/json\<close>: a strict parser of one JSON value, with the package's nesting
  limit and its treatment of escapes, surrogates and invalid UTF-8, and the rules for storing a
  value in a struct field. \<open>json_Unmarshal\<close> wants one value and nothing else in its input;
  \<open>Decoder_Decode\<close> reads the first value of a stream and ignores what follows. A key selects a
  field if they are equal up to case folding; \<^verbatim>\<open>null\<close> leaves a field alone; a value of the wrong
  type is an error that does not stop the other fields from being stored.
\<close>

section \<open>Definitions\<close>

datatype json = JNull | JBool bool | JNum string | JStr string | JArr "json list" | JObj "(string \<times> json) list"

subsection \<open>Strings\<close>

definition utf8_encode :: "nat \<Rightarrow> string" where
  "utf8_encode r =
     (if r < 0x80 then [char_of r]
      else if r < 0x800 then [char_of (0xC0 + r div 64), char_of (0x80 + r mod 64)]
      else if r < 0x10000 then
        [char_of (0xE0 + r div 4096), char_of (0x80 + r div 64 mod 64), char_of (0x80 + r mod 64)]
      else [char_of (0xF0 + r div 262144), char_of (0x80 + r div 4096 mod 64), char_of (0x80 + r div 64 mod 64),
            char_of (0x80 + r mod 64)])"

definition replacement :: string where
  "replacement = [CHR 0xEF, CHR 0xBF, CHR 0xBD]"

definition hex_val :: "char \<Rightarrow> nat" where
  "hex_val c = (if byte c \<le> 57 then byte c - 48 else if byte c \<le> 70 then byte c - 55 else byte c - 87)"

text \<open>\<^verbatim>\<open>getu4\<close>: a \<^verbatim>\<open>\u\<close> escape at the front, and what follows it.\<close>

definition getu4 :: "string \<Rightarrow> (nat \<times> string) option" where
  "getu4 s =
     (case s of
        c # u # a # b # e # f # t \<Rightarrow>
          if c = CHR 0x5C \<and> u = CHR ''u'' \<and> list_all is_hex [a, b, e, f]
          then Some (hex_val a * 4096 + hex_val b * 256 + hex_val e * 16 + hex_val f, t) else None
      | _ \<Rightarrow> None)"

definition is_surrogate :: "nat \<Rightarrow> bool" where
  "is_surrogate r \<longleftrightarrow> 0xD800 \<le> r \<and> r < 0xE000"

definition simple_escape :: "char \<Rightarrow> char" where
  "simple_escape c =
     (if c = CHR ''b'' then CHR 0x08 else if c = CHR ''f'' then CHR 0x0C else if c = CHR ''n'' then CHR 0x0A
      else if c = CHR ''r'' then CHR 0x0D else if c = CHR ''t'' then CHR 0x09 else c)"

lemma getu4_shorter: "getu4 s = Some (r, u) \<Longrightarrow> length u < length s"
  by (auto simp: getu4_def split: list.splits if_splits)

text \<open>The contents of a string literal that the scanner has accepted.\<close>

function unquote :: "string \<Rightarrow> string" where
  "unquote s =
     (case s of
        [] \<Rightarrow> []
      | c # t \<Rightarrow>
          if c = CHR 0x5C then
            (case getu4 s of
               Some (r, u) \<Rightarrow>
                 if is_surrogate r then
                   (case getu4 u of
                      Some (r1, w) \<Rightarrow>
                        if r < 0xDC00 \<and> 0xDC00 \<le> r1 \<and> r1 < 0xE000
                        then utf8_encode ((r - 0xD800) * 1024 + (r1 - 0xDC00) + 0x10000) @ unquote w
                        else replacement @ unquote u
                    | None \<Rightarrow> replacement @ unquote u)
                 else utf8_encode r @ unquote u
             | None \<Rightarrow> (case t of [] \<Rightarrow> [] | d # u \<Rightarrow> simple_escape d # unquote u))
          else if is_ascii c then c # unquote t
          else (if rune_tail c t = 0 then replacement else c # take (rune_tail c t) t) @ unquote (drop (rune_tail c t) t))"
  by pat_completeness auto

termination
  by (relation "measure length") (auto dest!: getu4_shorter)

declare unquote.simps [simp del]

text \<open>The literal up to its closing quote, and what follows; \<open>None\<close> if it is not valid.\<close>

fun raw_string :: "string \<Rightarrow> (string \<times> string) option" where
  "raw_string [] = None"
| "raw_string (c # s) =
     (if c = CHR 0x22 then Some ([], s)
      else if byte c < 0x20 then None
      else if c = CHR 0x5C then
        (case s of
           [] \<Rightarrow> None
         | d # t \<Rightarrow>
             if d = CHR ''u'' then (if getu4 (c # s) = None then None else map_option (\<lambda>(r, u). (c # d # r, u)) (raw_string t))
             else if d \<in> set [CHR 0x22, CHR 0x5C, CHR ''/'', CHR ''b'', CHR ''f'', CHR ''n'', CHR ''r'', CHR ''t'']
             then map_option (\<lambda>(r, u). (c # d # r, u)) (raw_string t)
             else None)
      else map_option (\<lambda>(r, u). (c # r, u)) (raw_string s))"

lemma raw_string_shorter: "raw_string s = Some (r, u) \<Longrightarrow> length u < length s"
  by (induction s arbitrary: r u rule: raw_string.induct) (auto split: if_splits list.splits, fastforce+)

subsection \<open>Values\<close>

definition skip_ws :: "string \<Rightarrow> string" where
  "skip_ws s = dropWhile isSpace s"

lemma skip_ws_length: "length (skip_ws s) \<le> length s"
  by (simp add: skip_ws_def length_dropWhile_le)

text \<open>An optional fraction or exponent: the mark, a sign, and at least one digit.\<close>

definition num_part :: "(char \<Rightarrow> bool) \<Rightarrow> bool \<Rightarrow> string \<Rightarrow> (string \<times> string) option" where
  "num_part mark sgn_ok s =
     (case s of
        [] \<Rightarrow> Some ([], [])
      | c # t \<Rightarrow>
          if mark c then
            (let sg = (if sgn_ok then takeWhile (\<lambda>d. d = CHR ''+'' \<or> d = CHR ''-'') (take 1 t) else []);
                 ds = takeWhile is_digit (drop (length sg) t)
             in if ds = [] then None else Some (c # sg @ ds, drop (length sg + length ds) t))
          else Some ([], s))"

definition parse_number :: "string \<Rightarrow> (string \<times> string) option" where
  "parse_number s =
     (let neg = takeWhile (\<lambda>d. d = CHR ''-'') (take 1 s); t = drop (length neg) s;
          ds = (if take 1 t = ''0'' then ''0'' else takeWhile is_digit t)
      in if ds = [] then None
         else case num_part (\<lambda>c. c = CHR ''.'') False (drop (length ds) t) of
           None \<Rightarrow> None
         | Some (frac, u) \<Rightarrow>
             (case num_part (\<lambda>c. c = CHR ''e'' \<or> c = CHR ''E'') True u of
                None \<Rightarrow> None
              | Some (ex, w) \<Rightarrow> Some (neg @ ds @ frac @ ex, w)))"

definition parse_literal :: "string \<Rightarrow> (json \<times> string) option" where
  "parse_literal s =
     (if take 4 s = ''null'' then Some (JNull, drop 4 s)
      else if take 4 s = ''true'' then Some (JBool True, drop 4 s)
      else if take 5 s = ''false'' then Some (JBool False, drop 5 s)
      else map_option (\<lambda>(n, r). (JNum n, r)) (parse_number s))"

lemma skip_ws_Cons: "skip_ws s = c # t \<Longrightarrow> length t < length s"
  using skip_ws_length [of s] by simp

lemma skip_ws_less: "length t < n \<Longrightarrow> length (skip_ws t) < n"
  using skip_ws_length [of t] by simp

text \<open>
  Each function starts at the first character of what it reads. The tests on the length of the
  rest only serve the termination proof.
\<close>

function parse_value :: "nat \<Rightarrow> string \<Rightarrow> (json \<times> string) option"
  and parse_elems :: "nat \<Rightarrow> string \<Rightarrow> (json list \<times> string) option"
  and parse_members :: "nat \<Rightarrow> string \<Rightarrow> ((string \<times> json) list \<times> string) option" where
  "parse_value d s =
     (case s of
        [] \<Rightarrow> None
      | c # t \<Rightarrow>
          if c = CHR 0x22 then map_option (\<lambda>(r, u). (JStr (unquote r), u)) (raw_string t)
          else if c = CHR ''['' then
            (if d = 0 then None
             else if take 1 (skip_ws t) = '']'' then Some (JArr [], drop 1 (skip_ws t))
             else map_option (\<lambda>(vs, u). (JArr vs, u)) (parse_elems (d - 1) (skip_ws t)))
          else if c = CHR ''{'' then
            (if d = 0 then None
             else if take 1 (skip_ws t) = ''}'' then Some (JObj [], drop 1 (skip_ws t))
             else map_option (\<lambda>(ms, u). (JObj ms, u)) (parse_members (d - 1) (skip_ws t)))
          else parse_literal s)"
| "parse_elems d s =
     (if s = [] then None
      else case parse_value d s of
        None \<Rightarrow> None
      | Some (v, u) \<Rightarrow>
          (case skip_ws u of
             [] \<Rightarrow> None
           | c # w \<Rightarrow>
               if c = CHR '']'' then Some ([v], w)
               else if c = CHR '','' \<and> length w < length s
               then map_option (\<lambda>(vs, x). (v # vs, x)) (parse_elems d (skip_ws w))
               else None))"
| "parse_members d s =
     (case s of
        [] \<Rightarrow> None
      | q # t \<Rightarrow>
          if q \<noteq> CHR 0x22 then None
          else case raw_string t of
            None \<Rightarrow> None
          | Some (k, u) \<Rightarrow>
              (case skip_ws u of
                 [] \<Rightarrow> None
               | c # w \<Rightarrow>
                   if c \<noteq> CHR '':'' then None
                   else case parse_value d (skip_ws w) of
                     None \<Rightarrow> None
                   | Some (v, x) \<Rightarrow>
                       (case skip_ws x of
                          [] \<Rightarrow> None
                        | e # y \<Rightarrow>
                            if e = CHR ''}'' then Some ([(unquote k, v)], y)
                            else if e = CHR '','' \<and> length y < length s
                            then map_option (\<lambda>(ms, z). ((unquote k, v) # ms, z)) (parse_members d (skip_ws y))
                            else None)))"
  by pat_completeness auto

termination
  by (relation "measures [\<lambda>x. case x of Inl (d, s) \<Rightarrow> length s | Inr (Inl (d, s)) \<Rightarrow> length s | Inr (Inr (d, s)) \<Rightarrow> length s,
        \<lambda>x. case x of Inl _ \<Rightarrow> 0 | Inr _ \<Rightarrow> 1]")
    (auto intro!: skip_ws_less dest!: raw_string_shorter skip_ws_Cons)

declare parse_value.simps [simp del] parse_elems.simps [simp del] parse_members.simps [simp del]

definition json_parse :: "string \<Rightarrow> (json \<times> string) option" where
  "json_parse s = parse_value maxNestingDepth (skip_ws s)"

subsection \<open>Storing into fields\<close>

text \<open>A store returns the struct and whether the value had the right type.\<close>

type_synonym 's store = "json \<Rightarrow> 's \<Rightarrow> 's \<times> bool"

definition store_string :: "(string \<Rightarrow> 's \<Rightarrow> 's) \<Rightarrow> 's store" where
  "store_string upd v s = (case v of JStr x \<Rightarrow> (upd x s, True) | JNull \<Rightarrow> (s, True) | _ \<Rightarrow> (s, False))"

text \<open>\<^verbatim>\<open>strconv.ParseInt\<close> and \<^verbatim>\<open>ParseUint\<close> on a JSON number, with their ranges.\<close>

definition decimal_value :: "string \<Rightarrow> nat option" where
  "decimal_value ds = (if ds \<noteq> [] \<and> list_all is_digit ds then Some (digits_value ds) else None)"

definition ParseInt :: "string \<Rightarrow> int option" where
  "ParseInt s =
     (let neg = (take 1 s = ''-''); ds = (if take 1 s = ''-'' \<or> take 1 s = ''+'' then drop 1 s else s)
      in case decimal_value ds of
           None \<Rightarrow> None
         | Some n \<Rightarrow> (let i = (if neg then - int n else int n) in if - (2 ^ 63) \<le> i \<and> i < 2 ^ 63 then Some i else None))"

definition ParseUint :: "nat \<Rightarrow> string \<Rightarrow> nat option" where
  "ParseUint bits s = (case decimal_value s of None \<Rightarrow> None | Some n \<Rightarrow> if n < 2 ^ bits then Some n else None)"

definition store_int :: "(int \<Rightarrow> 's \<Rightarrow> 's) \<Rightarrow> 's store" where
  "store_int upd v s =
     (case v of
        JNum x \<Rightarrow> (case ParseInt x of None \<Rightarrow> (s, False) | Some i \<Rightarrow> (upd i s, True))
      | JNull \<Rightarrow> (s, True) | _ \<Rightarrow> (s, False))"

definition store_uint16 :: "(16 word \<Rightarrow> 's \<Rightarrow> 's) \<Rightarrow> 's store" where
  "store_uint16 upd v s =
     (case v of
        JNum x \<Rightarrow> (case ParseUint 16 x of None \<Rightarrow> (s, False) | Some n \<Rightarrow> (upd (of_nat n) s, True))
      | JNull \<Rightarrow> (s, True) | _ \<Rightarrow> (s, False))"

definition field_store :: "(string \<times> 's store) list \<Rightarrow> string \<Rightarrow> 's store option" where
  "field_store fields key = map_option snd (find (\<lambda>(name, _). strings_EqualFold key name) fields)"

fun store_members :: "(string \<times> 's store) list \<Rightarrow> (string \<times> json) list \<Rightarrow> 's \<Rightarrow> 's \<times> bool" where
  "store_members fields [] s = (s, True)"
| "store_members fields ((k, v) # ms) s =
     (case field_store fields k of
        None \<Rightarrow> store_members fields ms s
      | Some st \<Rightarrow>
          (case st v s of (s1, ok1) \<Rightarrow>
             (case store_members fields ms s1 of (s2, ok2) \<Rightarrow> (s2, ok1 \<and> ok2))))"

definition store_struct :: "(string \<times> 's store) list \<Rightarrow> 's store" where
  "store_struct fields v s =
     (case v of JObj ms \<Rightarrow> store_members fields ms s | JNull \<Rightarrow> (s, True) | _ \<Rightarrow> (s, False))"

text \<open>A struct field that is itself a struct.\<close>

definition store_nested :: "('s \<Rightarrow> 'n) \<Rightarrow> ('n \<Rightarrow> 's \<Rightarrow> 's) \<Rightarrow> 'n store \<Rightarrow> 's store" where
  "store_nested get put st v s = (case st v (get s) of (n, ok) \<Rightarrow> (put n s, ok))"

definition json_Unmarshal :: "'s store \<Rightarrow> string \<Rightarrow> 's \<Rightarrow> 's option" where
  "json_Unmarshal st text s =
     (case json_parse text of
        None \<Rightarrow> None
      | Some (v, rest) \<Rightarrow>
          if skip_ws rest \<noteq> [] then None
          else case st v s of (s', ok) \<Rightarrow> if ok then Some s' else None)"

definition Decoder_Decode :: "'s store \<Rightarrow> string \<Rightarrow> 's \<Rightarrow> bool \<times> 's" where
  "Decoder_Decode st text s =
     (case json_parse text of
        None \<Rightarrow> (False, s)
      | Some (v, _) \<Rightarrow> (case st v s of (s', ok) \<Rightarrow> (ok, s')))"

section \<open>Lemmas\<close>

text \<open>A well-formed rune: an ASCII byte, or a multi-byte sequence recognised whatever follows it.\<close>

definition wf_rune :: "string \<Rightarrow> bool" where
  "wf_rune r \<longleftrightarrow> (\<exists>c. r = [c] \<and> is_ascii c) \<or>
     (\<exists>c u. r = c # u \<and> \<not> is_ascii c \<and> u \<noteq> [] \<and> list_all is_cont u \<and> (\<forall>t. rune_tail c (u @ t) = length u))"

lemma conts_ok_take: "0 < n \<Longrightarrow> n \<le> length s \<Longrightarrow> conts_ok n lo hi (take n s @ t) = conts_ok n lo hi s"
  by (cases s; cases n) (auto simp: conts_ok_def)

lemma wf_rune_head:
  assumes "rune_ok (c # take (rune_tail c s) s)"
  shows "wf_rune (c # take (rune_tail c s) s)"
proof (cases "is_ascii c")
  case False
  then have "take (rune_tail c s) s \<noteq> []" using assms by (cases "take (rune_tail c s) s") (simp_all add: rune_ok_def)
  then obtain n lo hi where l: "lead_info (byte c) = Some (n, lo, hi)" and k: "conts_ok n lo hi s" "rune_tail c s = n"
    by (auto simp: rune_tail_def split: option.splits if_splits)
  then have "n \<le> length s" by (simp add: conts_ok_def)
  then have "rune_tail c (take n s @ t) = n" for t using l k lead_info_pos [OF l] by (simp add: rune_tail_def conts_ok_take)
  moreover have "list_all is_cont (take n s)" using k by (simp add: conts_ok_def)
  ultimately show ?thesis using False \<open>take (rune_tail c s) s \<noteq> []\<close> \<open>n \<le> length s\<close> k by (auto simp: wf_rune_def)
qed (use assms in \<open>simp add: wf_rune_def\<close>)

lemma wf_runes: "utf8_Valid s \<Longrightarrow> r \<in> set (runes s) \<Longrightarrow> wf_rune r"
proof (induction s rule: runes.induct)
  case (2 c s)
  then show ?case using wf_rune_head [of c s] by (auto simp: utf8_Valid_def)
qed simp

text \<open>What the encoder writes for a rune is read back as that rune.\<close>

lemma hex_lower_props: "n < 16 \<Longrightarrow> is_hex (hex_lower n) \<and> hex_val (hex_lower n) = n"
  by (auto simp: is_hex_def is_digit_def hex_lower_def hex_val_def)

lemma utf8_encode_ascii: "is_ascii c \<Longrightarrow> utf8_encode (byte c) = [c]"
  by (simp add: utf8_encode_def is_ascii_def)

lemma getu4_u00: "getu4 (u00 c @ t) = Some (byte c, t)"
proof -
  have "byte c div 16 < 16" using byte_less [of c] by (simp add: less_mult_imp_div_less)
  then show ?thesis
    using hex_lower_props [of "byte c div 16"] hex_lower_props [of "byte c mod 16"]
    by (simp add: getu4_def u00_def) (simp add: is_hex_def is_digit_def hex_val_def)
qed

lemma unquote_simps [simp]:
  "unquote [] = []"
  "is_ascii c \<Longrightarrow> c \<noteq> CHR 0x5C \<Longrightarrow> unquote (c # t) = c # unquote t"
  "getu4 (CHR 0x5C # t) = Some (r, u) \<Longrightarrow> \<not> is_surrogate r \<Longrightarrow> unquote (CHR 0x5C # t) = utf8_encode r @ unquote u"
  "d \<noteq> CHR ''u'' \<Longrightarrow> unquote (CHR 0x5C # d # t) = simple_escape d # unquote t"
  by (subst unquote.simps, simp add: getu4_def split: list.split)+

lemma unquote_ascii: "is_ascii c \<Longrightarrow> unquote (json_ascii c @ t) = c # unquote t"
proof -
  assume c: "is_ascii c"
  have "unquote (u00 c @ t) = c # unquote t"
    using c getu4_u00 [of c t] by (simp add: u00_def utf8_encode_ascii is_surrogate_def is_ascii_def)
  with c show ?thesis by (auto simp: json_ascii_def simple_escape_def)
qed

lemma unquote_rune:
  assumes "wf_rune r"
  shows "unquote (json_rune r @ t) = r @ unquote t"
  using assms unfolding wf_rune_def
proof (elim disjE exE conjE)
  fix c assume "r = [c]" "is_ascii c"
  then show ?thesis by (simp add: json_rune_def unquote_ascii)
next
  fix c u assume r: "r = c # u" "\<not> is_ascii c" "u \<noteq> []" "\<forall>t. rune_tail c (u @ t) = length u"
  have "c \<noteq> CHR 0x5C" using r(2) by (auto simp: is_ascii_def)
  then have copy: "unquote (r @ t) = r @ unquote t" using r by (subst unquote.simps) simp
  have "unquote (CHR 0x5C # ''u202'' @ [CHR ''8''] @ t) = [CHR 0xE2, CHR 0x80, CHR 0xA8] @ unquote t"
    "unquote (CHR 0x5C # ''u202'' @ [CHR ''9''] @ t) = [CHR 0xE2, CHR 0x80, CHR 0xA9] @ unquote t"
    by (simp_all add: getu4_def is_hex_def is_digit_def hex_val_def is_surrogate_def utf8_encode_def)
      (simp_all add: char_eq_iff_of_char)
  with copy r(1,3) show ?thesis by (auto simp: json_rune_def neq_Nil_conv)
qed

text \<open>The scanner of string literals runs through what the encoder writes.\<close>

definition passes :: "string \<Rightarrow> bool" where
  "passes r \<longleftrightarrow> (\<forall>t. raw_string (r @ t) = map_option (\<lambda>(x, u). (r @ x, u)) (raw_string t))"

lemma passes_Nil [simp]: "passes []"
  by (simp add: passes_def option.map_id)

lemma passes_append: "passes a \<Longrightarrow> passes b \<Longrightarrow> passes (a @ b)"
  by (simp add: passes_def option.map_comp comp_def case_prod_unfold)

lemma passes_concat: "(\<And>r. r \<in> set rs \<Longrightarrow> passes r) \<Longrightarrow> passes (concat rs)"
  by (induction rs) (auto intro: passes_append)

lemma passes_plain: "\<not> byte c < 0x20 \<Longrightarrow> c \<noteq> CHR 0x22 \<Longrightarrow> c \<noteq> CHR 0x5C \<Longrightarrow> passes [c]"
  by (simp add: passes_def)

lemma passes_escape: "d \<in> {CHR 0x22, CHR 0x5C, CHR ''b'', CHR ''f'', CHR ''n'', CHR ''r'', CHR ''t''} \<Longrightarrow> passes [CHR 0x5C, d]"
  by (auto simp: passes_def)

lemma hex_plain: "is_hex c \<Longrightarrow> passes [c]"
  by (rule passes_plain) (auto simp: is_hex_def is_digit_def)

lemma passes_u4: "list_all is_hex [a, b, c, d] \<Longrightarrow> passes [CHR 0x5C, CHR ''u'', a, b, c, d]"
proof -
  assume h: "list_all is_hex [a, b, c, d]"
  then have "passes [a, b, c, d]"
    using passes_append [of "[a]" "[b, c, d]"] passes_append [of "[b]" "[c, d]"] passes_append [of "[c]" "[d]"]
    by (simp add: hex_plain)
  with h show ?thesis by (auto simp: passes_def getu4_def option.map_comp comp_def case_prod_unfold simp del: raw_string.simps(2) simp: raw_string.simps(2) [of "CHR 0x5C"])
qed

lemma passes_u00: "passes (u00 c)"
proof -
  have "byte c div 16 < 16" using byte_less [of c] by (simp add: less_mult_imp_div_less)
  then show ?thesis
    unfolding u00_def by (intro passes_u4) (simp add: hex_lower_props, simp add: is_hex_def is_digit_def)
qed

lemma passes_rune:
  assumes "wf_rune r"
  shows "passes (json_rune r)"
  using assms unfolding wf_rune_def
proof (elim disjE exE conjE)
  fix c assume c: "r = [c]" "is_ascii c"
  then show ?thesis
    by (auto simp: json_rune_def json_ascii_def passes_u00 intro!: passes_escape passes_plain)
next
  fix c u assume r: "r = c # u" "\<not> is_ascii c" "list_all is_cont u" "u \<noteq> []"
  have high: "d \<in> set r \<Longrightarrow> passes [d]" for d
    using r by (intro passes_plain) (auto simp: is_ascii_def is_cont_def list_all_iff)
  then have "passes (concat (map (\<lambda>d. [d]) r))" by (intro passes_concat) auto
  moreover have "passes (CHR 0x5C # ''u2028'')" "passes (CHR 0x5C # ''u2029'')"
    by (intro passes_u4; simp add: is_hex_def is_digit_def)+
  ultimately show ?thesis using r by (auto simp: json_rune_def neq_Nil_conv)
qed

text \<open>Strings survive the round trip through JSON.\<close>

lemma json_string_roundtrip:
  assumes "utf8_Valid s"
  shows "parse_value d (json_string s @ rest) = Some (JStr s, rest)"
proof -
  let ?b = "concat (map json_rune (runes s))"
  have "passes ?b" using wf_runes [OF assms] by (intro passes_concat) (auto intro: passes_rune)
  then have "raw_string (?b @ CHR 0x22 # rest) = Some (?b, rest)" by (simp add: passes_def)
  moreover have "unquote ?b = s"
  proof -
    have "(\<And>r. r \<in> set rs \<Longrightarrow> wf_rune r) \<Longrightarrow> unquote (concat (map json_rune rs)) = concat rs" for rs
      by (induction rs) (auto simp: unquote_rune)
    from this [of "runes s"] show ?thesis using wf_runes [OF assms] by simp
  qed
  ultimately show ?thesis by (simp add: json_string_def parse_value.simps)
qed

end
