(* ===== verification/Go_Parse.thy ===== *)
theory Go_Parse
  imports Go_Json_Decode
begin

text \<open>
  The parsers the configuration uses: \<^verbatim>\<open>strconv.ParseBool\<close>, \<^verbatim>\<open>strconv.Atoi\<close> (the 64-bit \<open>ParseInt\<close>) and
  \<^verbatim>\<open>time.ParseDuration\<close>, whose result is a signed 64-bit number of nanoseconds. A fraction such as the one
  of \<^verbatim>\<open>1.5h\<close> is scaled in floating point by the code; that product, truncated, is the parameter \<open>scaled\<close>
  (the digits read, how many, and the unit).
\<close>

section \<open>Definitions\<close>

definition ParseBool :: "string \<Rightarrow> bool option" where
  "ParseBool s =
     (if s \<in> {''1'', ''t'', ''T'', ''TRUE'', ''true'', ''True''} then Some True
      else if s \<in> {''0'', ''f'', ''F'', ''FALSE'', ''false'', ''False''} then Some False
      else None)"

definition Atoi :: "string \<Rightarrow> int option" where
  "Atoi s = ParseInt s"

subsection \<open>Durations\<close>

definition unit_value :: "string \<Rightarrow> nat option" where
  "unit_value u =
     (if u = ''ns'' then Some 1
      else if u = ''us'' \<or> u = [CHR 0xC2, CHR 0xB5, CHR ''s''] \<or> u = [CHR 0xCE, CHR 0xBC, CHR ''s''] then Some 1000
      else if u = ''ms'' then Some 1000000
      else if u = ''s'' then Some 1000000000
      else if u = ''m'' then Some 60000000000
      else if u = ''h'' then Some 3600000000000
      else None)"

definition max_nanos :: nat where
  "max_nanos = 2 ^ 63"

text \<open>
  One number with its unit. The digits before the point must not exceed 2^63; digits of the fraction beyond
  the 18 or 19 that fit are ignored by the code, a detail of the scaling.
\<close>

definition duration_term :: "(string \<Rightarrow> nat \<Rightarrow> nat) \<Rightarrow> string \<Rightarrow> (nat \<times> string) option" where
  "duration_term scaled s =
     (let whole = takeWhile is_digit s; t = drop (length whole) s;
          frac = (if take 1 t = ''.'' then takeWhile is_digit (drop 1 t) else []);
          r = (if take 1 t = ''.'' then drop (Suc (length frac)) t else t);
          u = takeWhile (\<lambda>c. c \<noteq> CHR ''.'' \<and> \<not> is_digit c) r
      in if whole = [] \<and> frac = [] then None
         else if digits_value whole > max_nanos \<or> u = [] then None
         else case unit_value u of
           None \<Rightarrow> None
         | Some n \<Rightarrow>
             if digits_value whole > max_nanos div n then None
             else
               (let v = digits_value whole * n + (if digits_value frac > 0 then scaled frac n else 0)
                in if v > max_nanos then None else Some (v, drop (length u) r)))"

fun duration_terms :: "nat \<Rightarrow> (string \<Rightarrow> nat \<Rightarrow> nat) \<Rightarrow> nat \<Rightarrow> string \<Rightarrow> nat option" where
  "duration_terms 0 scaled d s = (if s = [] then Some d else None)"
| "duration_terms (Suc n) scaled d s =
     (if s = [] then Some d
      else case duration_term scaled s of
        None \<Rightarrow> None
      | Some (v, r) \<Rightarrow> if d + v > max_nanos then None else duration_terms n scaled (d + v) r)"

text \<open>Every term consumes a character, so the length of the text bounds the number of rounds.\<close>

definition ParseDuration :: "(string \<Rightarrow> nat \<Rightarrow> nat) \<Rightarrow> string \<Rightarrow> int option" where
  "ParseDuration scaled s =
     (let neg = (take 1 s = ''-''); t = (if take 1 s = ''-'' \<or> take 1 s = ''+'' then drop 1 s else s)
      in if t = ''0'' then Some 0
         else if t = [] then None
         else case duration_terms (length t) scaled 0 t of
           None \<Rightarrow> None
         | Some d \<Rightarrow> if neg then Some (- int d) else if d > max_nanos - 1 then None else Some (int d))"

section \<open>Lemmas\<close>

lemma duration_term_consumes: "duration_term scaled s = Some (v, r) \<Longrightarrow> length r < length s"
proof -
  assume a: "duration_term scaled s = Some (v, r)"
  let ?w = "takeWhile is_digit s" and ?t = "drop (length (takeWhile is_digit s)) s"
  let ?r = "if take 1 ?t = ''.'' then drop (Suc (length (takeWhile is_digit (drop 1 ?t)))) ?t else ?t"
  let ?u = "takeWhile (\<lambda>c. c \<noteq> CHR ''.'' \<and> \<not> is_digit c) ?r"
  have "r = drop (length ?u) ?r" "?u \<noteq> []"
    using a by (auto simp: duration_term_def Let_def split: if_splits option.splits)
  then have "length r < length ?r" using takeWhile_eq_Nil_iff [of _ ?r] by (cases ?r) auto
  moreover have "length ?r \<le> length s" by auto
  ultimately show ?thesis by linarith
qed

text \<open>So the bound on the rounds is never what ends the loop.\<close>

lemma duration_terms_enough:
  "length s \<le> n \<Longrightarrow> duration_terms n scaled d s = duration_terms (length s) scaled d s"
proof (induction n arbitrary: d s rule: less_induct)
  case (less n)
  show ?case
  proof (cases s)
    case (Cons c t)
    then obtain m where m: "n = Suc m" "length t \<le> m" using less.prems by (cases n) auto
    have "duration_terms m scaled (d + v) r = duration_terms (length t) scaled (d + v) r"
      if "duration_term scaled s = Some (v, r)" for v r
    proof -
      have "length r \<le> length t" using duration_term_consumes [OF that] Cons by simp
      then show ?thesis
        using less.IH [of m r "d + v"] less.IH [of "length t" r "d + v"] m by simp
    qed
    then show ?thesis using Cons m by (auto split: option.split)
  qed (cases n; simp)
qed

lemma duration_terms_bound: "duration_terms n scaled d s = Some d' \<Longrightarrow> d \<le> max_nanos \<Longrightarrow> d' \<le> max_nanos"
  by (induction n arbitrary: d s) (auto split: if_splits option.splits)

text \<open>A parsed duration fits its 64 bits.\<close>

lemma ParseDuration_range: "ParseDuration scaled s = Some d \<Longrightarrow> - (2 ^ 63) \<le> d \<and> d < 2 ^ 63"
  using duration_terms_bound [of _ scaled 0]
  by (fastforce simp: ParseDuration_def Let_def max_nanos_def split: if_splits option.splits)

end
