(* ===== verification/Rate_Limit.thy ===== *)
theory Rate_Limit
  imports Client_Ip Complex_Main
begin

text \<open>
  \<^verbatim>\<open>internal/api/ratelimit.go\<close> and the rate-limiting middleware. The token bucket is a third-party
  package (\<^verbatim>\<open>golang.org/x/time/rate\<close>) and therefore a parameter: \<open>new\<close> is \<^verbatim>\<open>rate.NewLimiter\<close> and \<open>allow\<close> is
  \<^verbatim>\<open>Limiter.Allow\<close> at a given time. The limiter objects live in a list of their own, because the map
  holds pointers to them and \<^verbatim>\<open>Allow\<close> works on the object after the lock on the map was released.
  Times are nanoseconds.
\<close>

section \<open>Definitions\<close>

datatype float64 = Finite rat | PosInf | NegInf | NaN

fun float_pos :: "float64 \<Rightarrow> bool" where
  "float_pos (Finite q) = (q > 0)"
| "float_pos PosInf = True"
| "float_pos NegInf = False"
| "float_pos NaN = False"

type_synonym 'l new_limiter = "float64 \<Rightarrow> int \<Rightarrow> 'l"
type_synonym 'l allow = "int \<Rightarrow> 'l \<Rightarrow> 'l \<times> bool"

record 'l ip_rate_limiter =
  rl_clients :: "(string, nat \<times> int) gomap"
  rl_limiters :: "'l list"
  rl_rps :: float64
  rl_burst :: int
  rl_stopped :: bool

definition NewIPRateLimiter :: "float64 \<Rightarrow> int \<Rightarrow> 'l ip_rate_limiter" where
  "NewIPRateLimiter rps burst =
     \<lparr>rl_clients = [], rl_limiters = [], rl_rps = rps, rl_burst = burst, rl_stopped = False\<rparr>"

definition GetLimiter :: "'l new_limiter \<Rightarrow> int \<Rightarrow> 'l ip_rate_limiter \<Rightarrow> string \<Rightarrow> 'l ip_rate_limiter \<times> nat" where
  "GetLimiter new now i a =
     (case map_of (rl_clients i) a of
        None \<Rightarrow>
          (let p = length (rl_limiters i)
           in (i\<lparr>rl_limiters := rl_limiters i @ [new (rl_rps i) (rl_burst i)],
                 rl_clients := AList.update a (p, now) (rl_clients i)\<rparr>, p))
      | Some (p, _) \<Rightarrow> (i\<lparr>rl_clients := AList.update a (p, now) (rl_clients i)\<rparr>, p))"

definition ten_minutes :: int where
  "ten_minutes = 600 * 1000000000"

text \<open>One tick of \<^verbatim>\<open>cleanupLoop\<close>; the goroutine ends once \<^verbatim>\<open>stopCh\<close> is closed.\<close>

definition cleanup_tick :: "int \<Rightarrow> 'l ip_rate_limiter \<Rightarrow> 'l ip_rate_limiter" where
  "cleanup_tick now i =
     (if rl_stopped i then i
      else i\<lparr>rl_clients := filter (\<lambda>(_, _, lastSeen). \<not> lastSeen < now - ten_minutes) (rl_clients i)\<rparr>)"

definition limiter_Stop :: "'l ip_rate_limiter \<Rightarrow> 'l ip_rate_limiter" where
  "limiter_Stop i = (if rl_stopped i then i else i\<lparr>rl_stopped := True\<rparr>)"

definition Allow :: "'l allow \<Rightarrow> int \<Rightarrow> 'l ip_rate_limiter \<Rightarrow> nat \<Rightarrow> 'l ip_rate_limiter \<times> bool" where
  "Allow allow now i p =
     (case allow now (rl_limiters i ! p) of
        (l, ok) \<Rightarrow> (i\<lparr>rl_limiters := (rl_limiters i)[p := l]\<rparr>, ok))"

text \<open>The middleware's decision on a request: \<open>False\<close> is the answer 429.\<close>

definition RateLimitMiddleware ::
  "'l new_limiter \<Rightarrow> 'l allow \<Rightarrow> bool \<Rightarrow> string list \<Rightarrow> int \<Rightarrow> 'l ip_rate_limiter \<Rightarrow> request \<Rightarrow> 'l ip_rate_limiter \<times> bool" where
  "RateLimitMiddleware new allow trustProxy trustedCIDRs now i r =
     (case GetLimiter new now i (extractClientIP r trustProxy trustedCIDRs) of
        (i1, p) \<Rightarrow> Allow allow now i1 p)"

subsection \<open>Runs\<close>

datatype limiter_op = Request request | Cleanup | StopLimiter

fun limiter_step ::
  "'l new_limiter \<Rightarrow> 'l allow \<Rightarrow> bool \<Rightarrow> string list \<Rightarrow> int \<Rightarrow> 'l ip_rate_limiter \<Rightarrow> limiter_op \<Rightarrow> 'l ip_rate_limiter \<times> bool list" where
  "limiter_step new allow tp cs now i (Request r) =
     (case RateLimitMiddleware new allow tp cs now i r of (i', ok) \<Rightarrow> (i', [ok]))"
| "limiter_step new allow tp cs now i Cleanup = (cleanup_tick now i, [])"
| "limiter_step new allow tp cs now i StopLimiter = (limiter_Stop i, [])"

fun limiter_run ::
  "'l new_limiter \<Rightarrow> 'l allow \<Rightarrow> bool \<Rightarrow> string list \<Rightarrow> 'l ip_rate_limiter \<Rightarrow> (int \<times> limiter_op) list \<Rightarrow> 'l ip_rate_limiter \<times> bool list" where
  "limiter_run new allow tp cs i [] = (i, [])"
| "limiter_run new allow tp cs i ((now, opn) # ops) =
     (case limiter_step new allow tp cs now i opn of
        (i1, out1) \<Rightarrow> (case limiter_run new allow tp cs i1 ops of (i2, out2) \<Rightarrow> (i2, out1 @ out2)))"

section \<open>Specification\<close>

text \<open>
  What the limiter promises: every address has a token bucket of its own, made at its first
  request, and loses it when it has been idle for more than ten minutes at a cleanup.
\<close>

record 'l address_spec =
  as_bucket :: "string \<rightharpoonup> 'l \<times> int"
  as_stopped :: bool

definition spec_request :: "'l \<Rightarrow> 'l allow \<Rightarrow> int \<Rightarrow> 'l address_spec \<Rightarrow> string \<Rightarrow> 'l address_spec \<times> bool" where
  "spec_request fresh allow now s a =
     (case allow now (case as_bucket s a of None \<Rightarrow> fresh | Some (l, _) \<Rightarrow> l) of
        (l, ok) \<Rightarrow> (s\<lparr>as_bucket := (as_bucket s)(a \<mapsto> (l, now))\<rparr>, ok))"

definition spec_cleanup :: "int \<Rightarrow> 'l address_spec \<Rightarrow> 'l address_spec" where
  "spec_cleanup now s =
     (if as_stopped s then s
      else s\<lparr>as_bucket := (\<lambda>a. case as_bucket s a of
               Some (l, t) \<Rightarrow> if t < now - ten_minutes then None else Some (l, t) | None \<Rightarrow> None)\<rparr>)"

fun spec_step :: "'l \<Rightarrow> 'l allow \<Rightarrow> bool \<Rightarrow> string list \<Rightarrow> int \<Rightarrow> 'l address_spec \<Rightarrow> limiter_op \<Rightarrow> 'l address_spec \<times> bool list" where
  "spec_step fresh allow tp cs now s (Request r) =
     (case spec_request fresh allow now s (extractClientIP r tp cs) of (s', ok) \<Rightarrow> (s', [ok]))"
| "spec_step fresh allow tp cs now s Cleanup = (spec_cleanup now s, [])"
| "spec_step fresh allow tp cs now s StopLimiter = (s\<lparr>as_stopped := True\<rparr>, [])"

fun spec_run :: "'l \<Rightarrow> 'l allow \<Rightarrow> bool \<Rightarrow> string list \<Rightarrow> 'l address_spec \<Rightarrow> (int \<times> limiter_op) list \<Rightarrow> 'l address_spec \<times> bool list" where
  "spec_run fresh allow tp cs s [] = (s, [])"
| "spec_run fresh allow tp cs s ((now, opn) # ops) =
     (case spec_step fresh allow tp cs now s opn of
        (s1, out1) \<Rightarrow> (case spec_run fresh allow tp cs s1 ops of (s2, out2) \<Rightarrow> (s2, out1 @ out2)))"

text \<open>The abstraction: follow the pointers. No two addresses share a limiter object.\<close>

definition abs_limiter :: "'l ip_rate_limiter \<Rightarrow> 'l address_spec" where
  "abs_limiter i =
     \<lparr>as_bucket = (\<lambda>a. map_option (\<lambda>(p, t). (rl_limiters i ! p, t)) (map_of (rl_clients i) a)),
      as_stopped = rl_stopped i\<rparr>"

definition limiter_inv :: "'l ip_rate_limiter \<Rightarrow> bool" where
  "limiter_inv i \<longleftrightarrow> gomap_wf (rl_clients i) \<and>
     (\<forall>a p t. map_of (rl_clients i) a = Some (p, t) \<longrightarrow> p < length (rl_limiters i)) \<and>
     (\<forall>a b p t u. map_of (rl_clients i) a = Some (p, t) \<longrightarrow> map_of (rl_clients i) b = Some (p, u) \<longrightarrow> a = b)"

section \<open>Lemmas\<close>

lemma limiter_inv_new [simp]: "limiter_inv (NewIPRateLimiter rps burst)"
  by (simp add: limiter_inv_def NewIPRateLimiter_def)

lemma limiter_inv_stopped [simp]: "limiter_inv (i\<lparr>rl_stopped := b\<rparr>) \<longleftrightarrow> limiter_inv i"
  by (simp add: limiter_inv_def)

lemma cleanup_lookup:
  "gomap_wf (rl_clients i) \<Longrightarrow> map_of (rl_clients (cleanup_tick now i)) a =
     (if rl_stopped i then map_of (rl_clients i) a
      else case map_of (rl_clients i) a of
        Some (p, t) \<Rightarrow> if t < now - ten_minutes then None else Some (p, t) | None \<Rightarrow> None)"
  using map_of_filter_snd [of "rl_clients i" "\<lambda>(_, t). \<not> t < now - ten_minutes" a]
  by (auto simp: cleanup_tick_def gomap_wf_def case_prod_unfold split: option.split)

lemma cleanup_fields [simp]:
  "rl_limiters (cleanup_tick now i) = rl_limiters i" "rl_stopped (cleanup_tick now i) = rl_stopped i"
  "rl_rps (cleanup_tick now i) = rl_rps i" "rl_burst (cleanup_tick now i) = rl_burst i"
  by (simp_all add: cleanup_tick_def)

lemma cleanup_inv: "limiter_inv i \<Longrightarrow> limiter_inv (cleanup_tick now i)"
proof -
  assume i: "limiter_inv i"
  have "gomap_wf (rl_clients (cleanup_tick now i))"
    using i by (auto simp: cleanup_tick_def limiter_inv_def gomap_wf_def intro: distinct_map_filter)
  moreover have "map_of (rl_clients i) a = Some v" if "map_of (rl_clients (cleanup_tick now i)) a = Some v" for a v
    using that i by (auto simp: cleanup_lookup limiter_inv_def split: if_splits option.splits)
  ultimately show ?thesis using i unfolding limiter_inv_def cleanup_fields by metis
qed

lemma cleanup_abs: "limiter_inv i \<Longrightarrow> abs_limiter (cleanup_tick now i) = spec_cleanup now (abs_limiter i)"
  by (auto simp: abs_limiter_def spec_cleanup_def limiter_inv_def cleanup_lookup fun_eq_iff
      split: option.split)

lemma request_refines:
  assumes i: "limiter_inv i"
    and r: "RateLimitMiddleware new allow tp cs now i r = (i', ok)"
  shows "limiter_inv i' \<and> rl_rps i' = rl_rps i \<and> rl_burst i' = rl_burst i \<and>
    spec_request (new (rl_rps i) (rl_burst i)) allow now (abs_limiter i) (extractClientIP r tp cs) = (abs_limiter i', ok)"
proof (cases "map_of (rl_clients i) (extractClientIP r tp cs)")
  case None
  let ?n = "length (rl_limiters i)"
  have "p < ?n" if "map_of (rl_clients i) b = Some (p, t)" for b p t
    using i that by (auto simp: limiter_inv_def)
  then have fresh: "map_of (rl_clients i) b \<noteq> Some (?n, t)" "map_of (rl_clients i) b = Some (p, t) \<Longrightarrow> p \<noteq> ?n"
    "map_of (rl_clients i) b = Some (p, t) \<Longrightarrow> p < ?n" for b p t by blast+
  obtain l where l: "allow now (new (rl_rps i) (rl_burst i)) = (l, ok)"
    and i': "i' = i\<lparr>rl_clients := AList.update (extractClientIP r tp cs) (?n, now) (rl_clients i),
      rl_limiters := rl_limiters i @ [l]\<rparr>"
    using None r by (auto simp: RateLimitMiddleware_def GetLimiter_def Allow_def Let_def split: prod.splits)
  have "limiter_inv i'"
    using i fresh unfolding limiter_inv_def i' by (auto split: if_splits intro: less_SucI)
  moreover have "abs_limiter i' = (abs_limiter i)\<lparr>as_bucket := (as_bucket (abs_limiter i))(extractClientIP r tp cs \<mapsto> (l, now))\<rparr>"
    using fresh by (auto simp: abs_limiter_def i' fun_eq_iff nth_append intro!: option.map_cong0)
  ultimately show ?thesis using None l by (simp add: i' spec_request_def) (simp add: abs_limiter_def)
next
  case (Some v)
  obtain p t where v: "v = (p, t)" by fastforce
  let ?a = "extractClientIP r tp cs"
  obtain l where l: "allow now (rl_limiters i ! p) = (l, ok)"
    and i': "i' = i\<lparr>rl_clients := AList.update ?a (p, now) (rl_clients i), rl_limiters := (rl_limiters i)[p := l]\<rparr>"
    using Some v r by (auto simp: RateLimitMiddleware_def GetLimiter_def Allow_def split: prod.splits)
  have p: "p < length (rl_limiters i)" using i Some v by (auto simp: limiter_inv_def)
  have other: "q \<noteq> p" if "map_of (rl_clients i) b = Some (q, u)" "b \<noteq> ?a" for b q u
    using i Some v that unfolding limiter_inv_def by blast
  have "limiter_inv i'"
    using i other unfolding limiter_inv_def i' by (auto simp: p split: if_splits)
  moreover have "abs_limiter i' = (abs_limiter i)\<lparr>as_bucket := (as_bucket (abs_limiter i))(?a \<mapsto> (l, now))\<rparr>"
    using other p by (fastforce simp: abs_limiter_def i' fun_eq_iff nth_list_update intro!: option.map_cong0)
  ultimately show ?thesis using Some v l by (simp add: i' spec_request_def) (simp add: abs_limiter_def)
qed

lemma step_refines:
  assumes "limiter_inv i" "limiter_step new allow tp cs now i opn = (i', out)"
  shows "limiter_inv i' \<and> rl_rps i' = rl_rps i \<and> rl_burst i' = rl_burst i \<and>
    spec_step (new (rl_rps i) (rl_burst i)) allow tp cs now (abs_limiter i) opn = (abs_limiter i', out)"
proof (cases opn)
  case (Request r)
  then show ?thesis using assms request_refines [OF assms(1)] by (auto split: prod.splits)
next
  case Cleanup
  then show ?thesis using assms by (auto simp: cleanup_inv cleanup_abs)
next
  case StopLimiter
  then show ?thesis using assms by (cases "rl_stopped i") (auto simp: limiter_Stop_def abs_limiter_def)
qed

lemma run_refines:
  "limiter_inv i \<Longrightarrow> limiter_run new allow tp cs i ops = (i', out) \<Longrightarrow>
     limiter_inv i' \<and> spec_run (new (rl_rps i) (rl_burst i)) allow tp cs (abs_limiter i) ops = (abs_limiter i', out)"
proof (induction ops arbitrary: i i' out)
  case (Cons x ops)
  obtain now opn where x: "x = (now, opn)" by fastforce
  obtain i1 out1 where s: "limiter_step new allow tp cs now i opn = (i1, out1)" by fastforce
  obtain i2 out2 where r: "limiter_run new allow tp cs i1 ops = (i2, out2)" by fastforce
  note s' = step_refines [OF Cons.prems(1) s]
  note r' = Cons.IH [OF s' [THEN conjunct1] r]
  show ?case using Cons.prems(2) s s' r r' by (simp add: x)
qed simp

section \<open>Properties\<close>

text \<open>
  C28. The limiter refines its specification: in every run the shared table of mutable limiter objects
  answers each request as if every client address had a token bucket of its own, which no other
  address, cleanup of another address or forgotten object can touch.
\<close>

theorem limiter_refines_per_address:
  "case limiter_run new allow tp cs (NewIPRateLimiter rps burst) ops of
     (i, out) \<Rightarrow> limiter_inv i \<and>
       spec_run (new rps burst) allow tp cs \<lparr>as_bucket = Map.empty, as_stopped = False\<rparr> ops = (abs_limiter i, out)"
proof -
  have "abs_limiter (NewIPRateLimiter rps burst :: 'a ip_rate_limiter) = \<lparr>as_bucket = Map.empty, as_stopped = False\<rparr>"
    by (simp add: abs_limiter_def NewIPRateLimiter_def)
  then show ?thesis
    using run_refines [OF limiter_inv_new, of new allow tp cs rps burst ops] by (auto simp: NewIPRateLimiter_def split: prod.split)
qed

end
