(* ===== verification/Valkey_Bus.thy ===== *)
theory Valkey_Bus
  imports Bus_Model Go_Chan Go_Json_Decode "HOL-Library.Sublist"
begin

text \<open>
  \<^verbatim>\<open>internal/bus/valkey/valkey.go\<close>: the Valkey Pub/Sub bus. The Valkey client is a third-party
  package: connecting succeeds or not (\<open>client_ok\<close>), a subscription delivers messages and ends with an
  error at moments of its own, a ping fails or not. The subscription goroutine
  \<^verbatim>\<open>runSubscribeLoop\<close> is the step relation \<open>valkey_step\<close>; its steps interleave with
  messages, with the consumer, with the cancellation of its context and with \<^verbatim>\<open>Close\<close>. A random jitter
  is any value of the range the code draws from. Durations are signed 64-bit nanoseconds,
  whose overflow is written out. \<open>parse_time\<close> is the parser of \<^verbatim>\<open>time.Time\<close>'s JSON form.
\<close>

section \<open>Definitions\<close>

record valkey_config =
  vc_Address :: string
  vc_Username :: string
  vc_Password :: string
  vc_Database :: int
  vc_TLSEnabled :: bool
  vc_TLSServerName :: string
  vc_TLSCAFile :: string
  vc_TLSCertFile :: string
  vc_TLSKeyFile :: string
  vc_TLSInsecureSkip :: bool
  vc_ConnectTimeout :: int
  vc_ReadTimeout :: int
  vc_WriteTimeout :: int
  vc_ChannelPattern :: string
  vc_ReconnectEnabled :: bool
  vc_ReconnectMinDelay :: int
  vc_ReconnectMaxDelay :: int
  vc_ReconnectJitter :: bool
  vc_BufferSize :: int

record valkey_bus =
  vb_cfg :: valkey_config
  vb_closed :: bool
  vb_subCh :: "encrypted_event chan"
  vb_cancel :: bool
  vb_onReconnect :: bool
  vb_reconnects :: nat
  vb_clientClosed :: bool

datatype valkey_error = ErrMissingAddress | ErrValkeyTLS | ErrValkeyClient

definition Valkey_NewBus ::
  "(valkey_config \<Rightarrow> bool) \<Rightarrow> (valkey_config \<Rightarrow> bool) \<Rightarrow> valkey_config \<Rightarrow> valkey_error + valkey_bus" where
  "Valkey_NewBus tls_ok client_ok cfg0 =
     (if vc_Address cfg0 = [] then Inl ErrMissingAddress
      else
        (let cfg = cfg0\<lparr>vc_ChannelPattern := (if vc_ChannelPattern cfg0 = [] then ''realtime.*'' else vc_ChannelPattern cfg0),
                        vc_ConnectTimeout := (if vc_ConnectTimeout cfg0 \<le> 0 then 3000000000 else vc_ConnectTimeout cfg0),
                        vc_WriteTimeout := (if vc_WriteTimeout cfg0 \<le> 0 then 3000000000 else vc_WriteTimeout cfg0),
                        vc_ReconnectMinDelay := (if vc_ReconnectMinDelay cfg0 \<le> 0 then 250000000 else vc_ReconnectMinDelay cfg0),
                        vc_ReconnectMaxDelay := (if vc_ReconnectMaxDelay cfg0 \<le> 0 then 30000000000 else vc_ReconnectMaxDelay cfg0),
                        vc_BufferSize := (if vc_BufferSize cfg0 \<le> 0 then 1024 else vc_BufferSize cfg0)\<rparr>
         in if vc_TLSEnabled cfg \<and> \<not> tls_ok cfg then Inl ErrValkeyTLS
            else if \<not> client_ok cfg then Inl ErrValkeyClient
            else Inr \<lparr>vb_cfg = cfg, vb_closed = False, vb_subCh = make_chan (nat (vc_BufferSize cfg)), vb_cancel = False,
                      vb_onReconnect = False, vb_reconnects = 0, vb_clientClosed = False\<rparr>))"

definition SetOnReconnect :: "valkey_bus \<Rightarrow> bool \<Rightarrow> valkey_bus" where
  "SetOnReconnect b fn = b\<lparr>vb_onReconnect := fn\<rparr>"

text \<open>The patterns the loop is started with.\<close>

definition Valkey_Subscribe :: "valkey_bus \<Rightarrow> string list \<Rightarrow> bus_error + (valkey_bus \<times> string list)" where
  "Valkey_Subscribe b patterns =
     (if vb_closed b then Inl ErrBusClosed
      else Inr (b\<lparr>vb_cancel := True\<rparr>, if patterns = [] then [vc_ChannelPattern (vb_cfg b)] else patterns))"

definition Valkey_Health :: "bool \<Rightarrow> valkey_bus \<Rightarrow> bus_error option" where
  "Valkey_Health pong b =
     (if vb_closed b then Some ErrBusClosed else if \<not> pong then Some ErrBusUnavailable else None)"

definition Valkey_Check :: "bool \<Rightarrow> valkey_bus \<Rightarrow> bus_error option" where
  "Valkey_Check pong b = Valkey_Health pong b"

definition Valkey_Name :: string where
  "Valkey_Name = ''valkey_event_bus''"

text \<open>\<^verbatim>\<open>closeOnce\<close>: the body runs once, and it is what sets \<^verbatim>\<open>closed\<close>. The channel stays open.\<close>

definition Valkey_Close :: "valkey_bus \<Rightarrow> valkey_bus" where
  "Valkey_Close b = (if vb_closed b then b else b\<lparr>vb_closed := True, vb_clientClosed := True\<rparr>)"

subsection \<open>Messages\<close>

definition time_store :: "(string \<Rightarrow> go_time option) \<Rightarrow> encrypted_event store" where
  "time_store parse_time v e =
     (case v of
        JNull \<Rightarrow> (e, True)
      | JStr s \<Rightarrow> (case parse_time s of None \<Rightarrow> (e, False) | Some t \<Rightarrow> (e\<lparr>ev_CreatedAt := t\<rparr>, True))
      | _ \<Rightarrow> (e, False))"

definition payload_fields :: "(string \<times> encrypted_payload store) list" where
  "payload_fields =
     [(''algorithm'', store_string (\<lambda>x p. p\<lparr>ep_Algorithm := x\<rparr>)),
      (''version'', store_string (\<lambda>x p. p\<lparr>ep_Version := x\<rparr>)),
      (''suite_id'', store_uint16 (\<lambda>x p. p\<lparr>ep_SuiteID := x\<rparr>)),
      (''encapsulated_key'', store_string (\<lambda>x p. p\<lparr>ep_EncapsulatedKey := x\<rparr>)),
      (''wrapped_key'', store_string (\<lambda>x p. p\<lparr>ep_WrappedKey := x\<rparr>)),
      (''nonce'', store_string (\<lambda>x p. p\<lparr>ep_Nonce := x\<rparr>)),
      (''payload_nonce'', store_string (\<lambda>x p. p\<lparr>ep_PayloadNonce := x\<rparr>)),
      (''ciphertext'', store_string (\<lambda>x p. p\<lparr>ep_Ciphertext := x\<rparr>))]"

definition event_fields :: "(string \<Rightarrow> go_time option) \<Rightarrow> (string \<times> encrypted_event store) list" where
  "event_fields parse_time =
     [(''schema'', store_string (\<lambda>x e. e\<lparr>ev_Schema := x\<rparr>)),
      (''event_id'', store_string (\<lambda>x e. e\<lparr>ev_EventID := x\<rparr>)),
      (''tenant_id'', store_string (\<lambda>x e. e\<lparr>ev_TenantID := x\<rparr>)),
      (''app_id'', store_string (\<lambda>x e. e\<lparr>ev_AppID := x\<rparr>)),
      (''topic_id'', store_string (\<lambda>x e. e\<lparr>ev_TopicID := x\<rparr>)),
      (''type'', store_string (\<lambda>x e. e\<lparr>ev_Type := x\<rparr>)),
      (''entity_id'', store_string (\<lambda>x e. e\<lparr>ev_EntityID := x\<rparr>)),
      (''version'', store_int (\<lambda>x e. e\<lparr>ev_Version := x\<rparr>)),
      (''origin_user_id'', store_string (\<lambda>x e. e\<lparr>ev_OriginUserID := x\<rparr>)),
      (''user_id'', store_string (\<lambda>x e. e\<lparr>ev_UserID := x\<rparr>)),
      (''created_at'', time_store parse_time),
      (''crypto'', store_nested ev_Crypto (\<lambda>p e. e\<lparr>ev_Crypto := p\<rparr>) (store_struct payload_fields))]"

text \<open>\<^verbatim>\<open>json.Unmarshal([]byte(msg.Message), &event)\<close>.\<close>

definition unmarshal_event :: "(string \<Rightarrow> go_time option) \<Rightarrow> string \<Rightarrow> encrypted_event option" where
  "unmarshal_event parse_time msg = json_Unmarshal (store_struct (event_fields parse_time)) msg zero_event"

subsection \<open>The subscription loop\<close>

datatype loop_pc = Checking | Receiving | Sleeping int int | Ended

text \<open>
  \<open>Sleeping cur d\<close>: the current back-off and the time slept. The ghosts \<open>vl_got\<close> and \<open>vl_taken\<close> hold the decoded
  messages and what the consumer has taken.
\<close>

record valkey_loop =
  vl_bus :: valkey_bus
  vl_ctxDone :: bool
  vl_backoff :: int
  vl_pc :: loop_pc
  vl_got :: "encrypted_event list"
  vl_taken :: "encrypted_event list"

definition start_loop :: "valkey_bus \<Rightarrow> valkey_loop" where
  "start_loop b = \<lparr>vl_bus = b, vl_ctxDone = False, vl_backoff = vc_ReconnectMinDelay (vb_cfg b), vl_pc = Checking,
     vl_got = [], vl_taken = []\<rparr>"

definition check_step :: "valkey_loop \<Rightarrow> valkey_loop" where
  "check_step v = v\<lparr>vl_pc := (if vl_ctxDone v \<or> vb_closed (vl_bus v) then Ended else Receiving)\<rparr>"

text \<open>
  The callback of \<^verbatim>\<open>Receive\<close>. When the context is done and the channel has room, \<^verbatim>\<open>select\<close> takes either
  case: \<open>pickDone\<close> is its choice.
\<close>

definition on_message :: "(string \<Rightarrow> go_time option) \<Rightarrow> bool \<Rightarrow> string \<Rightarrow> string \<Rightarrow> valkey_loop \<Rightarrow> valkey_loop" where
  "on_message parse_time pickDone channel msg v =
     (if vb_closed (vl_bus v) then v
      else
        (let v1 = v\<lparr>vl_backoff := vc_ReconnectMinDelay (vb_cfg (vl_bus v))\<rparr>
         in case unmarshal_event parse_time msg of
              None \<Rightarrow> v1
            | Some e \<Rightarrow>
                (let e = e\<lparr>ev_RawChannel := channel\<rparr>; v2 = v1\<lparr>vl_got := vl_got v1 @ [e]\<rparr>
                 in if vl_ctxDone v \<and> pickDone then v2
                    else case try_send (vb_subCh (vl_bus v)) e of
                           Sent ch \<Rightarrow> v2\<lparr>vl_bus := (vl_bus v)\<lparr>vb_subCh := ch\<rparr>\<rparr>
                         | _ \<Rightarrow> v2)))"

definition wrap64 :: "int \<Rightarrow> int" where
  "wrap64 x = signed_take_bit 63 x"

text \<open>What follows the return of \<^verbatim>\<open>Receive\<close>, up to the sleep; \<open>j\<close> is the jitter.\<close>

definition sleep_time :: "valkey_config \<Rightarrow> int \<Rightarrow> int \<Rightarrow> int" where
  "sleep_time cfg cur j = (if vc_ReconnectJitter cfg \<and> cur > 2 then wrap64 (cur + j) else cur)"

definition interrupted :: "int \<Rightarrow> valkey_loop \<Rightarrow> valkey_loop" where
  "interrupted j v =
     (if vl_ctxDone v \<or> vb_closed (vl_bus v) \<or> \<not> vc_ReconnectEnabled (vb_cfg (vl_bus v)) then v\<lparr>vl_pc := Ended\<rparr>
      else
        (let b = vl_bus v
         in v\<lparr>vl_bus := b\<lparr>vb_reconnects := (if vb_onReconnect b then Suc (vb_reconnects b) else vb_reconnects b)\<rparr>,
              vl_pc := Sleeping (vl_backoff v) (sleep_time (vb_cfg b) (vl_backoff v) j)\<rparr>))"

definition next_backoff :: "valkey_config \<Rightarrow> int \<Rightarrow> int" where
  "next_backoff cfg cur =
     (let nextBackoff = wrap64 (cur * 2) in if nextBackoff > vc_ReconnectMaxDelay cfg then vc_ReconnectMaxDelay cfg else nextBackoff)"

inductive valkey_step :: "(string \<Rightarrow> go_time option) \<Rightarrow> valkey_loop \<Rightarrow> valkey_loop \<Rightarrow> bool" for parse_time where
  check: "vl_pc v = Checking \<Longrightarrow> valkey_step parse_time v (check_step v)"
| message: "vl_pc v = Receiving \<Longrightarrow> valkey_step parse_time v (on_message parse_time pick channel msg v)"
| interruption: "vl_pc v = Receiving \<Longrightarrow> 0 \<le> j \<Longrightarrow> j = 0 \<or> j < vl_backoff v div 2 \<Longrightarrow> valkey_step parse_time v (interrupted j v)"
| wake: "vl_pc v = Sleeping cur d \<Longrightarrow>
    valkey_step parse_time v (v\<lparr>vl_backoff := next_backoff (vb_cfg (vl_bus v)) cur, vl_pc := Checking\<rparr>)"
| wake_done: "vl_pc v = Sleeping cur d \<Longrightarrow> vl_ctxDone v \<Longrightarrow> valkey_step parse_time v (v\<lparr>vl_pc := Ended\<rparr>)"
| consume: "try_recv (vb_subCh (vl_bus v)) = Recv e ch \<Longrightarrow>
    valkey_step parse_time v (v\<lparr>vl_bus := (vl_bus v)\<lparr>vb_subCh := ch\<rparr>, vl_taken := vl_taken v @ [e]\<rparr>)"
| cancel: "valkey_step parse_time v (v\<lparr>vl_ctxDone := True\<rparr>)"
| closing: "valkey_step parse_time v (v\<lparr>vl_bus := Valkey_Close (vl_bus v), vl_ctxDone := vl_ctxDone v \<or> (vb_cancel (vl_bus v) \<and> \<not> vb_closed (vl_bus v))\<rparr>)"

inductive valkey_reach :: "(string \<Rightarrow> go_time option) \<Rightarrow> valkey_bus \<Rightarrow> valkey_loop \<Rightarrow> bool" for parse_time b where
  start: "valkey_reach parse_time b (start_loop b)"
| step: "valkey_reach parse_time b v \<Longrightarrow> valkey_step parse_time v v' \<Longrightarrow> valkey_reach parse_time b v'"

inductive_cases valkey_step_elim: "valkey_step parse_time v v'"

section \<open>Lemmas\<close>

interpretation valkey: event_bus "\<lambda>b. Valkey_Subscribe b ps" "Valkey_Health pong" "\<lambda>b. Some (Valkey_Close b)" "\<lambda>_. True"
  for ps pong
  by unfold_locales (auto simp: Valkey_Close_def Valkey_Subscribe_def Valkey_Health_def)

lemma step_cfg: "valkey_step pt v v' \<Longrightarrow> vb_cfg (vl_bus v') = vb_cfg (vl_bus v)"
  by (erule valkey_step_elim)
    (auto simp: check_step_def on_message_def interrupted_def Valkey_Close_def Let_def split: option.splits send_result.splits)

lemma reach_cfg: "valkey_reach pt b v \<Longrightarrow> vb_cfg (vl_bus v) = vb_cfg b"
  by (induction rule: valkey_reach.induct) (auto simp: start_loop_def step_cfg)

subsection \<open>Back-off\<close>

definition ceiling_delay :: "valkey_config \<Rightarrow> int" where
  "ceiling_delay cfg = max (vc_ReconnectMinDelay cfg) (vc_ReconnectMaxDelay cfg)"

definition delays_ok :: "valkey_config \<Rightarrow> bool" where
  "delays_ok cfg \<longleftrightarrow> 0 < vc_ReconnectMinDelay cfg \<and> 0 < vc_ReconnectMaxDelay cfg \<and> ceiling_delay cfg \<le> 2 ^ 61"

lemma wrap64_id: "0 \<le> x \<Longrightarrow> x < 2 ^ 63 \<Longrightarrow> wrap64 x = x"
  unfolding wrap64_def by (rule signed_take_bit_int_eq_self) auto

lemma next_backoff_bounds:
  assumes "delays_ok cfg" "0 < cur" "cur \<le> ceiling_delay cfg"
  shows "next_backoff cfg cur = min (2 * cur) (vc_ReconnectMaxDelay cfg)"
    "0 < next_backoff cfg cur" "next_backoff cfg cur \<le> ceiling_delay cfg"
proof -
  have "wrap64 (cur * 2) = cur * 2" using assms by (intro wrap64_id) (auto simp: delays_ok_def)
  then show "next_backoff cfg cur = min (2 * cur) (vc_ReconnectMaxDelay cfg)"
    by (auto simp: next_backoff_def Let_def min_def)
  then show "0 < next_backoff cfg cur" "next_backoff cfg cur \<le> ceiling_delay cfg"
    using assms by (auto simp: delays_ok_def ceiling_delay_def)
qed

lemma sleep_time_bounds:
  assumes "delays_ok cfg" "0 < cur" "cur \<le> ceiling_delay cfg" "0 \<le> j" "j = 0 \<or> j < cur div 2"
  shows "cur \<le> sleep_time cfg cur j" "2 * sleep_time cfg cur j \<le> 3 * cur"
proof -
  have "wrap64 (cur + j) = cur + j" using assms by (intro wrap64_id) (auto simp: delays_ok_def)
  then show "cur \<le> sleep_time cfg cur j" "2 * sleep_time cfg cur j \<le> 3 * cur"
    using assms by (auto simp: sleep_time_def)
qed

definition backoff_inv :: "valkey_loop \<Rightarrow> bool" where
  "backoff_inv v \<longleftrightarrow>
     (let hi = ceiling_delay (vb_cfg (vl_bus v))
      in 0 < vl_backoff v \<and> vl_backoff v \<le> hi \<and>
         (\<forall>cur d. vl_pc v = Sleeping cur d \<longrightarrow> 0 < cur \<and> cur \<le> hi \<and> cur \<le> d \<and> 2 * d \<le> 3 * cur))"

lemma step_backoff:
  assumes "valkey_step pt v v'" "backoff_inv v" "delays_ok (vb_cfg (vl_bus v))"
  shows "backoff_inv v'"
  using assms(1)
proof cases
  case (interruption j)
  then show ?thesis
    using assms(2,3) sleep_time_bounds [of "vb_cfg (vl_bus v)" "vl_backoff v" j]
    by (auto simp: backoff_inv_def interrupted_def Let_def split: if_splits)
next
  case (wake cur d)
  then show ?thesis
    using assms(2,3) next_backoff_bounds [of "vb_cfg (vl_bus v)" cur] by (auto simp: backoff_inv_def Let_def)
next
  case (message pick channel msg)
  then show ?thesis
    using assms(2,3)
    by (auto simp: backoff_inv_def on_message_def delays_ok_def ceiling_delay_def Let_def
        split: option.split send_result.split)
qed (use assms(2,3) in \<open>auto simp: backoff_inv_def check_step_def Valkey_Close_def Let_def\<close>)

lemma reach_backoff:
  "valkey_reach pt b v \<Longrightarrow> delays_ok (vb_cfg b) \<Longrightarrow> backoff_inv v"
proof (induction rule: valkey_reach.induct)
  case start
  then show ?case by (simp add: backoff_inv_def start_loop_def delays_ok_def ceiling_delay_def)
next
  case (step v v')
  then show ?case using step_backoff [OF step(2)] reach_cfg [OF step(1)] by simp
qed

lemma backoff_doubles:
  assumes "delays_ok cfg" "vc_ReconnectMinDelay cfg \<le> vc_ReconnectMaxDelay cfg"
  shows "(next_backoff cfg ^^ k) (vc_ReconnectMinDelay cfg) = min (2 ^ k * vc_ReconnectMinDelay cfg) (vc_ReconnectMaxDelay cfg)"
proof (induction k)
  case 0
  then show ?case using assms(2) by simp
next
  case (Suc k)
  have "0 < min (2 ^ k * vc_ReconnectMinDelay cfg) (vc_ReconnectMaxDelay cfg)" using assms(1) by (simp add: delays_ok_def)
  then show ?case
    using next_backoff_bounds(1) [OF assms(1), of "min (2 ^ k * vc_ReconnectMinDelay cfg) (vc_ReconnectMaxDelay cfg)"] assms
    by (auto simp: Suc ceiling_delay_def min_def)
qed

subsection \<open>The channel\<close>

definition channel_inv :: "valkey_loop \<Rightarrow> bool" where
  "channel_inv v \<longleftrightarrow> chan_open (vb_subCh (vl_bus v)) \<and> subseq (vl_taken v @ ch_buf (vb_subCh (vl_bus v))) (vl_got v)"

lemma subseq_snoc: "subseq xs ys \<Longrightarrow> subseq (xs @ [y]) (ys @ [y])"
  by (simp add: list_emb_append_mono)

lemma subseq_drop_snoc: "subseq xs ys \<Longrightarrow> subseq xs (ys @ zs)"
  by (rule list_emb_prefix)

lemma step_channel:
  assumes "valkey_step pt v v'" "channel_inv v"
  shows "channel_inv v'"
  using assms(1)
proof cases
  case (message pick channel msg)
  have "subseq (vl_taken v @ ch_buf (vb_subCh (vl_bus v)) @ [e]) (vl_got v @ [e])" for e
    using subseq_snoc [of "vl_taken v @ ch_buf (vb_subCh (vl_bus v))" "vl_got v" e] assms(2) by (simp add: channel_inv_def)
  with message show ?thesis
    using assms(2)
    by (auto simp: channel_inv_def on_message_def try_send_def chan_open_def chan_wf_def Let_def
        intro: subseq_drop_snoc split: option.split if_splits)
next
  case (consume e ch)
  then show ?thesis
    using assms(2) by (auto simp: channel_inv_def try_recv_def chan_open_def chan_wf_def split: list.splits if_splits)
qed (use assms(2) in \<open>auto simp: channel_inv_def check_step_def interrupted_def Valkey_Close_def Let_def\<close>)

lemma reach_channel: "valkey_reach pt b v \<Longrightarrow> chan_open (vb_subCh b) \<Longrightarrow> ch_buf (vb_subCh b) = [] \<Longrightarrow> channel_inv v"
proof (induction rule: valkey_reach.induct)
  case start
  then show ?case by (simp add: channel_inv_def start_loop_def)
next
  case (step v v')
  then show ?case by (intro step_channel [OF step(2)])
qed

text \<open>How far the loop is from its end once the bus is closed.\<close>

fun pc_rank :: "loop_pc \<Rightarrow> nat" where
  "pc_rank (Sleeping _ _) = 2"
| "pc_rank Checking = 1"
| "pc_rank Receiving = 1"
| "pc_rank Ended = 0"

section \<open>Properties\<close>


text \<open>A bus as the default configuration makes it, and its loop asleep after a first interruption.\<close>

definition demo_valkey_cfg :: valkey_config where
  "demo_valkey_cfg = \<lparr>vc_Address = ''valkey:6379'', vc_Username = [], vc_Password = [], vc_Database = 0, vc_TLSEnabled = False,
     vc_TLSServerName = [], vc_TLSCAFile = [], vc_TLSCertFile = [], vc_TLSKeyFile = [], vc_TLSInsecureSkip = False,
     vc_ConnectTimeout = 0, vc_ReadTimeout = 0, vc_WriteTimeout = 0, vc_ChannelPattern = [], vc_ReconnectEnabled = True,
     vc_ReconnectMinDelay = 0, vc_ReconnectMaxDelay = 0, vc_ReconnectJitter = True, vc_BufferSize = 0\<rparr>"

definition demo_valkey :: valkey_bus where
  "demo_valkey = (case Valkey_NewBus (\<lambda>_. True) (\<lambda>_. True) demo_valkey_cfg of Inr b \<Rightarrow> b | Inl _ \<Rightarrow> undefined)"

definition demo_asleep :: valkey_loop where
  "demo_asleep = interrupted 7 (check_step (start_loop demo_valkey))"

lemma demo_valkey_eval:
  "vc_ReconnectMinDelay (vb_cfg demo_valkey) = 250000000" "vc_ReconnectMaxDelay (vb_cfg demo_valkey) = 30000000000"
  "vc_ReconnectJitter (vb_cfg demo_valkey)" "vc_ReconnectEnabled (vb_cfg demo_valkey)" "\<not> vb_closed demo_valkey"
  "vb_subCh demo_valkey = make_chan 1024"
  by (simp_all add: demo_valkey_def Valkey_NewBus_def demo_valkey_cfg_def Let_def)

lemma demo_delays: "delays_ok (vb_cfg demo_valkey)"
  by (simp add: delays_ok_def ceiling_delay_def demo_valkey_eval)

lemma demo_asleep_pc: "vl_pc demo_asleep = Sleeping 250000000 250000007"
  by (simp add: demo_asleep_def interrupted_def check_step_def start_loop_def demo_valkey_eval Let_def sleep_time_def wrap64_id)

lemma demo_asleep_reach: "valkey_reach (\<lambda>_. None) demo_valkey demo_asleep"
proof -
  have "valkey_reach (\<lambda>_. None) demo_valkey (check_step (start_loop demo_valkey))"
    by (rule valkey_reach.step [OF valkey_reach.start valkey_step.check]) (simp add: start_loop_def)
  then show ?thesis
    unfolding demo_asleep_def
    by (rule valkey_reach.step [OF _ valkey_step.interruption]) (simp_all add: start_loop_def check_step_def demo_valkey_eval)
qed


text \<open>
  The consumer receives decoded messages in the order of their arrival, none twice and none invented
  (a full channel drops some), and no interleaving with \<^verbatim>\<open>Close\<close> sends on a closed channel.
\<close>

theorem messages_in_order:
  assumes "valkey_reach pt b v" "chan_open (vb_subCh b)" "ch_buf (vb_subCh b) = []"
  shows "subseq (vl_taken v @ ch_buf (vb_subCh (vl_bus v))) (vl_got v) \<and>
    (\<forall>e. try_send (vb_subCh (vl_bus v)) e \<noteq> SendPanic)"
  using reach_channel [OF assms] by (simp add: channel_inv_def try_send_def chan_open_def)

theorem messages_in_order_witness:
  "\<forall>e. try_send (vb_subCh (vl_bus demo_asleep)) e \<noteq> SendPanic"
  using messages_in_order [OF demo_asleep_reach] by (simp add: demo_valkey_eval chan_open_def chan_wf_def make_chan_def)

text \<open>
  C37. After \<^verbatim>\<open>Close\<close> the subscription loop ends: every step that moves it brings it closer to its end,
  which is at most two such steps away, one is always possible until it has ended, and no event is
  accepted any more.
\<close>

theorem close_ends_loop:
  assumes "vb_closed (vl_bus v)" "valkey_step pt v v'"
  shows "vb_closed (vl_bus v') \<and> vl_got v' = vl_got v \<and>
    (vl_pc v' \<noteq> vl_pc v \<longrightarrow> pc_rank (vl_pc v') < pc_rank (vl_pc v)) \<and> pc_rank (vl_pc v) \<le> 2 \<and>
    (vl_pc v \<noteq> Ended \<longrightarrow> (\<exists>w. valkey_step pt v w \<and> pc_rank (vl_pc w) < pc_rank (vl_pc v)))"
proof -
  have rank: "pc_rank (vl_pc v) \<le> 2" by (cases "vl_pc v") simp_all
  have "vb_closed (vl_bus v') \<and> vl_got v' = vl_got v \<and> (vl_pc v' \<noteq> vl_pc v \<longrightarrow> pc_rank (vl_pc v') < pc_rank (vl_pc v))"
    using assms(2) by cases (use assms(1) in \<open>auto simp: check_step_def on_message_def interrupted_def Valkey_Close_def\<close>)
  moreover have "\<exists>w. valkey_step pt v w \<and> pc_rank (vl_pc w) < pc_rank (vl_pc v)" if "vl_pc v \<noteq> Ended"
  proof (cases "vl_pc v")
    case Checking
    then show ?thesis using assms(1) valkey_step.check [of v pt] by (auto simp: check_step_def)
  next
    case Receiving
    then show ?thesis using assms(1) valkey_step.interruption [of v 0 pt] by (auto simp: interrupted_def)
  next
    case (Sleeping cur d)
    then show ?thesis using valkey_step.wake [OF Sleeping, of pt] by force
  qed (use that in simp)
  ultimately show ?thesis using rank by blast
qed

theorem close_ends_loop_witness:
  "\<exists>w. valkey_step (\<lambda>_. None) (start_loop (Valkey_Close demo_valkey)) w \<and> pc_rank (vl_pc w) < pc_rank Checking"
  using close_ends_loop [OF _ valkey_step.cancel, of "start_loop (Valkey_Close demo_valkey)" "\<lambda>_. None"]
  by (auto simp: start_loop_def Valkey_Close_def)

text \<open>
  With reconnection disabled, the first interruption ends the loop for good while the bus stays
  open: its channel is not closed, so the consumer waits for ever and the health check,
  which only pings the server, keeps reporting a working bus.
\<close>

theorem interruption_without_reconnect_is_silent:
  assumes "vl_pc v = Receiving" "\<not> vc_ReconnectEnabled (vb_cfg (vl_bus v))" "\<not> vb_closed (vl_bus v)"
  shows "vl_pc (interrupted j v) = Ended \<and> ch_closed (vb_subCh (vl_bus (interrupted j v))) = ch_closed (vb_subCh (vl_bus v)) \<and>
    Valkey_Health True (vl_bus (interrupted j v)) = None"
  using assms by (simp add: interrupted_def Valkey_Health_def)

end
