(* ===== verification/Unwrap_Client.thy ===== *)
theory Unwrap_Client
  imports Pipeline Go_Json_Decode
begin

text \<open>
  \<^verbatim>\<open>internal/crypto/httpclient/client.go\<close>: the HTTP adapter to the key service, in its binary and
  its JSON mode. The transport with the service behind it is the parameter \<open>send\<close>: a function on
  the service's state that answers a request or fails (\<open>None\<close>: connection error or timeout).
  \<open>url_ok\<close> says whether
  \<^verbatim>\<open>http.NewRequest\<close> accepts a URL and \<open>tls_ok\<close> whether the TLS files load (theory \<open>Tls_Conf\<close>). The buffers
  in which a key arrives, and their erasure, which no caller sees, are theory \<open>Unwrap_Memory\<close>.
\<close>

section \<open>Definitions\<close>

subsection \<open>Configuration\<close>

record client_config =
  cc_BaseURL :: string
  cc_UnwrapPath :: string
  cc_HealthPath :: string
  cc_ConnectTimeout :: int
  cc_RequestTimeout :: int
  cc_MaxIdleConns :: int
  cc_MaxIdleConnsPerHost :: int
  cc_IdleConnTimeout :: int
  cc_AuthMode :: string
  cc_BearerToken :: string
  cc_BasicUsername :: string
  cc_BasicPassword :: string
  cc_TLSEnabled :: bool
  cc_TLSServerName :: string
  cc_TLSCAFile :: string
  cc_TLSCertFile :: string
  cc_TLSKeyFile :: string
  cc_TLSInsecureSkipVerify :: bool
  cc_BinaryMode :: bool

record http_transport =
  tr_unixSocket :: "string option"
  tr_forceHTTP2 :: bool
  tr_tls :: bool

record unwrap_client =
  uc_cfg :: client_config
  uc_transport :: http_transport
  uc_timeout :: int
  uc_unwrapURL :: string
  uc_healthURL :: string

datatype client_error = ErrMissingBaseURL | ErrMissingSocketPath string | ErrTLSConfig

definition second :: int where
  "second = 1000000000"

definition default_pos :: "int \<Rightarrow> int \<Rightarrow> int" where
  "default_pos v d = (if v \<le> 0 then d else v)"

definition default_str :: "string \<Rightarrow> string \<Rightarrow> string" where
  "default_str v d = (if v = [] then d else v)"

definition unixSchemePrefix :: string where
  "unixSchemePrefix = ''unix://''"

definition unixLocalHost :: string where
  "unixLocalHost = ''http://localhost''"

definition NewHTTPClient :: "(client_config \<Rightarrow> bool) \<Rightarrow> client_config \<Rightarrow> client_error + unwrap_client" where
  "NewHTTPClient tls_ok cfg0 =
     (if cc_BaseURL cfg0 = [] then Inl ErrMissingBaseURL
      else
        (let cfg1 = cfg0\<lparr>cc_UnwrapPath := default_str (cc_UnwrapPath cfg0) ''/unwrap-key'',
                         cc_HealthPath := default_str (cc_HealthPath cfg0) ''/health'',
                         cc_RequestTimeout := default_pos (cc_RequestTimeout cfg0) (3 * second),
                         cc_ConnectTimeout := default_pos (cc_ConnectTimeout cfg0) second,
                         cc_MaxIdleConns := default_pos (cc_MaxIdleConns cfg0) 256,
                         cc_MaxIdleConnsPerHost := default_pos (cc_MaxIdleConnsPerHost cfg0) 256,
                         cc_IdleConnTimeout := default_pos (cc_IdleConnTimeout cfg0) (90 * second)\<rparr>;
             (socketPath, isUnix) = strings_CutPrefix (cc_BaseURL cfg1) unixSchemePrefix
         in if isUnix \<and> socketPath = [] then Inl (ErrMissingSocketPath (cc_BaseURL cfg1))
            else
              (let cfg = (if isUnix then cfg1\<lparr>cc_BaseURL := unixLocalHost, cc_TLSEnabled := False\<rparr> else cfg1)
               in if cc_TLSEnabled cfg \<and> \<not> tls_ok cfg then Inl ErrTLSConfig
                  else
                    (let base = strings_TrimRight (cc_BaseURL cfg) ''/''
                     in Inr \<lparr>uc_cfg = cfg,
                             uc_transport = \<lparr>tr_unixSocket = (if isUnix then Some socketPath else None),
                                             tr_forceHTTP2 = (\<not> isUnix), tr_tls = cc_TLSEnabled cfg\<rparr>,
                             uc_timeout = cc_RequestTimeout cfg,
                             uc_unwrapURL = base @ ''/'' @ strings_TrimLeft (cc_UnwrapPath cfg) ''/'',
                             uc_healthURL = base @ ''/'' @ strings_TrimLeft (cc_HealthPath cfg) ''/''\<rparr>))))"

subsection \<open>Requests\<close>

record http_request =
  rq_method :: string
  rq_url :: string
  rq_headers :: "(string \<times> string) list"
  rq_body :: string

record http_response =
  rs_code :: nat
  rs_status :: string
  rs_body :: string
  rs_readErr :: bool

record unwrap_response =
  ur_PlaintextKey :: string
  ur_KeyLength :: int
  ur_Error :: string
  ur_Details :: string

type_synonym 'u transport = "'u \<Rightarrow> http_request \<Rightarrow> 'u \<times> http_response option"

definition applyAuth :: "client_config \<Rightarrow> http_request \<Rightarrow> http_request" where
  "applyAuth cfg req =
     (if strings_ToLower (cc_AuthMode cfg) = ''bearer'' then
        (if cc_BearerToken cfg \<noteq> []
         then req\<lparr>rq_headers := rq_headers req @ [(''Authorization'', ''Bearer '' @ cc_BearerToken cfg)]\<rparr> else req)
      else if strings_ToLower (cc_AuthMode cfg) = ''basic'' then
        (if cc_BasicUsername cfg \<noteq> [] \<or> cc_BasicPassword cfg \<noteq> []
         then req\<lparr>rq_headers := rq_headers req @
                [(''Authorization'', ''Basic '' @ base64_EncodeToString (cc_BasicUsername cfg @ '':'' @ cc_BasicPassword cfg))]\<rparr>
         else req)
      else req)"

definition contentTypeJSON :: string where
  "contentTypeJSON = ''application/json; charset=utf-8''"

definition contentTypeBinary :: string where
  "contentTypeBinary = ''application/octet-stream''"

definition dekSize :: nat where
  "dekSize = 32"

definition binaryHeaderSize :: nat where
  "binaryHeaderSize = 7"

text \<open>\<^verbatim>\<open>binary.BigEndian.AppendUint16\<close>.\<close>

definition AppendUint16 :: "string \<Rightarrow> 16 word \<Rightarrow> string" where
  "AppendUint16 buf w = buf @ [char_of (unat (drop_bit 8 w)), char_of (unat (take_bit 8 w))]"

definition encodeBinaryEnvelope :: "wrapped_key_envelope \<Rightarrow> crypto_error + string" where
  "encodeBinaryEnvelope envelope =
     (case base64_DecodeString (we_EncapsulatedKey envelope) of
        None \<Rightarrow> Inl (ErrInvalidEnvelope ''encapsulated_key'')
      | Some encapKey \<Rightarrow>
          (case base64_DecodeString (we_Nonce envelope) of
             None \<Rightarrow> Inl (ErrInvalidEnvelope ''nonce'')
           | Some nonce \<Rightarrow>
               (case base64_DecodeString (we_WrappedKey envelope) of
                  None \<Rightarrow> Inl (ErrInvalidEnvelope ''wrapped_key'')
                | Some wrappedKey \<Rightarrow>
                    if length nonce \<noteq> gcm_nonce_size then Inl (ErrInvalidEnvelope ''nonce size'')
                    else if length encapKey > 65535 then Inl (ErrInvalidEnvelope ''encapsulated_key size'')
                    else Inr (AppendUint16 (AppendUint16 [CHR ''P'', CHR ''Q'', CHR 0x02] (we_SuiteID envelope))
                               (of_nat (length encapKey)) @ encapKey @ nonce @ wrappedKey))))"

text \<open>
  \<^verbatim>\<open>json.NewDecoder(resp.Body).Decode(&unwrapResp)\<close>: whether it succeeded, and the struct, of which a
  failed decoding may have filled some fields.
\<close>

definition response_fields :: "(string \<times> unwrap_response store) list" where
  "response_fields =
     [(''plaintext_key'', store_string (\<lambda>x r. r\<lparr>ur_PlaintextKey := x\<rparr>)),
      (''key_length'', store_int (\<lambda>x r. r\<lparr>ur_KeyLength := x\<rparr>)),
      (''error'', store_string (\<lambda>x r. r\<lparr>ur_Error := x\<rparr>)),
      (''details'', store_string (\<lambda>x r. r\<lparr>ur_Details := x\<rparr>))]"

definition decode_response :: "string \<Rightarrow> bool \<times> unwrap_response" where
  "decode_response body = Decoder_Decode (store_struct response_fields) body
     \<lparr>ur_PlaintextKey = [], ur_KeyLength = 0, ur_Error = [], ur_Details = []\<rparr>"

text \<open>The error message: the service's own, or the status line.\<close>

definition error_message :: "http_response \<Rightarrow> string" where
  "error_message resp =
     (let msg = ur_Error (snd (decode_response (rs_body resp))) in if msg = [] then rs_status resp else msg)"

definition unwrapBinary ::
  "(string \<Rightarrow> bool) \<Rightarrow> 'u transport \<Rightarrow> unwrap_client \<Rightarrow> 'u unwrap" where
  "unwrapBinary url_ok send c svc envelope =
     (case encodeBinaryEnvelope envelope of
        Inl err \<Rightarrow> (svc, Inl err)
      | Inr body \<Rightarrow>
          if \<not> url_ok (uc_unwrapURL c) then (svc, Inl ErrRequest)
          else
            (let httpReq = applyAuth (uc_cfg c)
                   \<lparr>rq_method = ''POST'', rq_url = uc_unwrapURL c,
                    rq_headers = [(''Content-Type'', contentTypeBinary), (''Accept'', contentTypeBinary)],
                    rq_body = body\<rparr>
             in case send svc httpReq of
                  (svc', None) \<Rightarrow> (svc', Inl ErrCryptoServiceUnavailable)
                | (svc', Some resp) \<Rightarrow>
                    if rs_code resp \<noteq> 200 then (svc', Inl (ErrUnwrapFailed (error_message resp)))
                    else if rs_readErr resp then (svc', Inl (ErrUnwrapFailed ''read''))
                    else
                      (let rawDEK = take (dekSize + 1) (rs_body resp)
                       in if length rawDEK \<noteq> dekSize then (svc', Inl (ErrUnwrapFailed ''size''))
                          else (svc', Inr rawDEK))))"

definition quoted_field :: "string \<Rightarrow> string \<Rightarrow> string" where
  "quoted_field name v = field name (json_string v)"

text \<open>\<^verbatim>\<open>json.Marshal(unwrapRequest{...})\<close>.\<close>

definition unwrap_request :: "wrapped_key_envelope \<Rightarrow> string" where
  "unwrap_request envelope =
     ''{'' @ omit_empty ''algorithm'' (we_Algorithm envelope) @ omit_empty ''version'' (we_Version envelope) @
     (if we_SuiteID envelope = 0 then [] else field ''suite_id'' (nat_digits (unat (we_SuiteID envelope))) @ '','') @
     quoted_field ''encapsulated_key'' (we_EncapsulatedKey envelope) @ '','' @
     quoted_field ''nonce'' (we_Nonce envelope) @ '','' @ quoted_field ''wrapped_key'' (we_WrappedKey envelope) @ ''}''"

definition unwrapJSON ::
  "(string \<Rightarrow> bool) \<Rightarrow> 'u transport \<Rightarrow> unwrap_client \<Rightarrow> 'u unwrap" where
  "unwrapJSON url_ok send c svc envelope =
     (if \<not> url_ok (uc_unwrapURL c) then (svc, Inl ErrRequest)
      else
        (let httpReq = applyAuth (uc_cfg c)
               \<lparr>rq_method = ''POST'', rq_url = uc_unwrapURL c,
                rq_headers = [(''Content-Type'', contentTypeJSON), (''Accept'', ''application/json'')],
                rq_body = unwrap_request envelope\<rparr>
         in case send svc httpReq of
              (svc', None) \<Rightarrow> (svc', Inl ErrCryptoServiceUnavailable)
            | (svc', Some resp) \<Rightarrow>
                if rs_code resp \<noteq> 200 then (svc', Inl (ErrUnwrapFailed (error_message resp)))
                else case decode_response (rs_body resp) of
                  (False, _) \<Rightarrow> (svc', Inl ErrDecodeResponse)
                | (True, unwrapResp) \<Rightarrow>
                    if ur_Error unwrapResp \<noteq> [] then (svc', Inl (ErrUnwrapFailed (ur_Error unwrapResp)))
                    else if ur_PlaintextKey unwrapResp = [] then (svc', Inl (ErrUnwrapFailed ''no key''))
                    else case base64_DecodeString (ur_PlaintextKey unwrapResp) of
                      None \<Rightarrow> (svc', Inl (ErrBadBase64 ''plaintext_key''))
                    | Some rawDEK \<Rightarrow>
                        if length rawDEK \<noteq> dekSize then (svc', Inl (ErrUnwrapFailed ''size''))
                        else (svc', Inr rawDEK)))"

definition Client_Unwrap ::
  "(string \<Rightarrow> bool) \<Rightarrow> 'u transport \<Rightarrow> unwrap_client \<Rightarrow> 'u unwrap" where
  "Client_Unwrap url_ok send c svc envelope =
     (if we_EncapsulatedKey envelope = [] \<or> we_WrappedKey envelope = [] then (svc, Inl (ErrInvalidEnvelope ''missing''))
      else if cc_BinaryMode (uc_cfg c) then unwrapBinary url_ok send c svc envelope
      else unwrapJSON url_ok send c svc envelope)"

datatype health_error = ErrBadRequest | ErrServiceDown | ErrServiceStatus nat

definition Client_Health :: "(string \<Rightarrow> bool) \<Rightarrow> 'u transport \<Rightarrow> unwrap_client \<Rightarrow> 'u \<Rightarrow> 'u \<times> health_error option" where
  "Client_Health url_ok send c svc =
     (if \<not> url_ok (uc_healthURL c) then (svc, Some ErrBadRequest)
      else
        (case send svc (applyAuth (uc_cfg c) \<lparr>rq_method = ''GET'', rq_url = uc_healthURL c, rq_headers = [], rq_body = []\<rparr>) of
           (svc', None) \<Rightarrow> (svc', Some ErrServiceDown)
         | (svc', Some resp) \<Rightarrow>
             if rs_code resp \<noteq> 200 then (svc', Some (ErrServiceStatus (rs_code resp))) else (svc', None)))"

definition Client_Name :: string where
  "Client_Name = ''crypto_service''"

subsection \<open>The receiving end of the binary format\<close>

definition parse_envelope :: "string \<Rightarrow> (nat \<times> string \<times> string \<times> string) option" where
  "parse_envelope buf =
     (case buf of
        p # q # v # s1 # s0 # l1 # l0 # rest \<Rightarrow>
          (let n = byte l1 * 256 + byte l0
           in if p = CHR ''P'' \<and> q = CHR ''Q'' \<and> v = CHR 0x02 \<and> n + 12 \<le> length rest
              then Some (byte s1 * 256 + byte s0, take n rest, take 12 (drop n rest), drop (n + 12) rest)
              else None)
      | _ \<Rightarrow> None)"

section \<open>Lemmas\<close>

lemma Client_Unwrap_size: "Client_Unwrap url_ok send c svc env = (svc', Inr dek) \<Longrightarrow> length dek = 32"
  by (auto simp: Client_Unwrap_def unwrapBinary_def unwrapJSON_def dekSize_def Let_def
      split: if_splits sum.splits prod.splits option.splits bool.splits)

interpretation http: key_unwrapper "Client_Unwrap url_ok send c"
  for url_ok :: "string \<Rightarrow> bool" and send :: "'u transport" and c :: unwrap_client
  by unfold_locales (rule Client_Unwrap_size)


lemma byte_char_of [simp]: "n < 256 \<Longrightarrow> byte (char_of n) = n"
  by simp

lemma AppendUint16_value:
  "\<exists>a b. AppendUint16 buf w = buf @ [a, b] \<and> byte a * 256 + byte b = unat w"
proof -
  have hi: "unat (drop_bit 8 w) = unat w div 256" by (simp add: drop_bit_eq_div unat_div)
  have lo: "unat (take_bit 8 w) = unat w mod 256" by (simp add: take_bit_eq_mod unat_mod)
  have "unat w < 65536" using unsigned_less [of w] by simp
  then have "unat w div 256 < 256" by linarith
  then show ?thesis
    unfolding AppendUint16_def hi lo by (intro exI conjI) (rule refl, simp)
qed

lemma encode_Inr:
  assumes "encodeBinaryEnvelope env = Inr buf"
  obtains encapKey nonce wrappedKey where
    "base64_DecodeString (we_EncapsulatedKey env) = Some encapKey" "base64_DecodeString (we_Nonce env) = Some nonce"
    "base64_DecodeString (we_WrappedKey env) = Some wrappedKey" "length nonce = 12" "length encapKey \<le> 65535"
    "buf = AppendUint16 (AppendUint16 [CHR ''P'', CHR ''Q'', CHR 0x02] (we_SuiteID env)) (of_nat (length encapKey)) @
      encapKey @ nonce @ wrappedKey"
  using assms by (auto simp: encodeBinaryEnvelope_def gcm_nonce_size_def split: option.splits if_splits)

lemma parse_encoded:
  assumes "length nonce = 12" "length encapKey \<le> 65535"
  shows "parse_envelope (AppendUint16 (AppendUint16 [CHR ''P'', CHR ''Q'', CHR 0x02] suite) (of_nat (length encapKey)) @
      encapKey @ nonce @ wrappedKey) = Some (unat suite, encapKey, nonce, wrappedKey)"
proof -
  obtain s1 s0 where s: "AppendUint16 [CHR ''P'', CHR ''Q'', CHR 0x02] suite = [CHR ''P'', CHR ''Q'', CHR 0x02] @ [s1, s0]"
    "byte s1 * 256 + byte s0 = unat suite" using AppendUint16_value by blast
  obtain l1 l0 where l: "AppendUint16 ([CHR ''P'', CHR ''Q'', CHR 0x02] @ [s1, s0]) (of_nat (length encapKey)) =
      ([CHR ''P'', CHR ''Q'', CHR 0x02] @ [s1, s0]) @ [l1, l0]"
    "byte l1 * 256 + byte l0 = unat (of_nat (length encapKey) :: 16 word)" using AppendUint16_value by blast
  have "unat (of_nat (length encapKey) :: 16 word) = length encapKey"
    using assms(2) by (simp add: unat_of_nat take_bit_eq_mod)
  then show ?thesis unfolding s(1) l(1) using s(2) l(2) assms(1) by (simp add: parse_envelope_def Let_def)
qed

section \<open>Properties\<close>

text \<open>
  The binary envelope round trip: whatever the encoder emits, a reader of the format
  recovers the suite, the encapsulated key, the nonce and the wrapped key exactly, and the
  encoder emits something if and only if the three Base64 fields decode, the nonce has 12
  bytes and the encapsulated key fits the 16-bit length field.
\<close>

theorem binary_envelope_roundtrip:
  "(case encodeBinaryEnvelope env of
      Inl err \<Rightarrow> \<exists>what. err = ErrInvalidEnvelope what
    | Inr buf \<Rightarrow> \<exists>encapKey nonce wrappedKey. parse_envelope buf = Some (unat (we_SuiteID env), encapKey, nonce, wrappedKey) \<and>
        base64_DecodeString (we_EncapsulatedKey env) = Some encapKey \<and> base64_DecodeString (we_Nonce env) = Some nonce \<and>
        base64_DecodeString (we_WrappedKey env) = Some wrappedKey \<and>
        length buf = binaryHeaderSize + length encapKey + 12 + length wrappedKey) \<and>
   ((\<exists>buf. encodeBinaryEnvelope env = Inr buf) \<longleftrightarrow>
      (\<exists>encapKey nonce wrappedKey. base64_DecodeString (we_EncapsulatedKey env) = Some encapKey \<and>
        base64_DecodeString (we_Nonce env) = Some nonce \<and> base64_DecodeString (we_WrappedKey env) = Some wrappedKey \<and>
        length nonce = 12 \<and> length encapKey \<le> 65535))"
proof -
  have "\<exists>encapKey nonce wrappedKey. parse_envelope buf = Some (unat (we_SuiteID env), encapKey, nonce, wrappedKey) \<and>
        base64_DecodeString (we_EncapsulatedKey env) = Some encapKey \<and> base64_DecodeString (we_Nonce env) = Some nonce \<and>
        base64_DecodeString (we_WrappedKey env) = Some wrappedKey \<and>
        length buf = binaryHeaderSize + length encapKey + 12 + length wrappedKey"
    if "encodeBinaryEnvelope env = Inr buf" for buf
    using that by (rule encode_Inr) (simp add: parse_encoded, simp add: AppendUint16_def binaryHeaderSize_def)
  moreover have "\<exists>what. err = ErrInvalidEnvelope what" if "encodeBinaryEnvelope env = Inl err" for err
    using that by (auto simp: encodeBinaryEnvelope_def split: option.splits if_splits)
  moreover have "(\<exists>buf. encodeBinaryEnvelope env = Inr buf) \<longleftrightarrow>
      (\<exists>encapKey nonce wrappedKey. base64_DecodeString (we_EncapsulatedKey env) = Some encapKey \<and>
        base64_DecodeString (we_Nonce env) = Some nonce \<and> base64_DecodeString (we_WrappedKey env) = Some wrappedKey \<and>
        length nonce = 12 \<and> length encapKey \<le> 65535)"
    by (auto simp: encodeBinaryEnvelope_def gcm_nonce_size_def split: option.split)
  ultimately show ?thesis by (auto split: sum.split)
qed

text \<open>
  A key is accepted only from a successful answer of the key service: it has exactly 32
  bytes and is the whole body of a 200 response (binary mode), or the Base64 value of the
  key field of a 200 response that decodes and reports no error (JSON mode).
\<close>

theorem unwrap_accepts_only_answers:
  assumes "Client_Unwrap url_ok send c svc env = (svc', Inr dek)"
  shows "length dek = 32 \<and> (\<exists>req resp. send svc req = (svc', Some resp) \<and> rq_method req = ''POST'' \<and>
    rq_url req = uc_unwrapURL c \<and> rs_code resp = 200 \<and>
    (if cc_BinaryMode (uc_cfg c) then rs_body resp = dek
     else \<exists>r. decode_response (rs_body resp) = (True, r) \<and> ur_Error r = [] \<and>
       base64_DecodeString (ur_PlaintextKey r) = Some dek))"
proof -
  have auth: "rq_method (applyAuth cfg q) = rq_method q" "rq_url (applyAuth cfg q) = rq_url q" for cfg q
    by (simp_all add: applyAuth_def)
  have whole: "take 33 b = b" if "length (take 33 b) = 32" for b :: string
    using that by (auto simp: min_def split: if_splits)
  show ?thesis
  proof (cases "cc_BinaryMode (uc_cfg c)")
    case True
    then obtain req resp where "send svc req = (svc', Some resp)" "rq_method req = ''POST''" "rq_url req = uc_unwrapURL c"
      "rs_code resp = 200" "take 33 (rs_body resp) = dek" "length dek = 32"
      using assms
      by (auto simp: Client_Unwrap_def unwrapBinary_def dekSize_def Let_def auth
          split: if_splits sum.splits prod.splits option.splits)
    with True whole [of "rs_body resp"] show ?thesis by auto
  next
    case False
    then obtain req resp r where "send svc req = (svc', Some resp)" "rq_method req = ''POST''" "rq_url req = uc_unwrapURL c"
      "rs_code resp = 200" "decode_response (rs_body resp) = (True, r)" "ur_Error r = []"
      "base64_DecodeString (ur_PlaintextKey r) = Some dek" "length dek = 32"
      using assms
      by (auto simp: Client_Unwrap_def unwrapJSON_def dekSize_def Let_def auth
          split: if_splits prod.splits option.splits bool.splits)
    with False show ?thesis by auto
  qed
qed

text \<open>A service that answers every request with 32 bytes.\<close>

definition demo_send :: "nat transport" where
  "demo_send n req = (Suc n, Some \<lparr>rs_code = 200, rs_status = ''200 OK'', rs_body = replicate 32 (CHR ''k''), rs_readErr = False\<rparr>)"

definition demo_config :: client_config where
  "demo_config = \<lparr>cc_BaseURL = ''unix:///run/pq.sock'', cc_UnwrapPath = ''//unwrap'', cc_HealthPath = [],
     cc_ConnectTimeout = 0, cc_RequestTimeout = 0, cc_MaxIdleConns = 0, cc_MaxIdleConnsPerHost = 0,
     cc_IdleConnTimeout = 0, cc_AuthMode = ''Bearer'', cc_BearerToken = ''s3'', cc_BasicUsername = [],
     cc_BasicPassword = [], cc_TLSEnabled = True, cc_TLSServerName = [], cc_TLSCAFile = [], cc_TLSCertFile = [],
     cc_TLSKeyFile = [], cc_TLSInsecureSkipVerify = False, cc_BinaryMode = True\<rparr>"

definition demo_uc :: unwrap_client where
  "demo_uc = \<lparr>uc_cfg = demo_config, uc_transport = \<lparr>tr_unixSocket = None, tr_forceHTTP2 = True, tr_tls = False\<rparr>,
     uc_timeout = second, uc_unwrapURL = ''http://k/u'', uc_healthURL = ''http://k/h''\<rparr>"

definition demo_env :: wrapped_key_envelope where
  "demo_env = \<lparr>we_Algorithm = [], we_Version = [], we_SuiteID = 1, we_EncapsulatedKey = base64_EncodeToString ''ek'',
     we_Nonce = base64_EncodeToString (replicate 12 (CHR ''n'')), we_WrappedKey = base64_EncodeToString ''wk''\<rparr>"

lemma demo_unwraps:
  "Client_Unwrap (\<lambda>_. True) demo_send demo_uc 0 demo_env = (1, Inr (replicate 32 (CHR ''k'')))"
proof -
  have "base64_DecodeString (we_EncapsulatedKey demo_env) = Some ''ek''"
    "base64_DecodeString (we_Nonce demo_env) = Some (replicate 12 (CHR ''n''))"
    "base64_DecodeString (we_WrappedKey demo_env) = Some ''wk''"
    by (simp_all add: demo_env_def del: base64_EncodeToString.simps)
  then obtain buf where buf: "encodeBinaryEnvelope demo_env = Inr buf"
    by (simp add: encodeBinaryEnvelope_def gcm_nonce_size_def)
  have env: "we_EncapsulatedKey demo_env \<noteq> []" "we_WrappedKey demo_env \<noteq> []" by (simp_all add: demo_env_def)
  show ?thesis
    by (simp add: Client_Unwrap_def unwrapBinary_def env buf demo_uc_def demo_config_def demo_send_def Let_def dekSize_def)
qed

theorem unwrap_accepts_only_answers_witness:
  "length (replicate 32 (CHR ''k'')) = 32 \<and> (\<exists>req. demo_send 0 req = (1, Some
    \<lparr>rs_code = 200, rs_status = ''200 OK'', rs_body = replicate 32 (CHR ''k''), rs_readErr = False\<rparr>) \<and>
    rq_url req = ''http://k/u'')"
proof -
  have url: "uc_unwrapURL demo_uc = ''http://k/u''" by (simp add: demo_uc_def)
  from unwrap_accepts_only_answers [OF demo_unwraps] obtain req :: http_request where "rq_url req = ''http://k/u''"
    unfolding url by auto
  then show ?thesis by (auto simp: demo_send_def)
qed

text \<open>
  Over the HTTP adapter the pipeline never fails because of the size of the data key:
  the adapter has already refused every answer that is not 32 bytes.
\<close>

theorem adapter_keys_fit_aes:
  "snd (DecryptAndBuildFrame (Client_Unwrap url_ok send c) gcm_open cfg ev st) \<noteq> Inl ErrInvalidKeySize"
proof -
  have enc: "encodeBinaryEnvelope env \<noteq> Inl ErrInvalidKeySize" for env
    by (simp add: encodeBinaryEnvelope_def split: option.split)
  have "snd (unwrapBinary url_ok send c svc env) \<noteq> Inl ErrInvalidKeySize" for svc env
    using enc [of env] by (auto simp: unwrapBinary_def Let_def split: sum.split prod.split option.split)
  moreover have "snd (unwrapJSON url_ok send c svc env) \<noteq> Inl ErrInvalidKeySize" for svc env
    by (simp add: unwrapJSON_def Let_def split: prod.split option.split bool.split)
  ultimately have "snd (Client_Unwrap url_ok send c svc env) \<noteq> Inl ErrInvalidKeySize" for svc env
    by (simp add: Client_Unwrap_def)
  then show ?thesis using http.decrypt_key_size by blast
qed

text \<open>
  The URLs of a client join base and path with exactly one slash between them, however
  many slashes the configuration has there, and a \<^verbatim>\<open>unix://\<close> base always means the socket, the
  local host, no TLS.
\<close>

lemma client_urls:
  assumes "NewHTTPClient tls_ok cfg = Inr c"
  shows "(\<exists>base path. uc_unwrapURL c = base @ ''/'' @ path \<and> (base = [] \<or> last base \<noteq> CHR ''/'') \<and>
      (path = [] \<or> hd path \<noteq> CHR ''/'') \<and> path = strings_TrimLeft (cc_UnwrapPath (uc_cfg c)) ''/'') \<and>
    (strings_HasPrefix (cc_BaseURL cfg) ''unix://'' \<longrightarrow>
      (\<exists>p. p \<noteq> [] \<and> cc_BaseURL cfg = ''unix://'' @ p \<and> tr_unixSocket (uc_transport c) = Some p) \<and>
      \<not> tr_tls (uc_transport c) \<and> strings_HasPrefix (uc_unwrapURL c) ''http://localhost/'')"
proof -
  have right: "strings_TrimRight b ''/'' = [] \<or> last (strings_TrimRight b ''/'') \<noteq> CHR ''/''" for b
    using hd_dropWhile [of "\<lambda>c. c \<in> set ''/''" "rev b"] by (auto simp: strings_TrimRight_def last_rev)
  have left: "strings_TrimLeft p ''/'' = [] \<or> hd (strings_TrimLeft p ''/'') \<noteq> CHR ''/''" for p
    using hd_dropWhile [of "\<lambda>c. c \<in> set ''/''" p] by (auto simp: strings_TrimLeft_def)
  have host: "strings_TrimRight unixLocalHost ''/'' = ''http://localhost''"
    by (simp add: unixLocalHost_def strings_TrimRight_def)
  have "\<exists>base path. uc_unwrapURL c = base @ ''/'' @ path \<and> (base = [] \<or> last base \<noteq> CHR ''/'') \<and>
      (path = [] \<or> hd path \<noteq> CHR ''/'') \<and> path = strings_TrimLeft (cc_UnwrapPath (uc_cfg c)) ''/''"
    using assms right left
    by (auto simp: NewHTTPClient_def strings_CutPrefix_def Let_def split: if_splits)
  moreover have "(\<exists>p. p \<noteq> [] \<and> cc_BaseURL cfg = ''unix://'' @ p \<and> tr_unixSocket (uc_transport c) = Some p) \<and>
      \<not> tr_tls (uc_transport c) \<and> strings_HasPrefix (uc_unwrapURL c) ''http://localhost/''"
    if "strings_HasPrefix (cc_BaseURL cfg) ''unix://''"
    using assms that host
    by (auto simp: NewHTTPClient_def strings_CutPrefix_def strings_HasPrefix_def unixSchemePrefix_def Let_def
        prefix_def split: if_splits)
  ultimately show ?thesis by blast
qed

end
