(* ===== verification/Auth.thy ===== *)
theory Auth
  imports Go_Case Base64
begin

text \<open>
  \<^verbatim>\<open>internal/auth/validator.go\<close>, \<^verbatim>\<open>jwt.go\<close> and \<^verbatim>\<open>mock.go\<close>: the validation of subscription
  tickets. Times and durations are nanoseconds; a \<^verbatim>\<open>time.Time\<close> is \<open>None\<close> when it is the zero time.

  The JWT library (\<^verbatim>\<open>golang-jwt\<close>) is the parameter \<open>parse\<close>: from the current time, the ticket, the key
  that the callback hands out and the parser options it gives a token or an error. An error
  is the list of sentinel errors that \<^verbatim>\<open>errors.Is\<close> finds in it. \<open>jwt_contract\<close> states what its
  documentation promises of the options. The decoding of PEM and PKIX key files is the
  parameter \<open>key_lib\<close>, and \<open>files\<close> is what the file system holds.
\<close>

section \<open>Definitions\<close>

datatype auth_error =
    ErrMissingTicket | ErrInvalidTicket | ErrExpiredTicket | ErrInvalidAudience | ErrInvalidIssuer
  | ErrMissingClaims

type_synonym instant = "int option"

record capability =
  cap_UserID :: string
  cap_TenantID :: string
  cap_AppID :: string
  cap_Topics :: "string list"
  cap_Audience :: string
  cap_Issuer :: string
  cap_ExpiresAt :: instant

record jwt_config =
  jc_Algorithm :: string
  jc_PublicKeyFile :: string
  jc_PublicKeyBytes :: string
  jc_SecretKeyBytes :: string
  jc_Audience :: string
  jc_Issuer :: string
  jc_ClockSkew :: int
  jc_RequireExp :: bool
  jc_RequireAud :: bool
  jc_RequireIss :: bool

text \<open>The registered claims the gateway reads, and its own.\<close>

record custom_claims =
  cm_Issuer :: string
  cm_Subject :: string
  cm_Audience :: "string list"
  cm_ExpiresAt :: "int option"
  cm_TenantID :: string
  cm_AppID :: string
  cm_Topics :: "string list"

datatype jwt_key = Ed25519Key string | RSAKey string | ECDSAKey string | HMACKey string

datatype parser_option =
    WithLeeway int
  | WithValidMethods "string list"
  | WithExpirationRequired
  | WithAudience string
  | WithIssuer string

record jwt_validator =
  jv_key :: "jwt_key option"
  jv_parserOpts :: "parser_option list"

datatype validator_error =
    ErrReadKeyFile string | ErrMissingKey | ErrParseKey | ErrUnsupportedAlgorithm string

record key_lib =
  pem_Decode :: "string \<Rightarrow> string option"
  ParsePKIXPublicKey :: "string \<Rightarrow> jwt_key option"
  ParseRSAPublicKeyFromPEM :: "string \<Rightarrow> string option"
  ParseECPublicKeyFromPEM :: "string \<Rightarrow> string option"

subsection \<open>Keys\<close>

definition ed25519_PublicKeySize :: nat where
  "ed25519_PublicKeySize = 32"

text \<open>The type assertion \<^verbatim>\<open>pub.(ed25519.PublicKey)\<close> on the result of a PKIX parse.\<close>

definition as_ed25519 :: "jwt_key option \<Rightarrow> jwt_key option" where
  "as_ed25519 k = (case k of Some (Ed25519Key b) \<Rightarrow> Some (Ed25519Key b) | _ \<Rightarrow> None)"

text \<open>The loop over the four encodings.\<close>

fun try_encodings :: "key_lib \<Rightarrow> string \<Rightarrow> (string \<Rightarrow> string option) list \<Rightarrow> jwt_key option" where
  "try_encodings lib trimmed [] = None"
| "try_encodings lib trimmed (dec # encs) =
     (case dec trimmed of
        None \<Rightarrow> try_encodings lib trimmed encs
      | Some decoded \<Rightarrow>
          if length decoded = ed25519_PublicKeySize then Some (Ed25519Key decoded)
          else case as_ed25519 (ParsePKIXPublicKey lib decoded) of
                 Some k \<Rightarrow> Some k
               | None \<Rightarrow> try_encodings lib trimmed encs)"

definition parseEd25519PublicKey :: "key_lib \<Rightarrow> string \<Rightarrow> jwt_key option" where
  "parseEd25519PublicKey lib keyBytes =
     (case pem_Decode lib keyBytes of
        Some block \<Rightarrow> as_ed25519 (ParsePKIXPublicKey lib block)
      | None \<Rightarrow>
          if length keyBytes = ed25519_PublicKeySize then Some (Ed25519Key keyBytes)
          else try_encodings lib (strings_TrimSpace keyBytes)
                 [base64_DecodeString, base64_RawDecodeString, base64_URLDecodeString, base64_RawURLDecodeString])"

text \<open>\<^verbatim>\<open>PublicKeyBytes\<close> if given, else the contents of the key file, else nothing.\<close>

definition load_key_bytes :: "(string \<rightharpoonup> string) \<Rightarrow> jwt_config \<Rightarrow> validator_error + string" where
  "load_key_bytes files cfg =
     (if jc_PublicKeyBytes cfg \<noteq> [] then Inr (jc_PublicKeyBytes cfg)
      else if jc_PublicKeyFile cfg \<noteq> [] then
        (case files (jc_PublicKeyFile cfg) of
           None \<Rightarrow> Inl (ErrReadKeyFile (jc_PublicKeyFile cfg))
         | Some bytes \<Rightarrow> Inr bytes)
      else Inr [])"

text \<open>The switch over the algorithm: the canonical name and the key.\<close>

definition public_key :: "string \<Rightarrow> string \<Rightarrow> jwt_key option \<Rightarrow> validator_error + string \<times> jwt_key" where
  "public_key alg keyBytes parsed =
     (if keyBytes = [] then Inl ErrMissingKey
      else case parsed of None \<Rightarrow> Inl ErrParseKey | Some k \<Rightarrow> Inr (alg, k))"

definition parse_key :: "key_lib \<Rightarrow> jwt_config \<Rightarrow> string \<Rightarrow> validator_error + string \<times> jwt_key" where
  "parse_key lib cfg keyBytes =
     (let alg = strings_ToUpper (jc_Algorithm cfg)
      in if alg = ''EDDSA'' then public_key ''EdDSA'' keyBytes (parseEd25519PublicKey lib keyBytes)
         else if alg \<in> {''RS256'', ''RS384'', ''RS512''}
         then public_key alg keyBytes (map_option RSAKey (ParseRSAPublicKeyFromPEM lib keyBytes))
         else if alg \<in> {''ES256'', ''ES384'', ''ES512''}
         then public_key alg keyBytes (map_option ECDSAKey (ParseECPublicKeyFromPEM lib keyBytes))
         else if alg \<in> {''HS256'', ''HS384'', ''HS512''}
         then (if jc_SecretKeyBytes cfg = [] \<and> keyBytes = [] then Inl ErrMissingKey
               else if jc_SecretKeyBytes cfg \<noteq> [] then Inr (alg, HMACKey (jc_SecretKeyBytes cfg))
               else Inr (alg, HMACKey keyBytes))
         else Inl (ErrUnsupportedAlgorithm (jc_Algorithm cfg)))"

definition default_skew :: int where
  "default_skew = 30 * 1000000000"

definition NewJWTValidator :: "key_lib \<Rightarrow> (string \<rightharpoonup> string) \<Rightarrow> jwt_config \<Rightarrow> validator_error + jwt_validator" where
  "NewJWTValidator lib files cfg0 =
     (let cfg = cfg0\<lparr>jc_Algorithm := (if jc_Algorithm cfg0 = [] then ''EdDSA'' else jc_Algorithm cfg0),
                     jc_ClockSkew := (if jc_ClockSkew cfg0 \<le> 0 then default_skew else jc_ClockSkew cfg0)\<rparr>
      in case load_key_bytes files cfg of
           Inl err \<Rightarrow> Inl err
         | Inr keyBytes \<Rightarrow>
             (case parse_key lib cfg keyBytes of
                Inl err \<Rightarrow> Inl err
              | Inr (canonicalAlg, parsedKey) \<Rightarrow>
                  Inr \<lparr>jv_key = Some parsedKey,
                       jv_parserOpts =
                         [WithLeeway (jc_ClockSkew cfg), WithValidMethods [canonicalAlg]] @
                         (if jc_RequireExp cfg then [WithExpirationRequired] else []) @
                         (if jc_RequireAud cfg \<and> jc_Audience cfg \<noteq> [] then [WithAudience (jc_Audience cfg)] else []) @
                         (if jc_RequireIss cfg \<and> jc_Issuer cfg \<noteq> [] then [WithIssuer (jc_Issuer cfg)] else [])\<rparr>))"

subsection \<open>Validation\<close>

datatype jwt_error = ErrTokenExpired | ErrTokenInvalidAudience | ErrTokenInvalidIssuer | ErrTokenOther

text \<open>\<open>tok_claims\<close> is \<open>None\<close> when the dynamic type of the claims is not \<^verbatim>\<open>*CustomClaims\<close>.\<close>

record jwt_token =
  tok_claims :: "custom_claims option"
  tok_valid :: bool

type_synonym jwt_parse = "int \<Rightarrow> string \<Rightarrow> jwt_key option \<Rightarrow> parser_option list \<Rightarrow> jwt_error list + jwt_token"

definition to_capability :: "custom_claims \<Rightarrow> capability" where
  "to_capability claims =
     \<lparr>cap_UserID = cm_Subject claims, cap_TenantID = cm_TenantID claims, cap_AppID = cm_AppID claims,
      cap_Topics = cm_Topics claims,
      cap_Audience = (case cm_Audience claims of [] \<Rightarrow> [] | a # _ \<Rightarrow> a),
      cap_Issuer = cm_Issuer claims, cap_ExpiresAt = cm_ExpiresAt claims\<rparr>"

definition Validate :: "jwt_parse \<Rightarrow> jwt_validator \<Rightarrow> int \<Rightarrow> string \<Rightarrow> auth_error + capability" where
  "Validate parse v now rawTicket =
     (if rawTicket = [] then Inl ErrMissingTicket
      else case parse now rawTicket (jv_key v) (jv_parserOpts v) of
        Inl errs \<Rightarrow>
          Inl (if ErrTokenExpired \<in> set errs then ErrExpiredTicket
               else if ErrTokenInvalidAudience \<in> set errs then ErrInvalidAudience
               else if ErrTokenInvalidIssuer \<in> set errs then ErrInvalidIssuer
               else ErrInvalidTicket)
      | Inr token \<Rightarrow>
          (case tok_claims token of
             None \<Rightarrow> Inl ErrInvalidTicket
           | Some claims \<Rightarrow>
               if \<not> tok_valid token then Inl ErrInvalidTicket
               else
                 (let capability = to_capability claims
                  in if cap_UserID capability = [] then Inl ErrMissingClaims
                     else if cap_TenantID capability = [] then Inl ErrMissingClaims
                     else if length (cap_Topics capability) = 0 then Inl ErrMissingClaims
                     else Inr capability)))"

definition JWT_Health :: "jwt_validator \<Rightarrow> bool" where
  "JWT_Health v \<longleftrightarrow> jv_key v \<noteq> None"

subsection \<open>The mock validator\<close>

record mock_validator =
  mv_ValidTickets :: "string \<rightharpoonup> capability"
  mv_DefaultCap :: "capability option"
  mv_FailNext :: bool
  mv_HealthErr :: "string option"

definition NewMockValidator :: "int \<Rightarrow> mock_validator" where
  "NewMockValidator now =
     \<lparr>mv_ValidTickets = Map.empty,
      mv_DefaultCap = Some \<lparr>cap_UserID = ''user-test-1'', cap_TenantID = ''tenant-default'',
        cap_AppID = ''app-default'', cap_Topics = [''topic-1'', ''topic-2''],
        cap_Audience = ''sse-gateway'', cap_Issuer = [],
        cap_ExpiresAt = Some (now + 3600 * 1000000000)\<rparr>,
      mv_FailNext = False, mv_HealthErr = None\<rparr>"

definition Mock_Validate :: "mock_validator \<Rightarrow> int \<Rightarrow> string \<Rightarrow> auth_error + capability" where
  "Mock_Validate m now rawTicket =
     (if mv_FailNext m then Inl ErrInvalidTicket
      else case mv_ValidTickets m rawTicket of
        Some capability \<Rightarrow>
          (case cap_ExpiresAt capability of
             Some e \<Rightarrow> if e < now then Inl ErrExpiredTicket else Inr capability
           | None \<Rightarrow> Inr capability)
      | None \<Rightarrow> (case mv_DefaultCap m of Some c \<Rightarrow> Inr c | None \<Rightarrow> Inl ErrInvalidTicket))"

definition Mock_Health :: "mock_validator \<Rightarrow> string option" where
  "Mock_Health m = mv_HealthErr m"

section \<open>What the JWT library promises\<close>

text \<open>The last \<^verbatim>\<open>WithLeeway\<close> counts.\<close>

fun leeway_of :: "parser_option list \<Rightarrow> int" where
  "leeway_of [] = 0"
| "leeway_of (WithLeeway d # opts) = (if \<exists>e. WithLeeway e \<in> set opts then leeway_of opts else d)"
| "leeway_of (_ # opts) = leeway_of opts"

text \<open>
  A token is returned without error only if its algorithm (the \<open>alg\<close> of its header) is one of the
  valid methods, its signature verifies under that algorithm and the key, and its claims
  satisfy the options.
\<close>

definition jwt_contract :: "jwt_parse \<Rightarrow> (string \<Rightarrow> string) \<Rightarrow> (jwt_key \<Rightarrow> string \<Rightarrow> string \<Rightarrow> bool) \<Rightarrow> bool" where
  "jwt_contract parse alg verifies \<longleftrightarrow>
     (\<forall>now t key opts tok. parse now t key opts = Inr tok \<longrightarrow>
        (\<forall>ms. WithValidMethods ms \<in> set opts \<longrightarrow> alg t \<in> set ms) \<and>
        (\<exists>k. key = Some k \<and> verifies k (alg t) t) \<and>
        (\<forall>c. tok_claims tok = Some c \<longrightarrow>
           (\<forall>e. cm_ExpiresAt c = Some e \<longrightarrow> now < e + leeway_of opts) \<and>
           (WithExpirationRequired \<in> set opts \<longrightarrow> cm_ExpiresAt c \<noteq> None) \<and>
           (\<forall>a. WithAudience a \<in> set opts \<longrightarrow> a \<in> set (cm_Audience c)) \<and>
           (\<forall>i. WithIssuer i \<in> set opts \<longrightarrow> cm_Issuer c = i)))"

text \<open>Which keys belong to which algorithms.\<close>

fun key_fits :: "string \<Rightarrow> jwt_key \<Rightarrow> bool" where
  "key_fits alg (Ed25519Key _) \<longleftrightarrow> alg = ''EdDSA''"
| "key_fits alg (RSAKey _) \<longleftrightarrow> alg \<in> {''RS256'', ''RS384'', ''RS512''}"
| "key_fits alg (ECDSAKey _) \<longleftrightarrow> alg \<in> {''ES256'', ''ES384'', ''ES512''}"
| "key_fits alg (HMACKey b) \<longleftrightarrow> alg \<in> {''HS256'', ''HS384'', ''HS512''} \<and> b \<noteq> []"

text \<open>The algorithm a configuration stands for.\<close>

definition canonical_alg :: "jwt_config \<Rightarrow> string" where
  "canonical_alg cfg =
     (let alg = strings_ToUpper (if jc_Algorithm cfg = [] then ''EdDSA'' else jc_Algorithm cfg)
      in if alg = ''EDDSA'' then ''EdDSA'' else alg)"

section \<open>The contract of a ticket validator\<close>

text \<open>
  The interface \<^verbatim>\<open>TicketValidator\<close> as its clients see it: a validated ticket carries a
  capability the validator vouches for.
\<close>

locale ticket_validator =
  fixes validate :: "int \<Rightarrow> string \<Rightarrow> auth_error + capability"
    and vouched :: "capability \<Rightarrow> bool"
  assumes validate_vouched: "validate now t = Inr c \<Longrightarrow> vouched c"

section \<open>Lemmas\<close>

lemma as_ed25519_fits: "as_ed25519 k = Some k' \<Longrightarrow> key_fits ''EdDSA'' k'"
  by (auto simp: as_ed25519_def split: option.splits jwt_key.splits)

lemma try_encodings_fits: "try_encodings lib s encs = Some k \<Longrightarrow> key_fits ''EdDSA'' k"
  by (induction encs) (auto split: option.splits if_splits intro: as_ed25519_fits)

lemma parseEd25519_fits: "parseEd25519PublicKey lib b = Some k \<Longrightarrow> key_fits ''EdDSA'' k"
  by (auto simp: parseEd25519PublicKey_def split: option.splits if_splits
      intro: as_ed25519_fits try_encodings_fits simp del: try_encodings.simps)

lemma public_key_Inr: "public_key alg b p = Inr (a, k) \<longleftrightarrow> b \<noteq> [] \<and> p = Some k \<and> a = alg"
  by (auto simp: public_key_def split: option.split)

text \<open>The key a validator holds belongs to the one algorithm it accepts.\<close>

lemma parse_key_fits:
  assumes "parse_key lib cfg b = Inr (a, k)"
  shows "key_fits a k" "a = (if strings_ToUpper (jc_Algorithm cfg) = ''EDDSA'' then ''EdDSA'' else strings_ToUpper (jc_Algorithm cfg))"
  using assms parseEd25519_fits [of lib b]
  by (auto simp: parse_key_def Let_def public_key_Inr split: if_splits)

definition effective_skew :: "jwt_config \<Rightarrow> int" where
  "effective_skew cfg = (if jc_ClockSkew cfg \<le> 0 then default_skew else jc_ClockSkew cfg)"

lemma NewJWTValidator_shape:
  assumes "NewJWTValidator lib files cfg = Inr v"
  shows "\<exists>k. key_fits (canonical_alg cfg) k \<and>
    v = \<lparr>jv_key = Some k,
         jv_parserOpts = [WithLeeway (effective_skew cfg), WithValidMethods [canonical_alg cfg]] @
           (if jc_RequireExp cfg then [WithExpirationRequired] else []) @
           (if jc_RequireAud cfg \<and> jc_Audience cfg \<noteq> [] then [WithAudience (jc_Audience cfg)] else []) @
           (if jc_RequireIss cfg \<and> jc_Issuer cfg \<noteq> [] then [WithIssuer (jc_Issuer cfg)] else [])\<rparr>"
proof -
  let ?cfg = "cfg\<lparr>jc_Algorithm := (if jc_Algorithm cfg = [] then ''EdDSA'' else jc_Algorithm cfg),
    jc_ClockSkew := (if jc_ClockSkew cfg \<le> 0 then default_skew else jc_ClockSkew cfg)\<rparr>"
  obtain b a k where b: "load_key_bytes files ?cfg = Inr b" and k: "parse_key lib ?cfg b = Inr (a, k)"
    using assms by (auto simp: NewJWTValidator_def Let_def split: sum.splits)
  have "a = canonical_alg cfg" using parse_key_fits(2) [OF k] by (simp add: canonical_alg_def Let_def)
  with assms b k parse_key_fits(1) [OF k] show ?thesis
    by (intro exI [of _ k]) (simp add: NewJWTValidator_def Let_def effective_skew_def split del: if_split cong: if_cong)
qed

lemma Validate_Inr:
  "Validate parse v now t = Inr cap \<longleftrightarrow>
     t \<noteq> [] \<and> (\<exists>tok claims. parse now t (jv_key v) (jv_parserOpts v) = Inr tok \<and> tok_claims tok = Some claims \<and>
       tok_valid tok \<and> cap = to_capability claims \<and>
       cm_Subject claims \<noteq> [] \<and> cm_TenantID claims \<noteq> [] \<and> cm_Topics claims \<noteq> [])"
  by (auto simp: Validate_def Let_def to_capability_def split: sum.split option.split)

interpretation jwt: ticket_validator "Validate parse v"
    "\<lambda>c. cap_UserID c \<noteq> [] \<and> cap_TenantID c \<noteq> [] \<and> cap_Topics c \<noteq> []"
  for parse v
  by unfold_locales (auto simp: Validate_Inr to_capability_def)

interpretation mock: ticket_validator "Mock_Validate m"
    "\<lambda>c. c \<in> ran (mv_ValidTickets m) \<or> mv_DefaultCap m = Some c"
  for m
  by unfold_locales (auto simp: Mock_Validate_def ran_def split: if_splits option.splits)

section \<open>Properties\<close>

lemma authentic_ticket:
  assumes "NewJWTValidator lib files cfg = Inr v" "jwt_contract parse alg verifies"
    and "Validate parse v now t = Inr cap"
  shows "\<exists>k claims. jv_key v = Some k \<and> alg t = canonical_alg cfg \<and> key_fits (alg t) k \<and> verifies k (alg t) t \<and>
    cap = to_capability claims \<and>
    (\<forall>e. cap_ExpiresAt cap = Some e \<longrightarrow> now < e + effective_skew cfg) \<and>
    (jc_RequireExp cfg \<longrightarrow> cap_ExpiresAt cap \<noteq> None) \<and>
    (jc_RequireAud cfg \<and> jc_Audience cfg \<noteq> [] \<longrightarrow> jc_Audience cfg \<in> set (cm_Audience claims)) \<and>
    (jc_RequireIss cfg \<and> jc_Issuer cfg \<noteq> [] \<longrightarrow> cap_Issuer cap = jc_Issuer cfg) \<and>
    cap_UserID cap \<noteq> [] \<and> cap_TenantID cap \<noteq> [] \<and> cap_Topics cap \<noteq> []"
proof -
  obtain k where k: "key_fits (canonical_alg cfg) k" "jv_key v = Some k"
    "WithValidMethods [canonical_alg cfg] \<in> set (jv_parserOpts v)" "leeway_of (jv_parserOpts v) = effective_skew cfg"
    "jc_RequireExp cfg \<longrightarrow> WithExpirationRequired \<in> set (jv_parserOpts v)"
    "jc_RequireAud cfg \<and> jc_Audience cfg \<noteq> [] \<longrightarrow> WithAudience (jc_Audience cfg) \<in> set (jv_parserOpts v)"
    "jc_RequireIss cfg \<and> jc_Issuer cfg \<noteq> [] \<longrightarrow> WithIssuer (jc_Issuer cfg) \<in> set (jv_parserOpts v)"
    using NewJWTValidator_shape [OF assms(1)] by auto
  obtain tok claims where tok: "parse now t (jv_key v) (jv_parserOpts v) = Inr tok" "tok_claims tok = Some claims"
    "cap = to_capability claims" "cm_Subject claims \<noteq> []" "cm_TenantID claims \<noteq> []" "cm_Topics claims \<noteq> []"
    using assms(3) by (auto simp: Validate_Inr)
  note c = assms(2) [unfolded jwt_contract_def, rule_format, OF tok(1)]
  have "alg t = canonical_alg cfg" using c k(3) by fastforce
  moreover have "verifies k (alg t) t" using c k(2) by simp
  moreover note c [THEN conjunct2, THEN conjunct2, rule_format, OF tok(2)]
  ultimately show ?thesis
    using k tok by (intro exI [of _ k] exI [of _ claims]) (auto simp: to_capability_def)
qed


text \<open>A validator with a raw Ed25519 key, and a library that accepts one ticket.\<close>

definition demo_key :: string where
  "demo_key = replicate 32 (CHR ''k'')"

definition demo_lib :: key_lib where
  "demo_lib = \<lparr>pem_Decode = (\<lambda>_. None), ParsePKIXPublicKey = (\<lambda>_. None),
     ParseRSAPublicKeyFromPEM = (\<lambda>_. None), ParseECPublicKeyFromPEM = (\<lambda>_. None)\<rparr>"

definition demo_jwt :: jwt_config where
  "demo_jwt = \<lparr>jc_Algorithm = ''eddsa'', jc_PublicKeyFile = ''/key'', jc_PublicKeyBytes = [], jc_SecretKeyBytes = [],
     jc_Audience = ''sse'', jc_Issuer = [], jc_ClockSkew = 0, jc_RequireExp = True, jc_RequireAud = True,
     jc_RequireIss = False\<rparr>"

definition demo_files :: "string \<rightharpoonup> string" where
  "demo_files = [''/key'' \<mapsto> demo_key]"

definition demo_claims :: custom_claims where
  "demo_claims = \<lparr>cm_Issuer = [], cm_Subject = ''u'', cm_Audience = [''sse''], cm_ExpiresAt = Some 1000,
     cm_TenantID = ''t'', cm_AppID = ''a'', cm_Topics = [''x'', ''y'']\<rparr>"

definition demo_opts :: "parser_option list" where
  "demo_opts = [WithLeeway default_skew, WithValidMethods [''EdDSA''], WithExpirationRequired, WithAudience ''sse'']"

definition demo_parse :: jwt_parse where
  "demo_parse now t key opts =
     (if t = ''ticket'' \<and> key = Some (Ed25519Key demo_key) \<and> opts = demo_opts \<and> now < 1000 + default_skew
      then Inr \<lparr>tok_claims = Some demo_claims, tok_valid = True\<rparr> else Inl [ErrTokenExpired])"

definition demo_jv :: jwt_validator where
  "demo_jv = \<lparr>jv_key = Some (Ed25519Key demo_key), jv_parserOpts = demo_opts\<rparr>"

lemma demo_validator: "NewJWTValidator demo_lib demo_files demo_jwt = Inr demo_jv"
proof -
  have "strings_ToUpper ''eddsa'' = ''EDDSA''" by (simp add: ToUpper_ascii is_ascii_def upper_char_def char_eq_iff_of_char)
  then show ?thesis
    by (simp add: NewJWTValidator_def demo_jwt_def Let_def load_key_bytes_def demo_files_def parse_key_def
        public_key_def parseEd25519PublicKey_def demo_lib_def demo_key_def ed25519_PublicKeySize_def demo_jv_def demo_opts_def)
qed

lemma demo_contract: "jwt_contract demo_parse (\<lambda>_. ''EdDSA'') (\<lambda>k a t. k = Ed25519Key demo_key \<and> t = ''ticket'')"
  by (auto simp: jwt_contract_def demo_parse_def demo_opts_def demo_claims_def split: if_splits)

lemma demo_validate: "Validate demo_parse demo_jv 5 ''ticket'' = Inr (to_capability demo_claims)"
  by (simp add: Validate_Inr demo_parse_def demo_jv_def default_skew_def demo_claims_def)


end
