(* ===== verification/Config.thy ===== *)
theory Config
  imports Go_Parse Go_Case Logging Rate_Limit Valkey_Bus Unwrap_Client Auth
begin

text \<open>
  The configuration, \<^verbatim>\<open>internal/config/config.go\<close>: one record per settings group, the loader and the
  fail-fast validation. The process environment and the files it names are maps; the random instance
  identifier, \<^verbatim>\<open>strconv.ParseFloat\<close> and the scaling of a fractional duration are inputs of the loader. Each
  statement of \<^verbatim>\<open>LoadConfig\<close> is a step on the configuration built so far and the first error recorded, and
  the loader runs the steps in the order of the source. Durations are nanoseconds.
\<close>

section \<open>Definitions\<close>

subsection \<open>Settings\<close>

definition DefaultListenPort :: int where
  "DefaultListenPort = 8080"

definition DefaultHealthPath :: string where
  "DefaultHealthPath = ''/healthz''"

definition time_Second :: int where
  "time_Second = 1000000000"

definition time_Millisecond :: int where
  "time_Millisecond = 1000000"

record http_config =
  hc_ListenHost :: string
  hc_ListenPort :: int
  hc_EventsPath :: string
  hc_HealthPath :: string
  hc_ReadyPath :: string
  hc_MetricsPath :: string
  hc_ReadHeaderTimeout :: int
  hc_IdleTimeout :: int
  hc_MaxHeaderBytes :: int
  hc_WriteTimeout :: int
  hc_TrustProxyHeaders :: bool
  hc_TrustedProxyCIDRs :: "string list"

record hub_config =
  hb_Shards :: int
  hb_EventLanes :: int
  hb_EventLaneQueueSize :: int
  hb_ClientQueueSize :: int
  hb_ClientWriteTimeout :: int
  hb_ClientSlowPolicy :: slow_policy

record rate_limit_config =
  rc_Enabled :: bool
  rc_RPS :: float64
  rc_Burst :: int
  rc_MaxPendingHandshakes :: int
  rc_HandshakeTimeout :: int

record heartbeat_config =
  bt_Enabled :: bool
  bt_Interval :: int
  bt_Payload :: string

record event_bus_config =
  ec_Driver :: string
  ec_Valkey :: valkey_config

record routing_config =
  rt_TopicTemplate :: string

record crypto_config = crypto_cfg +
  xc_Driver :: string
  xc_HTTP :: client_config
  xc_PayloadCipher :: string

record auth_config =
  au_Driver :: string
  au_JWT :: jwt_config
  au_QueryParameter :: string
  au_InvalidationEventType :: string

record metrics_config =
  mc_Enabled :: bool

record health_config =
  hl_HealthEnabled :: bool
  hl_ReadyEnabled :: bool
  hl_RequireEventBus :: bool
  hl_RequireCrypto :: bool

record shutdown_config =
  sd_GracePeriod :: int
  sd_StopAcceptingFirst :: bool

record config =
  cf_Environment :: string
  cf_InstanceID :: string
  cf_ServiceName :: string
  cf_Log :: log_config
  cf_HTTP :: http_config
  cf_Hub :: hub_config
  cf_Limits :: limits_config
  cf_RateLimit :: rate_limit_config
  cf_Heartbeat :: heartbeat_config
  cf_EventBus :: event_bus_config
  cf_Routing :: routing_config
  cf_Crypto :: crypto_config
  cf_Auth :: auth_config
  cf_Metrics :: metrics_config
  cf_Health :: health_config
  cf_Shutdown :: shutdown_config

text \<open>\<^verbatim>\<open>net.JoinHostPort\<close>: a host with a colon is bracketed.\<close>

definition JoinHostPort :: "string \<Rightarrow> string \<Rightarrow> string" where
  "JoinHostPort host port =
     (if CHR '':'' \<in> set host then ''['' @ host @ '']:'' @ port else host @ '':'' @ port)"

definition Address :: "http_config \<Rightarrow> string" where
  "Address h = JoinHostPort (hc_ListenHost h) (strconv_FormatInt (hc_ListenPort h))"

text \<open>The zero value a Go program starts from.\<close>

definition zero_log :: log_config where
  "zero_log =
    \<lparr>lc_Level = [], lc_Format = [], lc_IncludeSource = False, lc_RedactQueryString = False\<rparr>"

definition zero_http :: http_config where
  "zero_http =
    \<lparr>hc_ListenHost = [], hc_ListenPort = 0, hc_EventsPath = [], hc_HealthPath = [], hc_ReadyPath = [],
     hc_MetricsPath = [], hc_ReadHeaderTimeout = 0, hc_IdleTimeout = 0, hc_MaxHeaderBytes = 0, hc_WriteTimeout = 0,
     hc_TrustProxyHeaders = False, hc_TrustedProxyCIDRs = []\<rparr>"

definition zero_hub :: hub_config where
  "zero_hub =
    \<lparr>hb_Shards = 0, hb_EventLanes = 0, hb_EventLaneQueueSize = 0, hb_ClientQueueSize = 0,
     hb_ClientWriteTimeout = 0, hb_ClientSlowPolicy = []\<rparr>"

definition zero_limits :: limits_config where
  "zero_limits =
    \<lparr>MaxConnections = 0, MaxConnectionsPerUser = 0, MaxConnectionsPerTenant = 0, MaxTopicsPerConnection =
     0\<rparr>"

definition zero_rate_limit :: rate_limit_config where
  "zero_rate_limit =
    \<lparr>rc_Enabled = False, rc_RPS = Finite 0, rc_Burst = 0, rc_MaxPendingHandshakes = 0, rc_HandshakeTimeout
     = 0\<rparr>"

definition zero_heartbeat :: heartbeat_config where
  "zero_heartbeat =
    \<lparr>bt_Enabled = False, bt_Interval = 0, bt_Payload = []\<rparr>"

definition zero_routing :: routing_config where
  "zero_routing =
    \<lparr>rt_TopicTemplate = []\<rparr>"

definition zero_metrics :: metrics_config where
  "zero_metrics =
    \<lparr>mc_Enabled = False\<rparr>"

definition zero_health :: health_config where
  "zero_health =
    \<lparr>hl_HealthEnabled = False, hl_ReadyEnabled = False, hl_RequireEventBus = False, hl_RequireCrypto =
     False\<rparr>"

definition zero_shutdown :: shutdown_config where
  "zero_shutdown =
    \<lparr>sd_GracePeriod = 0, sd_StopAcceptingFirst = False\<rparr>"

definition zero_valkey :: valkey_config where
  "zero_valkey =
    \<lparr>vc_Address = [], vc_Username = [], vc_Password = [], vc_Database = 0, vc_TLSEnabled = False,
     vc_TLSServerName = [], vc_TLSCAFile = [], vc_TLSCertFile = [], vc_TLSKeyFile = [], vc_TLSInsecureSkip = False,
     vc_ConnectTimeout = 0, vc_ReadTimeout = 0, vc_WriteTimeout = 0, vc_ChannelPattern = [], vc_ReconnectEnabled =
     False, vc_ReconnectMinDelay = 0, vc_ReconnectMaxDelay = 0, vc_ReconnectJitter = False, vc_BufferSize =
     0\<rparr>"

definition zero_client :: client_config where
  "zero_client =
    \<lparr>cc_BaseURL = [], cc_UnwrapPath = [], cc_HealthPath = [], cc_ConnectTimeout = 0, cc_RequestTimeout = 0,
     cc_MaxIdleConns = 0, cc_MaxIdleConnsPerHost = 0, cc_IdleConnTimeout = 0, cc_AuthMode = [], cc_BearerToken =
     [], cc_BasicUsername = [], cc_BasicPassword = [], cc_TLSEnabled = False, cc_TLSServerName = [], cc_TLSCAFile =
     [], cc_TLSCertFile = [], cc_TLSKeyFile = [], cc_TLSInsecureSkipVerify = False, cc_BinaryMode = False\<rparr>"

definition zero_jwt :: jwt_config where
  "zero_jwt =
    \<lparr>jc_Algorithm = [], jc_PublicKeyFile = [], jc_PublicKeyBytes = [], jc_SecretKeyBytes = [], jc_Audience
     = [], jc_Issuer = [], jc_ClockSkew = 0, jc_RequireExp = False, jc_RequireAud = False, jc_RequireIss =
     False\<rparr>"

definition zero_config :: config where
  "zero_config =
    \<lparr>cf_Environment = [], cf_InstanceID = [], cf_ServiceName = [], cf_Log = zero_log, cf_HTTP = zero_http,
     cf_Hub = zero_hub, cf_Limits = zero_limits, cf_RateLimit = zero_rate_limit, cf_Heartbeat = zero_heartbeat,
     cf_EventBus = \<lparr>ec_Driver = [], ec_Valkey = zero_valkey\<rparr>, cf_Routing = zero_routing,
     cf_Crypto = \<lparr>AADEnabled = False, AADTemplate = [], MaxPayloadBytes = 0, xc_Driver = [], xc_HTTP = zero_client,
       xc_PayloadCipher = []\<rparr>,
     cf_Auth = \<lparr>au_Driver = [], au_JWT = zero_jwt, au_QueryParameter = [], au_InvalidationEventType = []\<rparr>,
     cf_Metrics = zero_metrics, cf_Health = zero_health, cf_Shutdown = zero_shutdown\<rparr>"

text \<open>Assignments to a field of a group.\<close>

definition set_log :: "(('a \<Rightarrow> 'a) \<Rightarrow> log_config \<Rightarrow> log_config) \<Rightarrow> 'a \<Rightarrow> config \<Rightarrow> config" where
  "set_log f v = cf_Log_update (f (\<lambda>_. v))"

definition set_http :: "(('a \<Rightarrow> 'a) \<Rightarrow> http_config \<Rightarrow> http_config) \<Rightarrow> 'a \<Rightarrow> config \<Rightarrow> config" where
  "set_http f v = cf_HTTP_update (f (\<lambda>_. v))"

definition set_hub :: "(('a \<Rightarrow> 'a) \<Rightarrow> hub_config \<Rightarrow> hub_config) \<Rightarrow> 'a \<Rightarrow> config \<Rightarrow> config" where
  "set_hub f v = cf_Hub_update (f (\<lambda>_. v))"

definition set_limits :: "(('a \<Rightarrow> 'a) \<Rightarrow> limits_config \<Rightarrow> limits_config) \<Rightarrow> 'a \<Rightarrow> config \<Rightarrow> config" where
  "set_limits f v = cf_Limits_update (f (\<lambda>_. v))"

definition set_rate :: "(('a \<Rightarrow> 'a) \<Rightarrow> rate_limit_config \<Rightarrow> rate_limit_config) \<Rightarrow> 'a \<Rightarrow> config \<Rightarrow> config" where
  "set_rate f v = cf_RateLimit_update (f (\<lambda>_. v))"

definition set_heartbeat :: "(('a \<Rightarrow> 'a) \<Rightarrow> heartbeat_config \<Rightarrow> heartbeat_config) \<Rightarrow> 'a \<Rightarrow> config \<Rightarrow> config" where
  "set_heartbeat f v = cf_Heartbeat_update (f (\<lambda>_. v))"

definition set_bus :: "(('a \<Rightarrow> 'a) \<Rightarrow> event_bus_config \<Rightarrow> event_bus_config) \<Rightarrow> 'a \<Rightarrow> config \<Rightarrow> config" where
  "set_bus f v = cf_EventBus_update (f (\<lambda>_. v))"

definition set_routing :: "(('a \<Rightarrow> 'a) \<Rightarrow> routing_config \<Rightarrow> routing_config) \<Rightarrow> 'a \<Rightarrow> config \<Rightarrow> config" where
  "set_routing f v = cf_Routing_update (f (\<lambda>_. v))"

definition set_crypto :: "(('a \<Rightarrow> 'a) \<Rightarrow> crypto_config \<Rightarrow> crypto_config) \<Rightarrow> 'a \<Rightarrow> config \<Rightarrow> config" where
  "set_crypto f v = cf_Crypto_update (f (\<lambda>_. v))"

definition set_auth :: "(('a \<Rightarrow> 'a) \<Rightarrow> auth_config \<Rightarrow> auth_config) \<Rightarrow> 'a \<Rightarrow> config \<Rightarrow> config" where
  "set_auth f v = cf_Auth_update (f (\<lambda>_. v))"

definition set_metrics :: "(('a \<Rightarrow> 'a) \<Rightarrow> metrics_config \<Rightarrow> metrics_config) \<Rightarrow> 'a \<Rightarrow> config \<Rightarrow> config" where
  "set_metrics f v = cf_Metrics_update (f (\<lambda>_. v))"

definition set_health :: "(('a \<Rightarrow> 'a) \<Rightarrow> health_config \<Rightarrow> health_config) \<Rightarrow> 'a \<Rightarrow> config \<Rightarrow> config" where
  "set_health f v = cf_Health_update (f (\<lambda>_. v))"

definition set_shutdown :: "(('a \<Rightarrow> 'a) \<Rightarrow> shutdown_config \<Rightarrow> shutdown_config) \<Rightarrow> 'a \<Rightarrow> config \<Rightarrow> config" where
  "set_shutdown f v = cf_Shutdown_update (f (\<lambda>_. v))"

definition set_valkey :: "(('a \<Rightarrow> 'a) \<Rightarrow> valkey_config \<Rightarrow> valkey_config) \<Rightarrow> 'a \<Rightarrow> config \<Rightarrow> config" where
  "set_valkey f v = cf_EventBus_update (ec_Valkey_update (f (\<lambda>_. v)))"

definition set_unwrap :: "(('a \<Rightarrow> 'a) \<Rightarrow> client_config \<Rightarrow> client_config) \<Rightarrow> 'a \<Rightarrow> config \<Rightarrow> config" where
  "set_unwrap f v = cf_Crypto_update (xc_HTTP_update (f (\<lambda>_. v)))"

definition set_jwt :: "(('a \<Rightarrow> 'a) \<Rightarrow> jwt_config \<Rightarrow> jwt_config) \<Rightarrow> 'a \<Rightarrow> config \<Rightarrow> config" where
  "set_jwt f v = cf_Auth_update (au_JWT_update (f (\<lambda>_. v)))"

lemmas setter_defs =
  set_log_def set_http_def set_hub_def set_limits_def set_rate_def set_heartbeat_def set_bus_def set_routing_def set_crypto_def set_auth_def set_metrics_def set_health_def set_shutdown_def set_valkey_def set_unwrap_def set_jwt_def

subsection \<open>Reading the environment\<close>

record load_env =
  le_env :: "string \<rightharpoonup> string"
  le_files :: "string \<rightharpoonup> string"
  le_random :: string
  le_scaled :: "string \<Rightarrow> nat \<Rightarrow> nat"
  le_ParseFloat :: "string \<Rightarrow> float64 option"

text \<open>A variable with its unparsable text; a secret with the path of its unreadable file.\<close>

datatype config_error = ErrInvalidVariable string string | ErrSecretFile string string

definition envValue :: "load_env \<Rightarrow> string \<Rightarrow> 'a \<Rightarrow> (string \<Rightarrow> 'a option) \<Rightarrow> config_error + 'a" where
  "envValue e name fallback parse =
     (case le_env e name of
        None \<Rightarrow> Inr fallback
      | Some valStr \<Rightarrow>
          if strings_TrimSpace valStr = [] then Inr fallback
          else case parse (strings_TrimSpace valStr) of
            None \<Rightarrow> Inl (ErrInvalidVariable name valStr)
          | Some parsed \<Rightarrow> Inr parsed)"

definition getEnv :: "load_env \<Rightarrow> string \<Rightarrow> string \<Rightarrow> string" where
  "getEnv e name fallback =
     (case le_env e name of
        None \<Rightarrow> fallback
      | Some val \<Rightarrow> if strings_TrimSpace val = [] then fallback else strings_TrimSpace val)"

definition crlf :: string where
  "crlf = [CHR 0x0D, CHR 0x0A]"

definition os_Getenv :: "load_env \<Rightarrow> string \<Rightarrow> string" where
  "os_Getenv e name = (case le_env e name of None \<Rightarrow> [] | Some v \<Rightarrow> v)"

definition resolveSecret :: "load_env \<Rightarrow> string \<Rightarrow> config_error + string" where
  "resolveSecret e varName =
     (case le_env e (varName @ ''_FILE'') of
        None \<Rightarrow> Inr (os_Getenv e varName)
      | Some filePath \<Rightarrow>
          if strings_TrimSpace filePath = [] then Inr (os_Getenv e varName)
          else case le_files e (strings_TrimSpace filePath) of
            None \<Rightarrow> Inl (ErrSecretFile (varName @ ''_FILE'') filePath)
          | Some contents \<Rightarrow> Inr (strings_TrimRight contents crlf))"

text \<open>The closure \<^verbatim>\<open>record\<close> keeps the first error.\<close>

type_synonym loader = "config \<times> config_error option"
type_synonym load_step = "loader \<Rightarrow> loader"

definition record_error :: "config_error option \<Rightarrow> config_error \<Rightarrow> config_error option" where
  "record_error firstErr err = (if firstErr = None then Some err else firstErr)"

definition bindEnv :: "load_env \<Rightarrow> ('a \<Rightarrow> config \<Rightarrow> config) \<Rightarrow> string \<Rightarrow> 'a \<Rightarrow> (string \<Rightarrow> 'a option) \<Rightarrow> load_step" where
  "bindEnv e target name fallback parse s =
     (case envValue e name fallback parse of
        Inl err \<Rightarrow> (fst s, record_error (snd s) err)
      | Inr val \<Rightarrow> (target val (fst s), snd s))"

text \<open>An assignment, and the two uses of a secret: the key material is left alone when the secret is empty.\<close>

definition assign :: "('a \<Rightarrow> config \<Rightarrow> config) \<Rightarrow> 'a \<Rightarrow> load_step" where
  "assign target v s = (target v (fst s), snd s)"

definition bindSecret :: "load_env \<Rightarrow> (string \<Rightarrow> config \<Rightarrow> config) \<Rightarrow> string \<Rightarrow> load_step" where
  "bindSecret e target name s =
     (case resolveSecret e name of
        Inl err \<Rightarrow> (fst s, record_error (snd s) err)
      | Inr val \<Rightarrow> (target val (fst s), snd s))"

definition bindSecretIfSet :: "load_env \<Rightarrow> (string \<Rightarrow> config \<Rightarrow> config) \<Rightarrow> string \<Rightarrow> load_step" where
  "bindSecretIfSet e target name s =
     (case resolveSecret e name of
        Inl err \<Rightarrow> (fst s, record_error (snd s) err)
      | Inr val \<Rightarrow> if val = [] then s else (target val (fst s), snd s))"

definition trusted_cidrs :: "string \<Rightarrow> string list" where
  "trusted_cidrs s =
     (if s = [] then [] else filter (\<lambda>w. w \<noteq> []) (map strings_TrimSpace (strings_Split s CHR '','')))"

subsection \<open>The statements of the loader\<close>

definition general_steps :: "load_env \<Rightarrow> load_step list" where
  "general_steps e =
    [assign (\<lambda>v. cf_Environment_update (\<lambda>_. v)) (getEnv e ''SSE_ENVIRONMENT'' ''production''),
     assign (\<lambda>v. cf_InstanceID_update (\<lambda>_. v)) (getEnv e ''SSE_INSTANCE_ID'' []),
     assign (\<lambda>v. cf_InstanceID_update (\<lambda>s. if s = [] then v else s)) (le_random e),
     assign (\<lambda>v. cf_ServiceName_update (\<lambda>_. v)) (getEnv e ''SSE_SERVICE_NAME'' ''sse-gateway'')]"

definition log_steps :: "load_env \<Rightarrow> load_step list" where
  "log_steps e =
    [assign (set_log lc_Level_update) (getEnv e ''SSE_LOG_LEVEL'' ''info''),
     assign (set_log lc_Format_update) (getEnv e ''SSE_LOG_FORMAT'' ''json''),
     bindEnv e (set_log lc_IncludeSource_update) ''SSE_LOG_INCLUDE_SOURCE'' False ParseBool,
     bindEnv e (set_log lc_RedactQueryString_update) ''SSE_LOG_REDACT_QUERY_STRING'' True ParseBool]"

definition http_steps :: "load_env \<Rightarrow> load_step list" where
  "http_steps e =
    [assign (set_http hc_ListenHost_update) (getEnv e ''SSE_HTTP_LISTEN_HOST'' ''0.0.0.0''),
     bindEnv e (set_http hc_ListenPort_update) ''SSE_HTTP_LISTEN_PORT'' DefaultListenPort Atoi,
     assign (set_http hc_EventsPath_update) (getEnv e ''SSE_HTTP_EVENTS_PATH'' ''/v1/events''),
     assign (set_http hc_HealthPath_update) (getEnv e ''SSE_HTTP_HEALTH_PATH'' DefaultHealthPath),
     assign (set_http hc_ReadyPath_update) (getEnv e ''SSE_HTTP_READY_PATH'' ''/readyz''),
     assign (set_http hc_MetricsPath_update) (getEnv e ''SSE_HTTP_METRICS_PATH'' (getEnv e ''SSE_METRICS_PATH'' ''/metrics'')),
     bindEnv e (set_http hc_ReadHeaderTimeout_update) ''SSE_HTTP_READ_HEADER_TIMEOUT'' (5 * time_Second) (ParseDuration (le_scaled e)),
     bindEnv e (set_http hc_IdleTimeout_update) ''SSE_HTTP_IDLE_TIMEOUT'' (0 * time_Second) (ParseDuration (le_scaled e)),
     bindEnv e (set_http hc_MaxHeaderBytes_update) ''SSE_HTTP_MAX_HEADER_BYTES'' 32768 Atoi,
     bindEnv e (set_http hc_WriteTimeout_update) ''SSE_HTTP_WRITE_TIMEOUT'' (0 * time_Second) (ParseDuration (le_scaled e)),
     bindEnv e (set_http hc_TrustProxyHeaders_update) ''SSE_HTTP_TRUST_PROXY_HEADERS'' False ParseBool,
     assign (set_http hc_TrustedProxyCIDRs_update) (trusted_cidrs (getEnv e ''SSE_HTTP_TRUSTED_PROXY_CIDRS'' []))]"

definition hub_steps :: "load_env \<Rightarrow> load_step list" where
  "hub_steps e =
    [bindEnv e (set_hub hb_Shards_update) ''SSE_HUB_SHARDS'' 256 Atoi,
     bindEnv e (set_hub hb_EventLanes_update) ''SSE_EVENT_LANES'' 64 Atoi,
     bindEnv e (set_hub hb_EventLaneQueueSize_update) ''SSE_EVENT_LANE_QUEUE_SIZE'' 1024 Atoi,
     bindEnv e (set_hub hb_ClientQueueSize_update) ''SSE_CLIENT_QUEUE_SIZE'' 32 Atoi,
     bindEnv e (set_hub hb_ClientWriteTimeout_update) ''SSE_CLIENT_WRITE_TIMEOUT'' (5 * time_Second) (ParseDuration (le_scaled e)),
     assign (set_hub hb_ClientSlowPolicy_update) (getEnv e ''SSE_CLIENT_SLOW_POLICY'' ''disconnect'')]"

definition limits_steps :: "load_env \<Rightarrow> load_step list" where
  "limits_steps e =
    [bindEnv e (set_limits MaxConnections_update) ''SSE_LIMIT_MAX_CONNECTIONS'' 50000 Atoi,
     bindEnv e (set_limits MaxConnectionsPerUser_update) ''SSE_LIMIT_MAX_CONNECTIONS_PER_USER'' 10 Atoi,
     bindEnv e (set_limits MaxConnectionsPerTenant_update) ''SSE_LIMIT_MAX_CONNECTIONS_PER_TENANT'' 0 Atoi,
     bindEnv e (set_limits MaxTopicsPerConnection_update) ''SSE_LIMIT_MAX_TOPICS_PER_CONNECTION'' 64 Atoi,
     bindEnv e (set_rate rc_Enabled_update) ''SSE_CONNECTION_RATE_LIMIT_ENABLED'' True ParseBool,
     bindEnv e (set_rate rc_RPS_update) ''SSE_CONNECTION_RATE_LIMIT_RPS'' (Finite 100) (le_ParseFloat e),
     bindEnv e (set_rate rc_Burst_update) ''SSE_CONNECTION_RATE_LIMIT_BURST'' 200 Atoi,
     bindEnv e (set_rate rc_MaxPendingHandshakes_update) ''SSE_LIMIT_MAX_PENDING_HANDSHAKES'' 1000 Atoi,
     bindEnv e (set_rate rc_HandshakeTimeout_update) ''SSE_LIMIT_HANDSHAKE_TIMEOUT'' (5 * time_Second) (ParseDuration (le_scaled e))]"

definition heartbeat_steps :: "load_env \<Rightarrow> load_step list" where
  "heartbeat_steps e =
    [bindEnv e (set_heartbeat bt_Enabled_update) ''SSE_HEARTBEAT_ENABLED'' True ParseBool,
     bindEnv e (set_heartbeat bt_Interval_update) ''SSE_HEARTBEAT_INTERVAL'' (20 * time_Second) (ParseDuration (le_scaled e)),
     assign (set_heartbeat bt_Payload_update) (getEnv e ''SSE_HEARTBEAT_PAYLOAD'' '': ping'')]"

definition bus_steps :: "load_env \<Rightarrow> load_step list" where
  "bus_steps e =
    [assign (set_bus ec_Driver_update) (strings_ToLower (getEnv e ''SSE_EVENT_BUS_DRIVER'' ''valkey_pubsub'')),
     assign (set_valkey vc_Address_update) (getEnv e ''SSE_EVENT_BUS_VALKEY_ADDRESS'' ''valkey:6379''),
     assign (set_valkey vc_Username_update) (getEnv e ''SSE_EVENT_BUS_VALKEY_USERNAME'' []),
     bindSecret e (set_valkey vc_Password_update) ''SSE_EVENT_BUS_VALKEY_PASSWORD'',
     bindEnv e (set_valkey vc_Database_update) ''SSE_EVENT_BUS_VALKEY_DATABASE'' 0 Atoi,
     bindEnv e (set_valkey vc_TLSEnabled_update) ''SSE_EVENT_BUS_VALKEY_TLS_ENABLED'' False ParseBool,
     assign (set_valkey vc_TLSServerName_update) (getEnv e ''SSE_EVENT_BUS_VALKEY_TLS_SERVER_NAME'' []),
     assign (set_valkey vc_TLSCAFile_update) (getEnv e ''SSE_EVENT_BUS_VALKEY_TLS_CA_FILE'' []),
     assign (set_valkey vc_TLSCertFile_update) (getEnv e ''SSE_EVENT_BUS_VALKEY_TLS_CERT_FILE'' []),
     assign (set_valkey vc_TLSKeyFile_update) (getEnv e ''SSE_EVENT_BUS_VALKEY_TLS_KEY_FILE'' []),
     bindEnv e (set_valkey vc_TLSInsecureSkip_update) ''SSE_EVENT_BUS_VALKEY_TLS_INSECURE_SKIP_VERIFY'' False ParseBool,
     bindEnv e (set_valkey vc_ConnectTimeout_update) ''SSE_EVENT_BUS_VALKEY_CONNECT_TIMEOUT'' (3 * time_Second) (ParseDuration (le_scaled e)),
     bindEnv e (set_valkey vc_ReadTimeout_update) ''SSE_EVENT_BUS_VALKEY_READ_TIMEOUT'' (0 * time_Second) (ParseDuration (le_scaled e)),
     bindEnv e (set_valkey vc_WriteTimeout_update) ''SSE_EVENT_BUS_VALKEY_WRITE_TIMEOUT'' (3 * time_Second) (ParseDuration (le_scaled e)),
     assign (set_valkey vc_ChannelPattern_update) (getEnv e ''SSE_EVENT_BUS_VALKEY_CHANNEL_PATTERN'' ''realtime.*''),
     bindEnv e (set_valkey vc_ReconnectEnabled_update) ''SSE_EVENT_BUS_RECONNECT_ENABLED'' True ParseBool,
     bindEnv e (set_valkey vc_ReconnectMinDelay_update) ''SSE_EVENT_BUS_RECONNECT_MIN_DELAY'' (250 * time_Millisecond) (ParseDuration (le_scaled e)),
     bindEnv e (set_valkey vc_ReconnectMaxDelay_update) ''SSE_EVENT_BUS_RECONNECT_MAX_DELAY'' (30 * time_Second) (ParseDuration (le_scaled e)),
     bindEnv e (set_valkey vc_ReconnectJitter_update) ''SSE_EVENT_BUS_RECONNECT_JITTER'' True ParseBool]"

definition routing_steps :: "load_env \<Rightarrow> load_step list" where
  "routing_steps e =
    [assign (set_routing rt_TopicTemplate_update) (getEnv e ''SSE_ROUTING_TOPIC_TEMPLATE'' ''tenant:{tenant}:app:{app}:topic:{topic}'')]"

definition crypto_steps :: "load_env \<Rightarrow> load_step list" where
  "crypto_steps e =
    [assign (set_crypto xc_Driver_update) (strings_ToLower (getEnv e ''SSE_CRYPTO_DRIVER'' ''http'')),
     assign (set_unwrap cc_BaseURL_update) (getEnv e ''SSE_CRYPTO_HTTP_BASE_URL'' ''http://pq-crypto-microservice:8080''),
     assign (set_unwrap cc_UnwrapPath_update) (getEnv e ''SSE_CRYPTO_HTTP_UNWRAP_PATH'' ''/unwrap-key''),
     assign (set_unwrap cc_HealthPath_update) (getEnv e ''SSE_CRYPTO_HTTP_HEALTH_PATH'' ''/health''),
     bindEnv e (set_unwrap cc_ConnectTimeout_update) ''SSE_CRYPTO_HTTP_CONNECT_TIMEOUT'' (1 * time_Second) (ParseDuration (le_scaled e)),
     bindEnv e (set_unwrap cc_RequestTimeout_update) ''SSE_CRYPTO_HTTP_REQUEST_TIMEOUT'' (3 * time_Second) (ParseDuration (le_scaled e)),
     bindEnv e (set_unwrap cc_MaxIdleConns_update) ''SSE_CRYPTO_HTTP_MAX_IDLE_CONNS'' 256 Atoi,
     bindEnv e (set_unwrap cc_MaxIdleConnsPerHost_update) ''SSE_CRYPTO_HTTP_MAX_IDLE_CONNS_PER_HOST'' 256 Atoi,
     bindEnv e (set_unwrap cc_IdleConnTimeout_update) ''SSE_CRYPTO_HTTP_IDLE_CONN_TIMEOUT'' (90 * time_Second) (ParseDuration (le_scaled e)),
     assign (set_unwrap cc_AuthMode_update) (getEnv e ''SSE_CRYPTO_HTTP_AUTH_MODE'' ''none''),
     bindSecret e (set_unwrap cc_BearerToken_update) ''SSE_CRYPTO_HTTP_BEARER_TOKEN'',
     assign (set_unwrap cc_BasicUsername_update) (getEnv e ''SSE_CRYPTO_HTTP_BASIC_USERNAME'' []),
     bindSecret e (set_unwrap cc_BasicPassword_update) ''SSE_CRYPTO_HTTP_BASIC_PASSWORD'',
     bindEnv e (set_unwrap cc_BinaryMode_update) ''SSE_CRYPTO_HTTP_BINARY_MODE'' True ParseBool,
     bindEnv e (set_unwrap cc_TLSEnabled_update) ''SSE_CRYPTO_HTTP_TLS_ENABLED'' False ParseBool,
     assign (set_unwrap cc_TLSServerName_update) (getEnv e ''SSE_CRYPTO_HTTP_TLS_SERVER_NAME'' []),
     assign (set_unwrap cc_TLSCAFile_update) (getEnv e ''SSE_CRYPTO_HTTP_TLS_CA_FILE'' []),
     assign (set_unwrap cc_TLSCertFile_update) (getEnv e ''SSE_CRYPTO_HTTP_TLS_CERT_FILE'' []),
     assign (set_unwrap cc_TLSKeyFile_update) (getEnv e ''SSE_CRYPTO_HTTP_TLS_KEY_FILE'' []),
     bindEnv e (set_unwrap cc_TLSInsecureSkipVerify_update) ''SSE_CRYPTO_HTTP_TLS_INSECURE_SKIP_VERIFY'' False ParseBool,
     assign (set_crypto xc_PayloadCipher_update) (getEnv e ''SSE_CRYPTO_PAYLOAD_CIPHER'' ''AES-256-GCM''),
     bindEnv e (set_crypto MaxPayloadBytes_update) ''SSE_CRYPTO_MAX_PAYLOAD_BYTES'' (5 * 1024 * 1024) ParseInt,
     bindEnv e (set_crypto AADEnabled_update) ''SSE_CRYPTO_AAD_ENABLED'' True ParseBool,
     assign (set_crypto AADTemplate_update) (getEnv e ''SSE_CRYPTO_AAD_TEMPLATE'' DefaultAADTemplate)]"

definition auth_steps :: "load_env \<Rightarrow> load_step list" where
  "auth_steps e =
    [assign (set_auth au_Driver_update) (strings_ToLower (getEnv e ''SSE_AUTH_DRIVER'' ''jwt'')),
     assign (set_jwt jc_Algorithm_update) (getEnv e ''SSE_AUTH_JWT_ALGORITHM'' ''EdDSA''),
     assign (set_jwt jc_Audience_update) (getEnv e ''SSE_AUTH_JWT_AUDIENCE'' ''sse-gateway''),
     assign (set_jwt jc_Issuer_update) (getEnv e ''SSE_AUTH_JWT_ISSUER'' []),
     assign (set_jwt jc_PublicKeyFile_update) (getEnv e ''SSE_AUTH_JWT_PUBLIC_KEY_FILE'' []),
     bindSecretIfSet e (set_jwt jc_PublicKeyBytes_update) ''SSE_AUTH_JWT_PUBLIC_KEY'',
     bindSecretIfSet e (set_jwt jc_SecretKeyBytes_update) ''SSE_AUTH_JWT_SECRET_KEY'',
     bindEnv e (set_jwt jc_ClockSkew_update) ''SSE_AUTH_JWT_CLOCK_SKEW'' (30 * time_Second) (ParseDuration (le_scaled e)),
     bindEnv e (set_jwt jc_RequireExp_update) ''SSE_AUTH_JWT_REQUIRE_EXP'' True ParseBool,
     bindEnv e (set_jwt jc_RequireAud_update) ''SSE_AUTH_JWT_REQUIRE_AUD'' True ParseBool,
     bindEnv e (set_jwt jc_RequireIss_update) ''SSE_AUTH_JWT_REQUIRE_ISS'' False ParseBool,
     assign (set_auth au_QueryParameter_update) (getEnv e ''SSE_AUTH_QUERY_PARAMETER'' ''ticket''),
     assign (set_auth au_InvalidationEventType_update) (getEnv e ''SSE_AUTH_INVALIDATION_EVENT_TYPE'' ''auth.invalidate'')]"

definition probe_steps :: "load_env \<Rightarrow> load_step list" where
  "probe_steps e =
    [bindEnv e (set_metrics mc_Enabled_update) ''SSE_METRICS_ENABLED'' True ParseBool,
     bindEnv e (set_health hl_HealthEnabled_update) ''SSE_HEALTH_ENABLED'' True ParseBool,
     bindEnv e (set_health hl_ReadyEnabled_update) ''SSE_READY_ENABLED'' True ParseBool,
     bindEnv e (set_health hl_RequireEventBus_update) ''SSE_READY_REQUIRE_EVENT_BUS'' True ParseBool,
     bindEnv e (set_health hl_RequireCrypto_update) ''SSE_READY_REQUIRE_CRYPTO'' True ParseBool]"

definition shutdown_steps :: "load_env \<Rightarrow> load_step list" where
  "shutdown_steps e =
    [bindEnv e (set_shutdown sd_GracePeriod_update) ''SSE_SHUTDOWN_GRACE_PERIOD'' (30 * time_Second) (ParseDuration (le_scaled e)),
     bindEnv e (set_shutdown sd_StopAcceptingFirst_update) ''SSE_SHUTDOWN_STOP_ACCEPTING_FIRST'' True ParseBool]"

definition load_steps :: "load_env \<Rightarrow> load_step list" where
  "load_steps e =
    general_steps e @ log_steps e @ http_steps e @ hub_steps e @ limits_steps e @ heartbeat_steps e @ bus_steps e @ routing_steps e @ crypto_steps e @ auth_steps e @ probe_steps e @ shutdown_steps e"

definition LoadConfig :: "load_env \<Rightarrow> config_error + config" where
  "LoadConfig e =
     (case foldl (\<lambda>s step. step s) (zero_config, None) (load_steps e) of
        (cfg, Some firstErr) \<Rightarrow> Inl firstErr
      | (cfg, None) \<Rightarrow> Inr cfg)"

subsection \<open>Validation\<close>

datatype config_invalid =
    InvalidPort int | InvalidShards | InvalidEventLanes | InvalidClientQueueSize
  | UnknownBusDriver string | UnknownCryptoDriver string | UnknownAuthDriver string | UnsupportedCipher string
  | ProductionMockCrypto | ProductionMockAuth | ProductionInsecureUnwrap | ProductionInsecureValkey

definition Config_Validate :: "config \<Rightarrow> config_invalid option" where
  "Config_Validate c =
     (if hc_ListenPort (cf_HTTP c) \<le> 0 \<or> hc_ListenPort (cf_HTTP c) > 65535
      then Some (InvalidPort (hc_ListenPort (cf_HTTP c)))
      else if hb_Shards (cf_Hub c) \<le> 0 then Some InvalidShards
      else if hb_EventLanes (cf_Hub c) \<le> 0 then Some InvalidEventLanes
      else if hb_ClientQueueSize (cf_Hub c) \<le> 0 then Some InvalidClientQueueSize
      else if ec_Driver (cf_EventBus c) \<notin> {''valkey_pubsub'', ''memory''}
      then Some (UnknownBusDriver (ec_Driver (cf_EventBus c)))
      else if xc_Driver (cf_Crypto c) \<notin> {''http'', ''mock''} then Some (UnknownCryptoDriver (xc_Driver (cf_Crypto c)))
      else if au_Driver (cf_Auth c) \<notin> {''jwt'', ''mock''} then Some (UnknownAuthDriver (au_Driver (cf_Auth c)))
      else if xc_PayloadCipher (cf_Crypto c) \<noteq> [] \<and>
              \<not> strings_EqualFold (xc_PayloadCipher (cf_Crypto c)) ''AES-256-GCM''
      then Some (UnsupportedCipher (xc_PayloadCipher (cf_Crypto c)))
      else if strings_EqualFold (cf_Environment c) ''production'' then
        (if xc_Driver (cf_Crypto c) = ''mock'' then Some ProductionMockCrypto
         else if au_Driver (cf_Auth c) = ''mock'' then Some ProductionMockAuth
         else if cc_TLSInsecureSkipVerify (xc_HTTP (cf_Crypto c)) then Some ProductionInsecureUnwrap
         else if vc_TLSInsecureSkip (ec_Valkey (cf_EventBus c)) then Some ProductionInsecureValkey
         else None)
      else None)"

section \<open>Specification\<close>

text \<open>
  The documented environment: the variables with a type, in the order in which the loader reads them, and the
  secrets among them. A variable is in error when its trimmed text is not empty and does not parse; a secret,
  when the file its \<^verbatim>\<open>_FILE\<close> variable names cannot be read.
\<close>

datatype var_kind = KBool | KInt | KDuration | KFloat | KSecret

definition config_variables :: "(string \<times> var_kind) list" where
  "config_variables =
    [(''SSE_LOG_INCLUDE_SOURCE'', KBool),
     (''SSE_LOG_REDACT_QUERY_STRING'', KBool),
     (''SSE_HTTP_LISTEN_PORT'', KInt),
     (''SSE_HTTP_READ_HEADER_TIMEOUT'', KDuration),
     (''SSE_HTTP_IDLE_TIMEOUT'', KDuration),
     (''SSE_HTTP_MAX_HEADER_BYTES'', KInt),
     (''SSE_HTTP_WRITE_TIMEOUT'', KDuration),
     (''SSE_HTTP_TRUST_PROXY_HEADERS'', KBool),
     (''SSE_HUB_SHARDS'', KInt),
     (''SSE_EVENT_LANES'', KInt),
     (''SSE_EVENT_LANE_QUEUE_SIZE'', KInt),
     (''SSE_CLIENT_QUEUE_SIZE'', KInt),
     (''SSE_CLIENT_WRITE_TIMEOUT'', KDuration),
     (''SSE_LIMIT_MAX_CONNECTIONS'', KInt),
     (''SSE_LIMIT_MAX_CONNECTIONS_PER_USER'', KInt),
     (''SSE_LIMIT_MAX_CONNECTIONS_PER_TENANT'', KInt),
     (''SSE_LIMIT_MAX_TOPICS_PER_CONNECTION'', KInt),
     (''SSE_CONNECTION_RATE_LIMIT_ENABLED'', KBool),
     (''SSE_CONNECTION_RATE_LIMIT_RPS'', KFloat),
     (''SSE_CONNECTION_RATE_LIMIT_BURST'', KInt),
     (''SSE_LIMIT_MAX_PENDING_HANDSHAKES'', KInt),
     (''SSE_LIMIT_HANDSHAKE_TIMEOUT'', KDuration),
     (''SSE_HEARTBEAT_ENABLED'', KBool),
     (''SSE_HEARTBEAT_INTERVAL'', KDuration),
     (''SSE_EVENT_BUS_VALKEY_PASSWORD'', KSecret),
     (''SSE_EVENT_BUS_VALKEY_DATABASE'', KInt),
     (''SSE_EVENT_BUS_VALKEY_TLS_ENABLED'', KBool),
     (''SSE_EVENT_BUS_VALKEY_TLS_INSECURE_SKIP_VERIFY'', KBool),
     (''SSE_EVENT_BUS_VALKEY_CONNECT_TIMEOUT'', KDuration),
     (''SSE_EVENT_BUS_VALKEY_READ_TIMEOUT'', KDuration),
     (''SSE_EVENT_BUS_VALKEY_WRITE_TIMEOUT'', KDuration),
     (''SSE_EVENT_BUS_RECONNECT_ENABLED'', KBool),
     (''SSE_EVENT_BUS_RECONNECT_MIN_DELAY'', KDuration),
     (''SSE_EVENT_BUS_RECONNECT_MAX_DELAY'', KDuration),
     (''SSE_EVENT_BUS_RECONNECT_JITTER'', KBool),
     (''SSE_CRYPTO_HTTP_CONNECT_TIMEOUT'', KDuration),
     (''SSE_CRYPTO_HTTP_REQUEST_TIMEOUT'', KDuration),
     (''SSE_CRYPTO_HTTP_MAX_IDLE_CONNS'', KInt),
     (''SSE_CRYPTO_HTTP_MAX_IDLE_CONNS_PER_HOST'', KInt),
     (''SSE_CRYPTO_HTTP_IDLE_CONN_TIMEOUT'', KDuration),
     (''SSE_CRYPTO_HTTP_BEARER_TOKEN'', KSecret),
     (''SSE_CRYPTO_HTTP_BASIC_PASSWORD'', KSecret),
     (''SSE_CRYPTO_HTTP_BINARY_MODE'', KBool),
     (''SSE_CRYPTO_HTTP_TLS_ENABLED'', KBool),
     (''SSE_CRYPTO_HTTP_TLS_INSECURE_SKIP_VERIFY'', KBool),
     (''SSE_CRYPTO_MAX_PAYLOAD_BYTES'', KInt),
     (''SSE_CRYPTO_AAD_ENABLED'', KBool),
     (''SSE_AUTH_JWT_PUBLIC_KEY'', KSecret),
     (''SSE_AUTH_JWT_SECRET_KEY'', KSecret),
     (''SSE_AUTH_JWT_CLOCK_SKEW'', KDuration),
     (''SSE_AUTH_JWT_REQUIRE_EXP'', KBool),
     (''SSE_AUTH_JWT_REQUIRE_AUD'', KBool),
     (''SSE_AUTH_JWT_REQUIRE_ISS'', KBool),
     (''SSE_METRICS_ENABLED'', KBool),
     (''SSE_HEALTH_ENABLED'', KBool),
     (''SSE_READY_ENABLED'', KBool),
     (''SSE_READY_REQUIRE_EVENT_BUS'', KBool),
     (''SSE_READY_REQUIRE_CRYPTO'', KBool),
     (''SSE_SHUTDOWN_GRACE_PERIOD'', KDuration),
     (''SSE_SHUTDOWN_STOP_ACCEPTING_FIRST'', KBool)]"

fun parses :: "load_env \<Rightarrow> var_kind \<Rightarrow> string \<Rightarrow> bool" where
  "parses e KBool s = (ParseBool s \<noteq> None)"
| "parses e KInt s = (ParseInt s \<noteq> None)"
| "parses e KDuration s = (ParseDuration (le_scaled e) s \<noteq> None)"
| "parses e KFloat s = (le_ParseFloat e s \<noteq> None)"
| "parses e KSecret s = (le_files e s \<noteq> None)"

definition variable_name :: "string \<times> var_kind \<Rightarrow> string" where
  "variable_name v = (if snd v = KSecret then fst v @ ''_FILE'' else fst v)"

definition variable_error :: "load_env \<Rightarrow> string \<times> var_kind \<Rightarrow> config_error list" where
  "variable_error e v =
     (case le_env e (variable_name v) of
        None \<Rightarrow> []
      | Some s \<Rightarrow>
          if strings_TrimSpace s = [] \<or> parses e (snd v) (strings_TrimSpace s) then []
          else [(if snd v = KSecret then ErrSecretFile else ErrInvalidVariable) (variable_name v) s])"

definition expected_errors :: "load_env \<Rightarrow> config_error list" where
  "expected_errors e = concat (map (variable_error e) config_variables)"

text \<open>
  What the types of the Go program promise of a loaded configuration: every number, duration and count is a
  signed 64-bit integer, and the trusted networks are non-empty texts without a comma.
\<close>

definition int64 :: "int \<Rightarrow> bool" where
  "int64 i \<longleftrightarrow> - (2 ^ 63) \<le> i \<and> i < 2 ^ 63"

definition config_ints :: "config \<Rightarrow> int list" where
  "config_ints c =
     (let h = cf_HTTP c; u = cf_Hub c; l = cf_Limits c; r = cf_RateLimit c; v = ec_Valkey (cf_EventBus c);
          k = xc_HTTP (cf_Crypto c)
      in [hc_ListenPort h, hc_ReadHeaderTimeout h, hc_IdleTimeout h, hc_MaxHeaderBytes h, hc_WriteTimeout h,
          hb_Shards u, hb_EventLanes u, hb_EventLaneQueueSize u, hb_ClientQueueSize u, hb_ClientWriteTimeout u,
          MaxConnections l, MaxConnectionsPerUser l, MaxConnectionsPerTenant l, MaxTopicsPerConnection l,
          rc_Burst r, rc_MaxPendingHandshakes r, rc_HandshakeTimeout r, bt_Interval (cf_Heartbeat c),
          vc_Database v, vc_ConnectTimeout v, vc_ReadTimeout v, vc_WriteTimeout v, vc_ReconnectMinDelay v,
          vc_ReconnectMaxDelay v, vc_BufferSize v,
          cc_ConnectTimeout k, cc_RequestTimeout k, cc_MaxIdleConns k, cc_MaxIdleConnsPerHost k, cc_IdleConnTimeout k,
          MaxPayloadBytes (cf_Crypto c), jc_ClockSkew (au_JWT (cf_Auth c)), sd_GracePeriod (cf_Shutdown c)])"

definition config_typed :: "config \<Rightarrow> bool" where
  "config_typed c \<longleftrightarrow> list_all int64 (config_ints c) \<and>
     (\<forall>w \<in> set (hc_TrustedProxyCIDRs (cf_HTTP c)). w \<noteq> [] \<and> CHR '','' \<notin> set w)"

section \<open>Errors of the loader\<close>

text \<open>A list of steps that, run after no error, leaves the first of the given errors.\<close>

definition reports :: "load_step list \<Rightarrow> config_error list \<Rightarrow> bool" where
  "reports steps errs \<longleftrightarrow> (\<forall>c x. snd (foldl (\<lambda>s step. step s) (c, x) steps) =
     (case x of Some y \<Rightarrow> Some y | None \<Rightarrow> if errs = [] then None else Some (hd errs)))"

named_theorems reports_intros \<open>the errors of each kind of step\<close>

lemma reports_Nil [reports_intros]: "reports [] []"
  by (simp add: reports_def split: option.split)

lemma reports_Cons:
  assumes "\<And>c x. snd (st (c, x)) = (case x of Some y \<Rightarrow> Some y | None \<Rightarrow> if es = [] then None else Some (hd es))"
    and "reports steps errs"
  shows "reports (st # steps) (es @ errs)"
proof -
  have "foldl (\<lambda>s step. step s) (c, x) (st # steps) =
      foldl (\<lambda>s step. step s) (fst (st (c, x)), snd (st (c, x))) steps" for c x
    by simp
  with assms show ?thesis
    by (auto simp: reports_def hd_append simp del: foldl_Cons split: option.split)
qed

lemma reports_assign [reports_intros]: "reports steps errs \<Longrightarrow> reports (assign target v # steps) errs"
  using reports_Cons [where es = "[]"] by (force simp: assign_def split: option.split)

lemma reports_bindEnv:
  assumes "k \<noteq> KSecret" and "\<And>s. parses e k s \<longleftrightarrow> parse s \<noteq> None" and "reports steps errs"
  shows "reports (bindEnv e target name fallback parse # steps) (variable_error e (name, k) @ errs)"
  using assms(1,2)
  by (intro reports_Cons assms(3))
    (auto simp: bindEnv_def envValue_def variable_error_def variable_name_def record_error_def split: option.split)

lemma reports_typed [reports_intros]:
  "reports steps errs \<Longrightarrow> reports (bindEnv e target name b ParseBool # steps) (variable_error e (name, KBool) @ errs)"
  "reports steps errs \<Longrightarrow> reports (bindEnv e target' name i Atoi # steps) (variable_error e (name, KInt) @ errs)"
  "reports steps errs \<Longrightarrow> reports (bindEnv e target' name i ParseInt # steps) (variable_error e (name, KInt) @ errs)"
  "reports steps errs \<Longrightarrow>
     reports (bindEnv e target' name i (ParseDuration (le_scaled e)) # steps) (variable_error e (name, KDuration) @ errs)"
  "reports steps errs \<Longrightarrow>
     reports (bindEnv e target'' name f (le_ParseFloat e) # steps) (variable_error e (name, KFloat) @ errs)"
  by (rule reports_bindEnv; simp add: Atoi_def)+

lemma reports_secret [reports_intros]:
  "reports steps errs \<Longrightarrow> reports (bindSecret e target name # steps) (variable_error e (name, KSecret) @ errs)"
  "reports steps errs \<Longrightarrow> reports (bindSecretIfSet e target name # steps) (variable_error e (name, KSecret) @ errs)"
  by (rule reports_Cons;
      force simp: bindSecret_def bindSecretIfSet_def resolveSecret_def variable_error_def variable_name_def
        record_error_def split: option.split)+

lemmas step_defs =
  general_steps_def log_steps_def http_steps_def hub_steps_def limits_steps_def heartbeat_steps_def bus_steps_def
  routing_steps_def crypto_steps_def auth_steps_def probe_steps_def shutdown_steps_def

lemma load_steps_report: "reports (load_steps e) (expected_errors e)"
  unfolding expected_errors_def config_variables_def load_steps_def step_defs list.map concat.simps append.simps
  by (intro reports_intros)

section \<open>Ranges of the settings\<close>

text \<open>A property of configurations that every step keeps.\<close>

definition keeps :: "(config \<Rightarrow> bool) \<Rightarrow> load_step \<Rightarrow> bool" where
  "keeps P st \<longleftrightarrow> (\<forall>c x. P c \<longrightarrow> P (fst (st (c, x))))"

lemma keeps_foldl: "list_all (keeps P) steps \<Longrightarrow> P (fst s) \<Longrightarrow> P (fst (foldl (\<lambda>s step. step s) s steps))"
proof (induction steps arbitrary: s)
  case (Cons st steps)
  then have "P (fst (st (fst s, snd s)))" by (auto simp: keeps_def simp del: prod.collapse)
  with Cons show ?case by simp
qed simp

lemma ParseInt_int64: "ParseInt s = Some i \<Longrightarrow> int64 i"
  by (auto simp: ParseInt_def int64_def Let_def split: if_splits option.splits)

lemma keeps_assign: "(\<And>c. P c \<Longrightarrow> P (target v c)) \<Longrightarrow> keeps P (assign target v)"
  by (simp add: keeps_def assign_def)

lemma keeps_secret:
  "(\<And>c v. P c \<Longrightarrow> P (target v c)) \<Longrightarrow> keeps P (bindSecret e target name)"
  "(\<And>c v. P c \<Longrightarrow> P (target v c)) \<Longrightarrow> keeps P (bindSecretIfSet e target name)"
  by (simp_all add: keeps_def bindSecret_def bindSecretIfSet_def split: sum.split)

lemma keeps_bind:
  "(\<And>c v. v = fallback \<or> (\<exists>s. parse s = Some v) \<Longrightarrow> P c \<Longrightarrow> P (target v c)) \<Longrightarrow>
     keeps P (bindEnv e target name fallback parse)"
  by (auto simp: keeps_def bindEnv_def envValue_def split: option.split)

lemma keeps_int:
  assumes "int64 i" and "\<And>c v. int64 v \<Longrightarrow> P c \<Longrightarrow> P (target v c)"
  shows "keeps P (bindEnv e target name i Atoi)" and "keeps P (bindEnv e target name i ParseInt)"
    and "keeps P (bindEnv e target name i (ParseDuration sc))"
  using assms ParseInt_int64 ParseDuration_range unfolding int64_def
  by (auto intro!: keeps_bind simp: Atoi_def)

lemma keeps_other:
  assumes "\<And>c v. P c \<Longrightarrow> P (target v c)"
  shows "keeps P (bindEnv e target name b ParseBool)"
  using assms by (auto intro: keeps_bind)

lemma keeps_float:
  assumes "\<And>c v. P c \<Longrightarrow> P (target v c)"
  shows "keeps P (bindEnv e target name f (le_ParseFloat e))"
  using assms by (auto intro: keeps_bind)

lemma trusted_cidrs_typed: "w \<in> set (trusted_cidrs s) \<Longrightarrow> w \<noteq> [] \<and> CHR '','' \<notin> set w"
  using TrimSpace_set Split_no_sep unfolding trusted_cidrs_def by (fastforce split: if_splits)

lemma zero_config_typed: "config_typed zero_config"
  by (simp add: config_typed_def config_ints_def int64_def zero_config_def zero_http_def zero_hub_def
      zero_limits_def zero_rate_limit_def zero_heartbeat_def zero_valkey_def zero_client_def zero_jwt_def
      zero_shutdown_def)

lemmas keeps_intros = keeps_int keeps_other keeps_float keeps_assign keeps_secret

lemmas typed_simps = setter_defs config_typed_def config_ints_def trusted_cidrs_typed Let_def

lemmas fallback_simps = int64_def time_Second_def time_Millisecond_def DefaultListenPort_def

lemma load_steps_typed: "list_all (keeps config_typed) (load_steps e)"
  unfolding load_steps_def step_defs list_all_append list.pred_inject(2)
  by (intro conjI list.pred_inject(1) keeps_intros; ((simp add: typed_simps; fail) | simp add: fallback_simps))

section \<open>Single settings\<close>

text \<open>What a step writes stays when the later steps keep it.\<close>

lemma setting_kept:
  assumes "load_steps e = before @ st # after" and "\<And>s. P (fst (st s))" and "list_all (keeps P) after"
  shows "P (fst (foldl (\<lambda>s step. step s) s (load_steps e)))"
  using keeps_foldl [OF assms(3)] assms(1,2) by simp

lemma LoadConfig_Inr:
  "LoadConfig e = Inr c \<Longrightarrow> c = fst (foldl (\<lambda>s step. step s) (zero_config, None) (load_steps e))"
  by (auto simp: LoadConfig_def split: prod.splits option.splits)

lemma keeps_any: "(\<And>c v. P c \<Longrightarrow> P (target v c)) \<Longrightarrow> keeps P (bindEnv e target name fallback parse)"
  by (rule keeps_bind) simp

lemma loaded_environment:
  assumes "LoadConfig e = Inr c"
  shows "cf_Environment c = getEnv e ''SSE_ENVIRONMENT'' ''production''"
  unfolding LoadConfig_Inr [OF assms]
  apply (rule setting_kept [where before = "[]"])
  apply (simp only: load_steps_def general_steps_def append.simps)
  apply (simp add: assign_def)
  unfolding step_defs list_all_append list.pred_inject(2)
  apply (intro conjI list.pred_inject(1) keeps_any keeps_assign keeps_secret; (simp add: setter_defs; fail))
  done

section \<open>Properties\<close>

text \<open>
  C31. Loading the configuration. If every documented variable that is set parses (and every secret file can be
  read) the loader returns a configuration; otherwise it returns the error of the first offending variable, in
  the order of the documentation, and no configuration. An unset or blank variable is never an error.
\<close>

theorem config_first_error:
  "case LoadConfig e of
     Inl err \<Rightarrow> expected_errors e \<noteq> [] \<and> err = hd (expected_errors e)
   | Inr c \<Rightarrow> expected_errors e = []"
proof -
  let ?r = "foldl (\<lambda>s step. step s) (zero_config, None) (load_steps e)"
  have "snd ?r = (if expected_errors e = [] then None else Some (hd (expected_errors e)))"
    using load_steps_report [of e] by (simp add: reports_def)
  then show ?thesis by (cases ?r) (auto simp: LoadConfig_def split: if_splits option.split)
qed



text \<open>An environment that sets a port and two trusted networks.\<close>

definition empty_env :: load_env where
  "empty_env = \<lparr>le_env = (\<lambda>_. None), le_files = (\<lambda>_. None), le_random = ''0123456789abcdef'',
     le_scaled = (\<lambda>_ _. 0), le_ParseFloat = (\<lambda>_. None)\<rparr>"

definition demo_env :: load_env where
  "demo_env = empty_env\<lparr>le_env := (\<lambda>n.
     if n = ''SSE_HTTP_LISTEN_PORT'' then Some '' 9090 ''
     else if n = ''SSE_HTTP_TRUSTED_PROXY_CIDRS'' then Some ''10.0.0.0/8, ,127.0.0.1/32'' else None)\<rparr>"

lemma demo_env_loads:
  "case LoadConfig demo_env of
     Inr c \<Rightarrow> hc_ListenPort (cf_HTTP c) = 9090 \<and>
       hc_TrustedProxyCIDRs (cf_HTTP c) = [''10.0.0.0/8'', ''127.0.0.1/32'']
   | Inl _ \<Rightarrow> False"
  by code_simp


definition raw_key :: string where
  "raw_key = replicate 31 (CHR ''k'') @ [CHR 0x0A]"

definition key_env :: load_env where
  "key_env = empty_env\<lparr>le_env := (\<lambda>n. if n = ''SSE_AUTH_JWT_PUBLIC_KEY_FILE'' then Some ''/key'' else None),
     le_files := (\<lambda>p. if p = ''/key'' then Some raw_key else None)\<rparr>"

text \<open>
  A key file given through \<^verbatim>\<open>SSE_AUTH_JWT_PUBLIC_KEY_FILE\<close> is read as a secret, with its trailing line breaks
  removed: a raw Ed25519 key of 32 bytes whose last byte is a line feed loses that byte, and the validator
  refuses the 31 bytes left, although it accepts the file itself.
\<close>

theorem raw_key_file_is_trimmed:
  "case LoadConfig key_env of
     Inr c \<Rightarrow> length raw_key = ed25519_PublicKeySize \<and>
       jc_PublicKeyBytes (au_JWT (cf_Auth c)) = butlast raw_key \<and>
       NewJWTValidator demo_lib (le_files key_env) (au_JWT (cf_Auth c)) = Inl ErrParseKey \<and>
       (case NewJWTValidator demo_lib (le_files key_env) ((au_JWT (cf_Auth c))\<lparr>jc_PublicKeyBytes := []\<rparr>) of
          Inr v \<Rightarrow> jv_key v = Some (Ed25519Key raw_key) | Inl _ \<Rightarrow> False)
   | Inl _ \<Rightarrow> False"
  by code_simp

end
