(* ===== verification/Dispatcher.thy ===== *)
theory Dispatcher
  imports Bus_Model Go_Chan Hash_Util "HOL-Library.Sublist"
begin

text \<open>
  \<^verbatim>\<open>internal/event/lane.go\<close>: the dispatcher. First the operations as whole calls, then the
  interleavings: several goroutines may be inside \<^verbatim>\<open>Dispatch\<close> at once (it holds the read lock),
  one worker per lane runs concurrently, and \<^verbatim>\<open>Close\<close> may come at any time. \<open>lane_step\<close> has one
  rule per atomic action: the load of the closed flag under the read lock, the channel
  operation, the update of the depth counter, the worker's receive, its counter update and
  its call of the handler, and the phases of \<^verbatim>\<open>Close\<close>, which gets the write lock only when no
  \<^verbatim>\<open>Dispatch\<close> holds the read lock.

  The dispatcher's only caller passes a handler, so the \<^verbatim>\<open>nil\<close> test of the worker is not
  modelled. \<open>lv_accepted\<close> and \<open>lv_handled\<close> are ghosts: what each lane took and what its worker
  has passed to the handler and finished.
\<close>

section \<open>Definitions\<close>

record dispatcher =
  d_numLanes :: int
  d_lanes :: "encrypted_event chan list"
  d_closed :: bool
  d_queueDepth :: int
  d_drainTimeout :: int
  d_cancelled :: bool

text \<open>Durations in nanoseconds.\<close>

definition ten_seconds :: int where
  "ten_seconds = 10 * 1000000000"

definition NewDispatcher :: "int \<Rightarrow> int \<Rightarrow> dispatcher" where
  "NewDispatcher numLanes queueSize =
     (let n = (if numLanes \<le> 0 then 64 else numLanes);
          q = (if queueSize \<le> 0 then 1024 else queueSize)
      in \<lparr>d_numLanes = n, d_lanes = replicate (nat n) (make_chan (nat q)), d_closed = False,
          d_queueDepth = 0, d_drainTimeout = ten_seconds, d_cancelled = False\<rparr>)"

definition SetDrainTimeout :: "dispatcher \<Rightarrow> int \<Rightarrow> dispatcher" where
  "SetDrainTimeout d timeout = d\<lparr>d_drainTimeout := timeout\<rparr>"

definition lane_key :: "encrypted_event \<Rightarrow> string" where
  "lane_key ev = (if ev_RoutingKey ev = [] then ev_TenantID ev @ '':'' @ ev_AppID ev @ '':'' @ ev_TopicID ev
                  else ev_RoutingKey ev)"

definition laneIdx :: "dispatcher \<Rightarrow> encrypted_event \<Rightarrow> nat" where
  "laneIdx d ev = ShardIndex (lane_key ev) (d_numLanes d)"

text \<open>\<open>None\<close> is a panic: a send on a closed channel.\<close>

definition lane_send :: "dispatcher \<Rightarrow> encrypted_event \<Rightarrow> (dispatcher \<times> bool) option" where
  "lane_send d ev =
     (let i = laneIdx d ev
      in case try_send (d_lanes d ! i) ev of
           Sent ch \<Rightarrow> Some (d\<lparr>d_lanes := (d_lanes d)[i := ch]\<rparr>, True)
         | Full \<Rightarrow> Some (d, False)
         | SendPanic \<Rightarrow> None)"

definition add_depth :: "dispatcher \<Rightarrow> int \<Rightarrow> dispatcher" where
  "add_depth d n = d\<lparr>d_queueDepth := d_queueDepth d + n\<rparr>"

definition Dispatch :: "dispatcher \<Rightarrow> encrypted_event \<Rightarrow> (dispatcher \<times> bool) option" where
  "Dispatch d ev =
     (if d_closed d then Some (d, False)
      else case lane_send d ev of
             None \<Rightarrow> None
           | Some (d1, True) \<Rightarrow> Some (add_depth d1 1, True)
           | Some (d1, False) \<Rightarrow> Some (d1, False))"

definition QueueDepth :: "dispatcher \<Rightarrow> int" where
  "QueueDepth d = d_queueDepth d"

text \<open>One round of \<^verbatim>\<open>for ev := range ch\<close> up to the call of the handler; \<open>None\<close> when the loop has
  nothing to take, and whether it ended.\<close>

definition worker_take :: "dispatcher \<Rightarrow> nat \<Rightarrow> (encrypted_event \<times> dispatcher) option" where
  "worker_take d i =
     (case try_recv (d_lanes d ! i) of
        Recv ev ch \<Rightarrow> Some (ev, d\<lparr>d_lanes := (d_lanes d)[i := ch]\<rparr>)
      | _ \<Rightarrow> None)"

definition worker_ends :: "dispatcher \<Rightarrow> nat \<Rightarrow> bool" where
  "worker_ends d i = (case try_recv (d_lanes d ! i) of Closed \<Rightarrow> True | _ \<Rightarrow> False)"

definition close_lanes :: "dispatcher \<Rightarrow> dispatcher" where
  "close_lanes d = d\<lparr>d_lanes := map close_chan (d_lanes d)\<rparr>"

text \<open>How long \<^verbatim>\<open>Close\<close> waits for the workers before it gives up.\<close>

definition drain_wait :: "dispatcher \<Rightarrow> int" where
  "drain_wait d = (if d_drainTimeout d \<le> 0 then ten_seconds else d_drainTimeout d)"

subsection \<open>Interleavings\<close>

datatype worker = WIdle | WGot encrypted_event | WBusy encrypted_event | WDone

datatype dispatch_pc = DReady encrypted_event | DSent encrypted_event

datatype closer = CloseNot | CloseFlagged | CloseDrain | CloseDone

record lanes_view =
  lv_d :: dispatcher
  lv_readers :: "dispatch_pc list"
  lv_workers :: "nat \<Rightarrow> worker"
  lv_closer :: closer
  lv_accepted :: "nat \<Rightarrow> encrypted_event list"
  lv_handled :: "nat \<Rightarrow> encrypted_event list"
  lv_panic :: bool

definition start_view :: "int \<Rightarrow> int \<Rightarrow> lanes_view" where
  "start_view numLanes queueSize =
     \<lparr>lv_d = NewDispatcher numLanes queueSize, lv_readers = [], lv_workers = (\<lambda>_. WIdle), lv_closer = CloseNot,
      lv_accepted = (\<lambda>_. []), lv_handled = (\<lambda>_. []), lv_panic = False\<rparr>"

abbreviation lanes :: "lanes_view \<Rightarrow> encrypted_event chan list" where
  "lanes v \<equiv> d_lanes (lv_d v)"

inductive lane_step :: "lanes_view \<Rightarrow> lanes_view \<Rightarrow> bool" where
  enter: "lv_closer v \<notin> {CloseDrain, CloseDone} \<Longrightarrow> \<not> d_closed (lv_d v) \<Longrightarrow>
    lane_step v (v\<lparr>lv_readers := DReady ev # lv_readers v\<rparr>)"
| send: "lv_readers v = as @ DReady ev # bs \<Longrightarrow> lane_send (lv_d v) ev = Some (d', True) \<Longrightarrow>
    lane_step v (v\<lparr>lv_d := d', lv_readers := as @ DSent ev # bs,
      lv_accepted := (lv_accepted v)(laneIdx (lv_d v) ev := lv_accepted v (laneIdx (lv_d v) ev) @ [ev])\<rparr>)"
| drop: "lv_readers v = as @ DReady ev # bs \<Longrightarrow> lane_send (lv_d v) ev = Some (d', False) \<Longrightarrow>
    lane_step v (v\<lparr>lv_d := d', lv_readers := as @ bs\<rparr>)"
| panic: "lv_readers v = as @ DReady ev # bs \<Longrightarrow> lane_send (lv_d v) ev = None \<Longrightarrow>
    lane_step v (v\<lparr>lv_panic := True\<rparr>)"
| incremented: "lv_readers v = as @ DSent ev # bs \<Longrightarrow>
    lane_step v (v\<lparr>lv_d := add_depth (lv_d v) 1, lv_readers := as @ bs\<rparr>)"
| take: "i < length (lanes v) \<Longrightarrow> lv_workers v i = WIdle \<Longrightarrow> worker_take (lv_d v) i = Some (ev, d') \<Longrightarrow>
    lane_step v (v\<lparr>lv_d := d', lv_workers := (lv_workers v)(i := WGot ev)\<rparr>)"
| decremented: "i < length (lanes v) \<Longrightarrow> lv_workers v i = WGot ev \<Longrightarrow>
    lane_step v (v\<lparr>lv_d := add_depth (lv_d v) (-1), lv_workers := (lv_workers v)(i := WBusy ev)\<rparr>)"
| handle: "i < length (lanes v) \<Longrightarrow> lv_workers v i = WBusy ev \<Longrightarrow>
    lane_step v (v\<lparr>lv_workers := (lv_workers v)(i := WIdle),
      lv_handled := (lv_handled v)(i := lv_handled v i @ [ev])\<rparr>)"
| worker_exit: "i < length (lanes v) \<Longrightarrow> lv_workers v i = WIdle \<Longrightarrow> worker_ends (lv_d v) i \<Longrightarrow>
    lane_step v (v\<lparr>lv_workers := (lv_workers v)(i := WDone)\<rparr>)"
| configure: "lv_readers v = [] \<Longrightarrow> lane_step v (v\<lparr>lv_d := SetDrainTimeout (lv_d v) t\<rparr>)"
| close_flag: "\<not> d_closed (lv_d v) \<Longrightarrow> lv_closer v = CloseNot \<Longrightarrow>
    lane_step v (v\<lparr>lv_d := (lv_d v)\<lparr>d_closed := True\<rparr>, lv_closer := CloseFlagged\<rparr>)"
| close_chans: "lv_closer v = CloseFlagged \<Longrightarrow> lv_readers v = [] \<Longrightarrow>
    lane_step v (v\<lparr>lv_d := close_lanes (lv_d v), lv_closer := CloseDrain\<rparr>)"
| close_end: "lv_closer v = CloseDrain \<Longrightarrow>
    lane_step v (v\<lparr>lv_d := (lv_d v)\<lparr>d_cancelled := True\<rparr>, lv_closer := CloseDone\<rparr>)"

inductive lane_reach :: "int \<Rightarrow> int \<Rightarrow> lanes_view \<Rightarrow> bool" for n q where
  init: "lane_reach n q (start_view n q)"
| step: "lane_reach n q v \<Longrightarrow> lane_step v v' \<Longrightarrow> lane_reach n q v'"

inductive_cases lane_step_elim: "lane_step v v'"

text \<open>The events a worker holds between taking and finishing them.\<close>

fun in_hand :: "worker \<Rightarrow> encrypted_event list" where
  "in_hand (WGot ev) = [ev]"
| "in_hand (WBusy ev) = [ev]"
| "in_hand _ = []"


text \<open>What locking guarantees: nobody is inside \<^verbatim>\<open>Dispatch\<close> once the channels are closed.\<close>

definition lock_inv :: "lanes_view \<Rightarrow> bool" where
  "lock_inv v \<longleftrightarrow>
     lanes v \<noteq> [] \<and> d_numLanes (lv_d v) = int (length (lanes v)) \<and>
     (\<forall>ch \<in> set (lanes v). chan_wf ch \<and> (ch_closed ch \<longleftrightarrow> lv_closer v \<in> {CloseDrain, CloseDone})) \<and>
     (d_closed (lv_d v) \<longleftrightarrow> lv_closer v \<noteq> CloseNot) \<and>
     (lv_closer v \<in> {CloseDrain, CloseDone} \<longrightarrow> lv_readers v = []) \<and> \<not> lv_panic v"

definition fifo_at :: "lanes_view \<Rightarrow> nat \<Rightarrow> bool" where
  "fifo_at v i \<longleftrightarrow>
     lv_accepted v i = lv_handled v i @ in_hand (lv_workers v i) @ ch_buf (lanes v ! i) \<and>
     (\<forall>ev \<in> set (lv_accepted v i). laneIdx (lv_d v) ev = i) \<and>
     (lv_workers v i = WDone \<longrightarrow> ch_closed (lanes v ! i) \<and> ch_buf (lanes v ! i) = [])"

definition fifo_inv :: "lanes_view \<Rightarrow> bool" where
  "fifo_inv v \<longleftrightarrow> (\<forall>i < length (lanes v). fifo_at v i)"

section \<open>Lemmas\<close>

lemma laneIdx_less:
  assumes "lock_inv v" and "int (length (lanes v)) < 2 ^ 32"
  shows "laneIdx (lv_d v) ev < length (lanes v)"
  using assms fnv.nth_defined [of "lanes v" "lane_key ev"] by (simp add: laneIdx_def lock_inv_def)

lemma lane_send_cases:
  assumes "lane_send d ev = Some (d', b)"
  shows "if b then d' = d\<lparr>d_lanes := (d_lanes d)[laneIdx d ev :=
        (d_lanes d ! laneIdx d ev)\<lparr>ch_buf := ch_buf (d_lanes d ! laneIdx d ev) @ [ev]\<rparr>]\<rparr> \<and>
      \<not> ch_closed (d_lanes d ! laneIdx d ev) \<and>
      length (ch_buf (d_lanes d ! laneIdx d ev)) < ch_cap (d_lanes d ! laneIdx d ev)
    else d' = d"
  using assms by (auto simp: lane_send_def try_send_def Let_def split: if_splits)

lemma lane_send_panic: "lane_send d ev = None \<longleftrightarrow> ch_closed (d_lanes d ! laneIdx d ev)"
  by (auto simp: lane_send_def try_send_def Let_def)

lemma worker_take_Some:
  "worker_take d i = Some (ev, d') \<longleftrightarrow>
     (\<exists>xs. ch_buf (d_lanes d ! i) = ev # xs \<and> d' = d\<lparr>d_lanes := (d_lanes d)[i := (d_lanes d ! i)\<lparr>ch_buf := xs\<rparr>]\<rparr>)"
  by (auto simp: worker_take_def try_recv_def split: list.split)

lemma worker_ends_iff: "worker_ends d i \<longleftrightarrow> ch_buf (d_lanes d ! i) = [] \<and> ch_closed (d_lanes d ! i)"
  by (auto simp: worker_ends_def try_recv_def split: list.split)

lemma lane_updates [simp]:
  "d_lanes (add_depth d n) = d_lanes d" "d_numLanes (add_depth d n) = d_numLanes d"
  "d_closed (add_depth d n) = d_closed d" "laneIdx (add_depth d n) = laneIdx d"
  "d_lanes (SetDrainTimeout d t) = d_lanes d" "d_numLanes (SetDrainTimeout d t) = d_numLanes d"
  "d_closed (SetDrainTimeout d t) = d_closed d" "laneIdx (SetDrainTimeout d t) = laneIdx d"
  "d_lanes (close_lanes d) = map close_chan (d_lanes d)" "d_numLanes (close_lanes d) = d_numLanes d"
  "d_closed (close_lanes d) = d_closed d" "laneIdx (close_lanes d) = laneIdx d"
  "laneIdx (d\<lparr>d_closed := b\<rparr>) = laneIdx d" "laneIdx (d\<lparr>d_cancelled := b\<rparr>) = laneIdx d"
  "laneIdx (d\<lparr>d_lanes := ls\<rparr>) = laneIdx d"
  by (simp_all add: add_depth_def SetDrainTimeout_def close_lanes_def laneIdx_def fun_eq_iff)

lemma close_chan_fields [simp]:
  "ch_buf (close_chan ch) = ch_buf ch" "ch_closed (close_chan ch)"
  by (simp_all add: close_chan_def)

lemma lock_inv_update:
  assumes "lock_inv v" "chan_wf ch" "ch_closed ch = ch_closed (lanes v ! i)" "i < length (lanes v)"
    and "lanes v' = (lanes v)[i := ch]" "d_numLanes (lv_d v') = d_numLanes (lv_d v)"
      "d_closed (lv_d v') = d_closed (lv_d v)" "lv_closer v' = lv_closer v" "lv_panic v' = lv_panic v"
    and "lv_readers v = [] \<Longrightarrow> lv_readers v' = []"
  shows "lock_inv v'"
proof -
  have "chan_wf c \<and> (ch_closed c \<longleftrightarrow> lv_closer v \<in> {CloseDrain, CloseDone})" if "c \<in> set ((lanes v)[i := ch])" for c
    using that assms(1-4) set_update_subset_insert [of "lanes v" i ch] nth_mem [OF assms(4)]
    unfolding lock_inv_def by blast
  then show ?thesis using assms by (simp add: lock_inv_def)
qed

lemma lock_inv_step:
  assumes step: "lane_step v v'" and inv: "lock_inv v" and n: "int (length (lanes v)) < 2 ^ 32"
  shows "lock_inv v' \<and> length (lanes v') = length (lanes v)"
  using step
proof cases
  case (send as ev bs d')
  then have "lane_send (lv_d v) ev = Some (d', True)" by simp
  note e = lane_send_cases [OF this, simplified] and i = laneIdx_less [OF inv n, of ev]
  have "chan_wf ((lanes v ! laneIdx (lv_d v) ev)\<lparr>ch_buf := ch_buf (lanes v ! laneIdx (lv_d v) ev) @ [ev]\<rparr>)"
    using e by (simp add: chan_wf_def)
  with send e i show ?thesis
    using inv by (auto intro!: lock_inv_update [OF inv])
next
  case (take i ev d')
  then obtain xs where e: "ch_buf (lanes v ! i) = ev # xs"
    "d' = (lv_d v)\<lparr>d_lanes := (lanes v)[i := (lanes v ! i)\<lparr>ch_buf := xs\<rparr>]\<rparr>"
    by (auto simp: worker_take_Some)
  have "chan_wf (lanes v ! i)" using inv take by (simp add: lock_inv_def)
  with e have "chan_wf ((lanes v ! i)\<lparr>ch_buf := xs\<rparr>)" by (simp add: chan_wf_def)
  with take e show ?thesis by (auto intro!: lock_inv_update [OF inv])
next
  case (panic as ev bs)
  then have "lanes v ! laneIdx (lv_d v) ev \<in> set (lanes v)" "lv_readers v \<noteq> []"
    using laneIdx_less [OF inv n, of ev] by simp_all
  with panic inv show ?thesis by (auto simp: lock_inv_def lane_send_panic)
next
  case (drop as ev bs d')
  then have "lane_send (lv_d v) ev = Some (d', False)" by simp
  from lane_send_cases [OF this] have "d' = lv_d v" by simp
  with drop inv show ?thesis by (auto simp: lock_inv_def)
qed (use inv in \<open>auto simp: lock_inv_def\<close>)


text \<open>One lane changes: what it took, what is handled, in hand and queued still agree.\<close>

lemma fifo_inv_at: "fifo_inv v \<Longrightarrow> i < length (lanes v) \<Longrightarrow> fifo_at v i"
  by (simp add: fifo_inv_def)

lemma fifo_inv_step:
  assumes step: "lane_step v v'" and lock: "lock_inv v" and n: "int (length (lanes v)) < 2 ^ 32"
    and inv: "fifo_inv v"
  shows "fifo_inv v'"
  using step
proof cases
  case (send as ev bs d')
  then have "lane_send (lv_d v) ev = Some (d', True)" by simp
  note e = lane_send_cases [OF this, simplified]
  let ?k = "laneIdx (lv_d v) ev"
  have v': "lv_accepted v' = (lv_accepted v)(?k := lv_accepted v ?k @ [ev])" "lv_handled v' = lv_handled v"
    "lv_workers v' = lv_workers v" "laneIdx (lv_d v') = laneIdx (lv_d v)"
    "lanes v' = (lanes v)[?k := (lanes v ! ?k)\<lparr>ch_buf := ch_buf (lanes v ! ?k) @ [ev]\<rparr>]"
    using send e by simp_all
  have "fifo_at v' j" if "j < length (lanes v)" for j
  proof (cases "j = ?k")
    case True
    then have "lanes v' ! j = (lanes v ! j)\<lparr>ch_buf := ch_buf (lanes v ! j) @ [ev]\<rparr>"
      and "lv_accepted v' j = lv_accepted v j @ [ev]" using that v' by simp_all
    moreover have "\<not> ch_closed (lanes v ! j)" "laneIdx (lv_d v) ev = j" using e True by simp_all
    ultimately show ?thesis using fifo_inv_at [OF inv that] unfolding fifo_at_def v'(2,3,4) by simp
  next
    case False
    then have "lanes v' ! j = lanes v ! j" and "lv_accepted v' j = lv_accepted v j" using v' by simp_all
    with fifo_inv_at [OF inv that] show ?thesis unfolding fifo_at_def v'(2,3,4) by simp
  qed
  then show ?thesis using v'(5) by (simp add: fifo_inv_def)
next
  case (take i ev d')
  then obtain xs where e: "ch_buf (lanes v ! i) = ev # xs"
    "d' = (lv_d v)\<lparr>d_lanes := (lanes v)[i := (lanes v ! i)\<lparr>ch_buf := xs\<rparr>]\<rparr>"
    by (auto simp: worker_take_Some)
  with take inv show ?thesis by (auto simp: fifo_inv_def fifo_at_def nth_list_update)
next
  case (drop as ev bs d')
  then have "lane_send (lv_d v) ev = Some (d', False)" by simp
  from lane_send_cases [OF this] have "d' = lv_d v" by simp
  with drop inv show ?thesis by (auto simp: fifo_inv_def fifo_at_def)
next
  case (worker_exit i)
  then show ?thesis using inv by (auto simp: fifo_inv_def fifo_at_def worker_ends_iff)
qed (use inv in \<open>auto simp: fifo_inv_def fifo_at_def\<close>)

subsection \<open>The depth counter\<close>

fun pending_sub :: "worker \<Rightarrow> int" where
  "pending_sub (WGot _) = 1"
| "pending_sub _ = 0"

fun pending_add :: "dispatch_pc \<Rightarrow> int" where
  "pending_add (DSent _) = 1"
| "pending_add _ = 0"

definition total_queued :: "lanes_view \<Rightarrow> int" where
  "total_queued v = (\<Sum>i < length (lanes v). int (length (ch_buf (lanes v ! i))))"

definition depth_inv :: "lanes_view \<Rightarrow> bool" where
  "depth_inv v \<longleftrightarrow> d_queueDepth (lv_d v) =
     total_queued v + (\<Sum>i < length (lanes v). pending_sub (lv_workers v i)) - sum_list (map pending_add (lv_readers v))"

lemma sum_upd:
  fixes f g :: "nat \<Rightarrow> int"
  assumes "i < n" and "\<And>j. j < n \<Longrightarrow> j \<noteq> i \<Longrightarrow> f j = g j"
  shows "(\<Sum>j<n. f j) = (\<Sum>j<n. g j) + (f i - g i)"
proof -
  have "(\<Sum>j<n. f j) - (\<Sum>j<n. g j) = (\<Sum>j<n. f j - g j)" by (simp add: sum_subtractf)
  also have "\<dots> = (\<Sum>j<n. if j = i then f i - g i else 0)"
    using assms(2) by (intro sum.cong) auto
  also have "\<dots> = f i - g i" using assms(1) by simp
  finally show ?thesis by simp
qed

lemma queued_update:
  assumes "i < length ls"
  shows "(\<Sum>j < length ls. int (length (ch_buf (ls[i := ch] ! j)))) =
    (\<Sum>j < length ls. int (length (ch_buf (ls ! j)))) + (int (length (ch_buf ch)) - int (length (ch_buf (ls ! i))))"
  using assms by (subst sum_upd [of i]) auto

lemma pending_update:
  assumes "(i :: nat) < n"
  shows "(\<Sum>j < n. pending_sub ((w(i := x)) j)) = (\<Sum>j < n. pending_sub (w j)) + (pending_sub x - pending_sub (w i))"
  using assms by (subst sum_upd [of i]) auto

lemma depth_inv_step:
  assumes step: "lane_step v v'" and lock: "lock_inv v" and n: "int (length (lanes v)) < 2 ^ 32"
    and inv: "depth_inv v"
  shows "depth_inv v'"
  using step
proof cases
  case (send as ev bs d')
  then have "lane_send (lv_d v) ev = Some (d', True)" by simp
  note e = lane_send_cases [OF this, simplified] and i = laneIdx_less [OF lock n, of ev]
  have "total_queued v' = total_queued v + 1"
    using send e queued_update [OF i] by (simp add: total_queued_def)
  then show ?thesis using send e inv by (simp add: depth_inv_def)
next
  case (take i ev d')
  then obtain xs where e: "ch_buf (lanes v ! i) = ev # xs"
    "d' = (lv_d v)\<lparr>d_lanes := (lanes v)[i := (lanes v ! i)\<lparr>ch_buf := xs\<rparr>]\<rparr>"
    by (auto simp: worker_take_Some)
  have "total_queued v' = total_queued v - 1"
    using take e queued_update [of i "lanes v"] by (simp add: total_queued_def)
  then show ?thesis using take e inv by (simp add: depth_inv_def pending_update del: fun_upd_apply)
next
  case (drop as ev bs d')
  then have "lane_send (lv_d v) ev = Some (d', False)" by simp
  from lane_send_cases [OF this] have "d' = lv_d v" by simp
  with drop inv show ?thesis by (simp add: depth_inv_def total_queued_def)
qed (use inv in \<open>auto simp: depth_inv_def total_queued_def pending_update add_depth_def
      SetDrainTimeout_def close_lanes_def simp del: fun_upd_apply\<close>)


subsection \<open>Reachable states\<close>

definition lane_count :: "int \<Rightarrow> nat" where
  "lane_count n = (if n \<le> 0 then 64 else nat n)"

lemma start_inv:
  "length (lanes (start_view n q)) = lane_count n" "lock_inv (start_view n q)" "fifo_inv (start_view n q)"
  "depth_inv (start_view n q)"
  by (auto simp: start_view_def NewDispatcher_def Let_def lane_count_def lock_inv_def fifo_inv_def fifo_at_def
      depth_inv_def total_queued_def make_chan_def chan_wf_def)

lemma lane_reach_inv:
  assumes "lane_reach n q v" and n: "n < 2 ^ 32"
  shows "length (lanes v) = lane_count n \<and> lock_inv v \<and> fifo_inv v \<and> depth_inv v"
  using assms(1)
proof induction
  case init
  then show ?case by (simp add: start_inv)
next
  case (step v v')
  have "int (length (lanes v)) < 2 ^ 32" using step.IH n by (auto simp: lane_count_def)
  with step show ?case
    using lock_inv_step fifo_inv_step depth_inv_step by metis
qed

lemma lane_reach_steps: "lane_step\<^sup>*\<^sup>* v v' \<Longrightarrow> lane_reach n q v \<Longrightarrow> lane_reach n q v'"
  by (induction rule: rtranclp_induct) (auto intro: lane_reach.step)

text \<open>A whole call of \<^verbatim>\<open>Dispatch\<close> that accepts is the three steps in a row.\<close>

lemma Dispatch_is_path:
  assumes "lv_closer v = CloseNot" "Dispatch (lv_d v) ev = Some (d', True)"
  shows "\<exists>v'. lane_step\<^sup>*\<^sup>* v v' \<and> lv_d v' = d' \<and> lv_readers v' = lv_readers v"
proof -
  from assms(2) obtain d1 where d1: "\<not> d_closed (lv_d v)" "lane_send (lv_d v) ev = Some (d1, True)" "d' = add_depth d1 1"
    by (auto simp: Dispatch_def split: if_splits option.splits prod.splits bool.splits)
  let ?v1 = "v\<lparr>lv_readers := DReady ev # lv_readers v\<rparr>"
  let ?v2 = "?v1\<lparr>lv_d := d1, lv_readers := [] @ DSent ev # lv_readers v,
    lv_accepted := (lv_accepted ?v1)(laneIdx (lv_d ?v1) ev := lv_accepted ?v1 (laneIdx (lv_d ?v1) ev) @ [ev])\<rparr>"
  let ?v3 = "?v2\<lparr>lv_d := add_depth (lv_d ?v2) 1, lv_readers := [] @ lv_readers v\<rparr>"
  have "lane_step v ?v1" using assms(1) d1 by (intro lane_step.enter) auto
  moreover have "lane_step ?v1 ?v2" using d1 by (intro lane_step.send [of _ "[]"]) auto
  moreover have "lane_step ?v2 ?v3" by (rule lane_step.incremented [of _ "[]" ev]) simp
  ultimately have "lane_step\<^sup>*\<^sup>* v ?v3" by (meson r_into_rtranclp rtranclp_trans)
  then show ?thesis using d1(3) by (intro exI [of _ ?v3]) simp
qed

subsection \<open>Draining\<close>

fun worker_weight :: "worker \<Rightarrow> nat" where
  "worker_weight WDone = 0"
| "worker_weight WIdle = 1"
| "worker_weight (WBusy _) = 2"
| "worker_weight (WGot _) = 3"

definition lane_work :: "lanes_view \<Rightarrow> nat" where
  "lane_work v = (\<Sum>i < length (lanes v). 3 * length (ch_buf (lanes v ! i)) + worker_weight (lv_workers v i))"

lemma lane_work_less:
  assumes "i < length (lanes v)" "length (lanes v') = length (lanes v)"
    and "\<And>j. j \<noteq> i \<Longrightarrow> lanes v' ! j = lanes v ! j \<and> lv_workers v' j = lv_workers v j"
    and "3 * length (ch_buf (lanes v' ! i)) + worker_weight (lv_workers v' i) <
      3 * length (ch_buf (lanes v ! i)) + worker_weight (lv_workers v i)"
  shows "lane_work v' < lane_work v"
  unfolding lane_work_def assms(2)
proof (rule sum_strict_mono_ex1)
  show "\<forall>j\<in>{..<length (lanes v)}. 3 * length (ch_buf (lanes v' ! j)) + worker_weight (lv_workers v' j) \<le>
    3 * length (ch_buf (lanes v ! j)) + worker_weight (lv_workers v j)"
  proof
    fix j
    show "3 * length (ch_buf (lanes v' ! j)) + worker_weight (lv_workers v' j) \<le>
      3 * length (ch_buf (lanes v ! j)) + worker_weight (lv_workers v j)"
      using assms(3) [of j] assms(4) by (cases "j = i") auto
  qed
qed (use assms in auto)

text \<open>Once the channels are closed, every worker that is not done has a step, and it is progress.\<close>

lemma worker_progress:
  assumes lock: "lock_inv v" and i: "i < length (lanes v)" "lv_workers v i \<noteq> WDone"
    and closed: "lv_closer v \<in> {CloseDrain, CloseDone}"
  shows "\<exists>v'. lane_step v v' \<and> lane_work v' < lane_work v \<and> lv_closer v' = lv_closer v \<and>
    lv_accepted v' = lv_accepted v"
proof (cases "lv_workers v i")
  case WIdle
  have cl: "ch_closed (lanes v ! i)" using lock i closed by (simp add: lock_inv_def)
  show ?thesis
  proof (cases "ch_buf (lanes v ! i)")
    case Nil
    let ?v = "v\<lparr>lv_workers := (lv_workers v)(i := WDone)\<rparr>"
    have "lane_step v ?v"
      using i WIdle Nil cl by (intro lane_step.worker_exit) (simp_all add: worker_ends_iff)
    moreover have "lane_work ?v < lane_work v" using i WIdle by (intro lane_work_less [of i]) auto
    ultimately show ?thesis by (intro exI [of _ ?v]) simp
  next
    case (Cons ev xs)
    let ?d = "(lv_d v)\<lparr>d_lanes := (lanes v)[i := (lanes v ! i)\<lparr>ch_buf := xs\<rparr>]\<rparr>"
    let ?v = "v\<lparr>lv_d := ?d, lv_workers := (lv_workers v)(i := WGot ev)\<rparr>"
    have "lane_step v ?v"
      using i WIdle Cons by (intro lane_step.take) (simp_all add: worker_take_Some)
    moreover have "lane_work ?v < lane_work v" using i WIdle Cons by (intro lane_work_less [of i]) auto
    ultimately show ?thesis by (intro exI [of _ ?v]) simp
  qed
next
  case (WGot ev)
  let ?v = "v\<lparr>lv_d := add_depth (lv_d v) (-1), lv_workers := (lv_workers v)(i := WBusy ev)\<rparr>"
  have "lane_step v ?v" using i WGot by (intro lane_step.decremented) auto
  moreover have "lane_work ?v < lane_work v" using i WGot by (intro lane_work_less [of i]) auto
  ultimately show ?thesis by (intro exI [of _ ?v]) simp
next
  case (WBusy ev)
  let ?v = "v\<lparr>lv_workers := (lv_workers v)(i := WIdle), lv_handled := (lv_handled v)(i := lv_handled v i @ [ev])\<rparr>"
  have "lane_step v ?v" using i WBusy by (intro lane_step.handle) auto
  moreover have "lane_work ?v < lane_work v" using i WBusy by (intro lane_work_less [of i]) auto
  ultimately show ?thesis by (intro exI [of _ ?v]) simp
qed (use i in simp)

lemma drain_ends:
  assumes "lane_reach n q v" "n < 2 ^ 32" "lv_closer v \<in> {CloseDrain, CloseDone}"
  shows "\<exists>v'. lane_step\<^sup>*\<^sup>* v v' \<and> (\<forall>i < length (lanes v'). lv_workers v' i = WDone) \<and> lv_accepted v' = lv_accepted v"
  using assms
proof (induction "lane_work v" arbitrary: v rule: less_induct)
  case less
  note inv = lane_reach_inv [OF less.prems(1,2)]
  show ?case
  proof (cases "\<forall>i < length (lanes v). lv_workers v i = WDone")
    case False
    then obtain i where "i < length (lanes v)" "lv_workers v i \<noteq> WDone" by blast
    from worker_progress [OF _ this less.prems(3)] inv obtain v1 where v1: "lane_step v v1"
      "lane_work v1 < lane_work v" "lv_closer v1 = lv_closer v" "lv_accepted v1 = lv_accepted v" by blast
    have "lane_reach n q v1" using less.prems(1) v1(1) by (rule lane_reach.step)
    from less.hyps [OF v1(2) this less.prems(2)] v1 less.prems(3) obtain v' where
      "lane_step\<^sup>*\<^sup>* v1 v'" "\<forall>i < length (lanes v'). lv_workers v' i = WDone" "lv_accepted v' = lv_accepted v" by auto
    then show ?thesis using v1(1) by (meson converse_rtranclp_into_rtranclp)
  qed blast
qed


section \<open>Properties\<close>

lemma lane_reach_len: "lane_reach n q v \<Longrightarrow> n < 2 ^ 32 \<Longrightarrow> length (lanes v) = lane_count n"
  by (simp add: lane_reach_inv)

lemma filter_other_lane:
  assumes "fifo_at v i" "i \<noteq> ShardIndex k (d_numLanes (lv_d v))"
  shows "filter (\<lambda>e. lane_key e = k) (lv_accepted v i) = []"
  using assms by (auto simp: fifo_at_def filter_empty_conv laneIdx_def)

text \<open>
  C8. Order per routing key: in every interleaving, each lane has handled, holds and queues
  exactly the events it accepted, in the order it accepted them, and all accepted events of
  one routing key are in one lane, the one its hash selects. Events of a routing key are
  therefore handled in the order in which they were dispatched, none twice and none
  skipped.
\<close>

theorem lanes_keep_order:
  assumes "lane_reach n q v" "n < 2 ^ 32" "i < lane_count n"
  shows "lv_accepted v i = lv_handled v i @ in_hand (lv_workers v i) @ ch_buf (lanes v ! i) \<and>
    prefix (filter (\<lambda>e. lane_key e = k) (lv_handled v i)) (filter (\<lambda>e. lane_key e = k) (lv_accepted v i)) \<and>
    (i \<noteq> ShardIndex k (d_numLanes (lv_d v)) \<longrightarrow> filter (\<lambda>e. lane_key e = k) (lv_accepted v i) = [])"
proof -
  have at: "fifo_at v i"
    using lane_reach_inv [OF assms(1,2)] assms(3) by (simp add: fifo_inv_at)
  then have eq: "lv_accepted v i = lv_handled v i @ in_hand (lv_workers v i) @ ch_buf (lanes v ! i)"
    by (simp add: fifo_at_def)
  then have "prefix (filter (\<lambda>e. lane_key e = k) (lv_handled v i)) (filter (\<lambda>e. lane_key e = k) (lv_accepted v i))"
    by (simp add: prefix_def)
  with eq filter_other_lane [OF at] show ?thesis by blast
qed

text \<open>One lane of one place, and an event that passes through it.\<close>

definition demo_ev :: encrypted_event where
  "demo_ev = zero_event\<lparr>ev_RoutingKey := ''k''\<rparr>"

definition demo_sent :: lanes_view where
  "demo_sent = (start_view 1 1)\<lparr>lv_readers := [DSent demo_ev],
     lv_d := (NewDispatcher 1 1)\<lparr>d_lanes := [\<lparr>ch_buf = [demo_ev], ch_cap = 1, ch_closed = False\<rparr>]\<rparr>,
     lv_accepted := (\<lambda>_. [])(0 := [demo_ev])\<rparr>"

lemma demo_sent_reach: "lane_reach 1 1 demo_sent"
proof -
  let ?v0 = "start_view 1 1" and ?v1 = "(start_view 1 1)\<lparr>lv_readers := [DReady demo_ev]\<rparr>"
  have "lane_step ?v0 ?v1"
    using lane_step.enter [of ?v0 demo_ev] by (simp add: start_view_def NewDispatcher_def)
  moreover have "lane_step ?v1 demo_sent"
  proof -
    have "lane_send (lv_d ?v1) demo_ev =
      Some ((NewDispatcher 1 1)\<lparr>d_lanes := [\<lparr>ch_buf = [demo_ev], ch_cap = 1, ch_closed = False\<rparr>]\<rparr>, True)"
      by (simp add: lane_send_def start_view_def NewDispatcher_def laneIdx_def ShardIndex_def make_chan_def try_send_def)
    from lane_step.send [of ?v1 "[]", OF _ this] show ?thesis
      by (simp add: demo_sent_def start_view_def laneIdx_def ShardIndex_def NewDispatcher_def)
  qed
  ultimately show ?thesis using lane_reach.init lane_reach.step by blast
qed

theorem lanes_keep_order_witness:
  "lv_accepted demo_sent 0 = lv_handled demo_sent 0 @ in_hand (lv_workers demo_sent 0) @ ch_buf (lanes demo_sent ! 0) \<and>
    lv_accepted demo_sent 0 = [demo_ev]"
  using lanes_keep_order [OF demo_sent_reach, of 0] by (simp add: lane_count_def) (simp add: demo_sent_def)

text \<open>
  C21. No interleaving of dispatches, workers and \<^verbatim>\<open>Close\<close> sends on a closed channel: the read
  lock held by \<^verbatim>\<open>Dispatch\<close> and the write lock taken by \<^verbatim>\<open>Close\<close> exclude the panic. Once \<^verbatim>\<open>Close\<close>
  has closed the lanes, no \<^verbatim>\<open>Dispatch\<close> is under way and every later one is refused.
\<close>

theorem dispatch_never_panics:
  assumes "lane_reach n q v" "n < 2 ^ 32"
  shows "\<not> lv_panic v \<and> Dispatch (lv_d v) ev \<noteq> None \<and>
    (lv_closer v \<in> {CloseDrain, CloseDone} \<longrightarrow> lv_readers v = [] \<and> Dispatch (lv_d v) ev = Some (lv_d v, False))"
proof -
  have inv: "lock_inv v" "length (lanes v) = lane_count n" using lane_reach_inv [OF assms] by auto
  have "laneIdx (lv_d v) ev < length (lanes v)"
    by (rule laneIdx_less [OF inv(1)]) (use assms(2) inv(2) in \<open>auto simp: lane_count_def\<close>)
  then have "lane_send (lv_d v) ev \<noteq> None" if "\<not> d_closed (lv_d v)"
    using that inv(1) by (auto simp: lane_send_panic lock_inv_def)
  then show ?thesis
    using inv(1) by (auto simp: lock_inv_def Dispatch_def split: option.split prod.split bool.split)
qed

theorem dispatch_never_panics_witness:
  "Dispatch (lv_d demo_sent) demo_ev \<noteq> None"
  using dispatch_never_panics [OF demo_sent_reach] by simp

text \<open>
  C22. Shutdown drains: from every reachable state in which \<^verbatim>\<open>Close\<close> has closed the lanes, the
  workers can run to their end, and when they have, every event that was ever accepted has
  been handled, in order, and the queue depth reads zero. No worker can get stuck on the
  way: as long as one is not done, it has a step, and each such step uses up work. (The
  handler is a step of its own; that it returns is up to the pipeline.)
\<close>

theorem close_drains_everything:
  assumes "lane_reach n q v" "n < 2 ^ 32" "lv_closer v \<in> {CloseDrain, CloseDone}"
  shows "(\<exists>v'. lane_step\<^sup>*\<^sup>* v v' \<and>
      (\<forall>i < lane_count n. lv_workers v' i = WDone \<and> lv_handled v' i = lv_accepted v i) \<and>
      QueueDepth (lv_d v') = 0) \<and>
    (\<forall>i < lane_count n. lv_workers v i \<noteq> WDone \<longrightarrow> (\<exists>v'. lane_step v v' \<and> lane_work v' < lane_work v))"
proof -
  have live: "\<exists>v'. lane_step v v' \<and> lane_work v' < lane_work v" if "i < lane_count n" "lv_workers v i \<noteq> WDone" for i
    using worker_progress [of v i] lane_reach_inv [OF assms(1,2)] assms(3) that by auto
  from drain_ends [OF assms] obtain v' where v': "lane_step\<^sup>*\<^sup>* v v'"
    "\<forall>i < length (lanes v'). lv_workers v' i = WDone" "lv_accepted v' = lv_accepted v" by blast
  have reach: "lane_reach n q v'" using v'(1) assms(1) by (rule lane_reach_steps)
  note inv = lane_reach_inv [OF reach assms(2)]
  have at: "fifo_at v' i" "lv_workers v' i = WDone" if "i < lane_count n" for i
    using inv v'(2) that by (auto simp: fifo_inv_def)
  have "lv_handled v' i = lv_accepted v i" if "i < lane_count n" for i
    using at [OF that] v'(3) by (simp add: fifo_at_def)
  moreover have "QueueDepth (lv_d v') = 0"
  proof -
    have pos: "0 < lane_count n" by (simp add: lane_count_def)
    have "ch_closed (lanes v' ! 0)" using at [OF pos] unfolding fifo_at_def by blast
    moreover have "lanes v' ! 0 \<in> set (lanes v')" using inv pos by simp
    ultimately have "lv_readers v' = []" using inv unfolding lock_inv_def by blast
    moreover have "total_queued v' = 0" using at inv by (simp add: total_queued_def fifo_at_def)
    moreover have "(\<Sum>i < length (lanes v'). pending_sub (lv_workers v' i)) = 0" using at inv by simp
    ultimately show ?thesis using inv by (simp add: depth_inv_def QueueDepth_def)
  qed
  ultimately show ?thesis using v'(1) at(2) live by blast
qed

lemma demo_drain: "\<exists>v. lane_reach 1 1 v \<and> lv_closer v = CloseDrain \<and> lv_accepted v 0 = [demo_ev]"
proof -
  let ?v1 = "demo_sent\<lparr>lv_d := add_depth (lv_d demo_sent) 1, lv_readers := []\<rparr>"
  let ?v2 = "?v1\<lparr>lv_d := (lv_d ?v1)\<lparr>d_closed := True\<rparr>, lv_closer := CloseFlagged\<rparr>"
  let ?v3 = "?v2\<lparr>lv_d := close_lanes (lv_d ?v2), lv_closer := CloseDrain\<rparr>"
  have "lane_step demo_sent ?v1"
    using lane_step.incremented [of demo_sent "[]" demo_ev "[]"] by (simp add: demo_sent_def)
  moreover have "lane_step ?v1 ?v2"
    by (rule lane_step.close_flag) (simp_all add: demo_sent_def NewDispatcher_def start_view_def)
  moreover have "lane_step ?v2 ?v3" by (rule lane_step.close_chans) simp_all
  ultimately have "lane_reach 1 1 ?v3" using demo_sent_reach lane_reach.step by meson
  moreover have "lv_accepted ?v3 0 = [demo_ev]" by (simp add: demo_sent_def)
  ultimately show ?thesis by (intro exI [of _ ?v3]) simp
qed

theorem close_drains_everything_witness:
  "\<exists>v v'. lv_closer v = CloseDrain \<and> lane_step\<^sup>*\<^sup>* v v' \<and> lv_handled v' 0 = [demo_ev]"
proof -
  obtain v where v: "lane_reach 1 1 v" "lv_closer v = CloseDrain" "lv_accepted v 0 = [demo_ev]"
    using demo_drain by blast
  then have "(1 :: int) < 2 ^ 32" "lv_closer v \<in> {CloseDrain, CloseDone}" by simp_all
  from close_drains_everything [OF v(1) this] v show ?thesis by (auto simp: lane_count_def)
qed

text \<open>
  The depth gauge is exact up to the operations under way: it equals the number of
  queued events plus one for every worker between its receive and its decrement, minus one
  for every dispatch between its send and its increment.
\<close>

lemma queue_depth_exact:
  assumes "lane_reach n q v" "n < 2 ^ 32"
  shows "QueueDepth (lv_d v) =
    total_queued v + (\<Sum>i < lane_count n. pending_sub (lv_workers v i)) - sum_list (map pending_add (lv_readers v))"
  using lane_reach_inv [OF assms] by (simp add: depth_inv_def QueueDepth_def)

text \<open>
  Since the counter is incremented after the event is already visible to the worker, it
  can read -1 for a moment.
\<close>

lemma queue_depth_can_be_negative: "\<exists>v. lane_reach 1 1 v \<and> QueueDepth (lv_d v) = -1"
proof -
  let ?d = "(NewDispatcher 1 1)\<lparr>d_lanes := [make_chan 1]\<rparr>"
  let ?v1 = "demo_sent\<lparr>lv_d := ?d, lv_workers := (lv_workers demo_sent)(0 := WGot demo_ev)\<rparr>"
  let ?v2 = "?v1\<lparr>lv_d := add_depth (lv_d ?v1) (-1), lv_workers := (lv_workers ?v1)(0 := WBusy demo_ev)\<rparr>"
  have "lane_step demo_sent ?v1"
    by (rule lane_step.take) (simp_all add: demo_sent_def start_view_def NewDispatcher_def worker_take_Some make_chan_def)
  moreover have "lane_step ?v1 ?v2" by (rule lane_step.decremented) (simp_all add: make_chan_def)
  moreover have "QueueDepth (lv_d ?v2) = -1" by (simp add: QueueDepth_def add_depth_def NewDispatcher_def)
  ultimately show ?thesis using demo_sent_reach lane_reach.step by blast
qed

end
