(* ===== verification/Gateway.thy ===== *)
theory Gateway
  imports Dispatcher Pipeline Unwrap_Client
begin

text \<open>
  How \<^verbatim>\<open>cmd/server/main.go\<close> puts the parts together: the goroutine that consumes the event bus
  (schema filter, session invalidation, subscriber check, dispatch) and the lane workers
  that run the pipeline. \<open>ConsumeEvent\<close> is one round of the consumer's loop, \<open>WorkerRound\<close> one
  round of a lane worker. The start and the shutdown of \<^verbatim>\<open>main\<close> are theory \<open>Server\<close>, the interleaving of these
  rounds with the requests is theory \<open>System\<close>.
\<close>

section \<open>Definitions\<close>

record gateway =
  g_hub :: hub
  g_disp :: dispatcher
  g_metrics :: bool
  g_received :: nat
  g_noSubscriber :: nat
  g_dropped :: nat

definition count_if :: "gateway \<Rightarrow> nat \<Rightarrow> nat" where
  "count_if g n = (if g_metrics g then Suc n else n)"

text \<open>\<open>None\<close>: the dispatcher panicked.\<close>

definition ConsumeEvent ::
  "client_order \<Rightarrow> router \<Rightarrow> string \<Rightarrow> gateway \<Rightarrow> encrypted_event \<Rightarrow> gateway option" where
  "ConsumeEvent ord evRouter invalidationType g0 ev =
     (let g = g0\<lparr>g_received := count_if g0 (g_received g0)\<rparr>
      in if \<not> IsSchemaSupported ev then Some g
         else if ev_Type ev = invalidationType
         then Some (g\<lparr>g_hub := fst (InvalidateUser ord (g_hub g) (ev_TenantID ev) (ev_UserID ev))\<rparr>)
         else
           (let routingKey = BuildKey evRouter (ev_TenantID ev) (ev_AppID ev) (ev_TopicID ev)
            in if \<not> HasSubscribers (g_hub g) routingKey
               then Some (g\<lparr>g_noSubscriber := count_if g (g_noSubscriber g)\<rparr>)
               else case Dispatch (g_disp g) (ev\<lparr>ev_RoutingKey := routingKey\<rparr>) of
                      None \<Rightarrow> None
                    | Some (d, True) \<Rightarrow> Some (g\<lparr>g_disp := d\<rparr>)
                    | Some (d, False) \<Rightarrow> Some (g\<lparr>g_disp := d, g_dropped := count_if g (g_dropped g)\<rparr>)))"

definition WorkerRound ::
  "'u unwrap \<Rightarrow> gcm \<Rightarrow> crypto_cfg \<Rightarrow> router \<Rightarrow> client_order \<Rightarrow> nat \<Rightarrow> gateway \<times> 'u pipe_state \<Rightarrow> gateway \<times> 'u pipe_state" where
  "WorkerRound unwrap gcm_open cfg evRouter ord i s =
     (case worker_take (g_disp (fst s)) i of
        None \<Rightarrow> s
      | Some (ev, d) \<Rightarrow>
          (case HandleEvent unwrap gcm_open cfg evRouter ord ev (g_hub (fst s), snd s) of
             (h, st) \<Rightarrow> ((fst s)\<lparr>g_disp := add_depth d (-1), g_hub := h\<rparr>, st)))"

section \<open>Lemmas\<close>

text \<open>An event for an idle lane with room goes in and is what the worker takes out.\<close>

lemma dispatch_then_take:
  assumes "\<not> d_closed d" "laneIdx d ev < length (d_lanes d)" "d_lanes d ! laneIdx d ev = make_chan c" "0 < c"
  shows "\<exists>d'. Dispatch d ev = Some (d', True) \<and> worker_take d' (laneIdx d ev) = Some (ev, add_depth d 1)"
proof -
  let ?i = "laneIdx d ev"
  let ?d = "add_depth (d\<lparr>d_lanes := (d_lanes d)[?i := (make_chan c)\<lparr>ch_buf := [ev]\<rparr>]\<rparr>) 1"
  have "Dispatch d ev = Some (?d, True)"
    using assms by (simp add: Dispatch_def lane_send_def try_send_def make_chan_def Let_def)
  moreover have "worker_take ?d ?i = Some (ev, add_depth d 1)"
    using assms list_update_id [of "d_lanes d" ?i]
    by (auto simp: worker_take_Some add_depth_def make_chan_def intro!: exI [of _ "[]"])
  ultimately show ?thesis by blast
qed

section \<open>Properties\<close>


text \<open>A gateway whose routing keys are the topics, over the hub of the examples.\<close>

definition topic_router :: router where
  "topic_router = \<lparr>r_template = ''{topic}'', r_matcherRegex = [Grp Topic], r_tenantIdx = -1, r_appIdx = -1, r_topicIdx = 1\<rparr>"

definition demo_gateway :: gateway where
  "demo_gateway = \<lparr>g_hub = demo_hub, g_disp = NewDispatcher 1 1, g_metrics = True, g_received = 0, g_noSubscriber = 0,
     g_dropped = 0\<rparr>"

lemma topic_router_key: "BuildKey topic_router t a p = p"
proof -
  have "strings_ReplaceAll ''{topic}'' ''{topic}'' p = p @ strings_ReplaceAll [] ''{topic}'' p"
    using ReplaceAll_hit [of "''{topic}''" "[]" p] by simp
  then show ?thesis by (simp add: BuildKey_def topic_router_def strings_ReplaceAll.simps [of "_ # _"])
qed


text \<open>
  Session revocation does not queue: an invalidation event leaves the lanes alone, closes
  every live connection of the named user before the consumer takes the next event, so that
  none is live afterwards, and leaves every connection of other users as it was.
\<close>

theorem invalidation_is_immediate:
  assumes "hub_reach ord n lim (g_hub g) R" "range_order ord" "n < 2 ^ 32"
    and "IsSchemaSupported ev" "ev_Type ev = invalidationType"
  shows "\<exists>g'. ConsumeEvent ord r invalidationType g ev = Some g' \<and> g_disp g' = g_disp g \<and>
    user_conns (g_hub g') R (ev_TenantID ev) (ev_UserID ev) = {} \<and>
    (\<forall>c. if c \<in> user_conns (g_hub g) R (ev_TenantID ev) (ev_UserID ev) then Done (h_heap (g_hub g') c)
         else h_heap (g_hub g') c = h_heap (g_hub g) c)"
proof -
  let ?t = "ev_TenantID ev" and ?u = "ev_UserID ev" and ?h = "g_hub g"
  note inv = reach_parts [OF assms(1-3)]
  have gone: "user_live ?h (live ?h R) ?t ?u = user_conns ?h R ?t ?u"
    using inv(7) by (auto simp: user_live_def user_conns_def user_matches_def)
  define h' where "h' = fst (InvalidateUser ord ?h ?t ?u)"
  have heap: "h_heap h' = (\<lambda>c. if c \<in> user_conns ?h R ?t ?u then retire (h_heap ?h c) else h_heap ?h c)"
    using InvalidateUser_inv [OF inv(1) assms(2), of ?t ?u] by (simp add: gone h'_def)
  then have "user_conns h' R ?t ?u = {}" by (auto simp: user_conns_def live_def)
  moreover have "Done (retire (h_heap ?h c))" for c
    using retire_wf [OF inv(6) [of c]] by (simp add: Done_def client_wf_def)
  ultimately show ?thesis
    using assms(4,5) heap by (simp add: ConsumeEvent_def Let_def h'_def [symmetric])
qed

theorem invalidation_is_immediate_witness:
  "\<exists>g'. ConsumeEvent (\<lambda>xs. xs) topic_router ''auth.invalidate'' demo_gateway
      (zero_event\<lparr>ev_Type := ''auth.invalidate'', ev_TenantID := ''t'', ev_UserID := ''u''\<rparr>) = Some g' \<and>
    user_conns (g_hub g') {0} ''t'' ''u'' = {} \<and> Done (h_heap (g_hub g') 0)"
proof -
  let ?ev = "zero_event\<lparr>ev_Type := ''auth.invalidate'', ev_TenantID := ''t'', ev_UserID := ''u''\<rparr>"
  have hub: "g_hub demo_gateway = demo_hub" by (simp add: demo_gateway_def)
  have reach: "hub_reach (\<lambda>xs. xs) 2 demo_limits (g_hub demo_gateway) {0}" using demo_reach by (simp add: hub)
  have ev: "IsSchemaSupported ?ev" "ev_Type ?ev = ''auth.invalidate''"
    by (simp_all add: IsSchemaSupported_def zero_event_def)
  from invalidation_is_immediate [OF reach range_order_id demo_shards ev, of topic_router]
  obtain g' where g': "ConsumeEvent (\<lambda>xs. xs) topic_router ''auth.invalidate'' demo_gateway ?ev = Some g'"
    "user_conns (g_hub g') {0} ''t'' ''u'' = {}"
    "\<forall>c. if c \<in> user_conns demo_hub {0} ''t'' ''u'' then Done (h_heap (g_hub g') c) else h_heap (g_hub g') c = h_heap demo_hub c"
    by (auto simp: hub)
  from g'(3) [rule_format, of 0] have "Done (h_heap (g_hub g') 0)" by (simp add: demo_user)
  with g' show ?thesis by blast
qed

end
