(* ===== verification/Api.thy ===== *)
theory Api
  imports Http_Server Config Gateway
begin

text \<open>
  The event stream endpoint, \<^verbatim>\<open>internal/api/handlers.go\<close>: \<^verbatim>\<open>NewHandler\<close>, \<^verbatim>\<open>SetShuttingDown\<close>, \<^verbatim>\<open>admit\<close> and \<^verbatim>\<open>Events\<close>.
  The ticket validator is the parameter \<open>validate\<close> (the interface \<^verbatim>\<open>TicketValidator\<close>, theory \<open>Auth\<close>); neither
  implementation looks at the context, so the handshake timeout has no effect on it and is left out. A new
  client object is given its heap reference and its random connection identifier as inputs. \<open>admit\<close> and the
  opening of the stream are functions; the requests in progress are an interleaving of their atomic sections
  with the operations of the rest of the gateway on the hub (\<open>api_step\<close>).
\<close>

section \<open>Definitions\<close>

subsection \<open>The handler\<close>

record ready_cache =
  rd_cachedAt :: "int option"
  rd_allReady :: bool
  rd_details :: "(string, string) gomap option"

record conn_metrics =
  ConnectionsActive :: int
  ConnectionsTotal :: nat
  ClientsDisconnectedTotal :: nat

record handler =
  hd_cfg :: config
  hd_hub :: hub
  hd_router :: router
  hd_metrics :: "conn_metrics option"
  hd_startTime :: int
  hd_isShuttingDown :: bool
  hd_readyCache :: ready_cache
  hd_handshakeSem :: "unit chan"

definition NewHandler :: "config \<Rightarrow> hub \<Rightarrow> router \<Rightarrow> conn_metrics option \<Rightarrow> int \<Rightarrow> handler" where
  "NewHandler cfg h r m now =
     (let maxPending = (if rc_MaxPendingHandshakes (cf_RateLimit cfg) \<le> 0 then 1000
                        else rc_MaxPendingHandshakes (cf_RateLimit cfg))
      in \<lparr>hd_cfg = cfg, hd_hub = h, hd_router = r, hd_metrics = m, hd_startTime = now, hd_isShuttingDown = False,
          hd_readyCache = \<lparr>rd_cachedAt = None, rd_allReady = False, rd_details = None\<rparr>,
          hd_handshakeSem = make_chan (nat maxPending)\<rparr>)"

definition SetShuttingDown :: "handler \<Rightarrow> bool \<Rightarrow> handler" where
  "SetShuttingDown h b = h\<lparr>hd_isShuttingDown := b\<rparr>"

subsection \<open>Admission\<close>

datatype admit_error = Saturated | TicketError auth_error | HubError hub_error

text \<open>\<^verbatim>\<open>err.Error()\<close> of the hub's errors.\<close>

fun hub_error_text :: "hub_error \<Rightarrow> string" where
  "hub_error_text ErrMaxTopicsExceeded = ''nombre maximal de topics par connexion d'' @ [CHR 0xC3, CHR 0xA9] @ ''pass'' @ [CHR 0xC3, CHR 0xA9]"
| "hub_error_text ErrHubClosed = ''le hub SSE est arr'' @ [CHR 0xC3, CHR 0xAA] @ ''t'' @ [CHR 0xC3, CHR 0xA9]"
| "hub_error_text (ErrMaxConnectionsReached n) = ''plafond maximal de connexions simultan'' @ [CHR 0xC3, CHR 0xA9] @ ''es atteint sur la passerelle ('' @ strconv_FormatInt n @ '')''"
| "hub_error_text (ErrMaxConnectionsPerUserReached n) = ''nombre maximal de connexions simultan'' @ [CHR 0xC3, CHR 0xA9] @ ''es d'' @ [CHR 0xC3, CHR 0xA9] @ ''pass'' @ [CHR 0xC3, CHR 0xA9] @ '' pour cet utilisateur (max: '' @ strconv_FormatInt n @ '')''"
| "hub_error_text (ErrMaxConnectionsPerTenantReached n) = ''nombre maximal de connexions simultan'' @ [CHR 0xC3, CHR 0xA9] @ ''es d'' @ [CHR 0xC3, CHR 0xA9] @ ''pass'' @ [CHR 0xC3, CHR 0xA9] @ '' pour ce tenant (max: '' @ strconv_FormatInt n @ '')''"

type_synonym ticket_check = "int \<Rightarrow> string \<Rightarrow> auth_error + capability"

definition ticket_param :: "handler \<Rightarrow> string" where
  "ticket_param h =
     (if au_QueryParameter (cf_Auth (hd_cfg h)) = [] then ''ticket'' else au_QueryParameter (cf_Auth (hd_cfg h)))"

definition raw_ticket :: "handler \<Rightarrow> request \<Rightarrow> string" where
  "raw_ticket h r = Values_Get (ParseQuery (r_RawQuery r)) (ticket_param h)"

text \<open>Ticket and advisory limits: the answer of a refusal, or the capability.\<close>

definition admit_check ::
  "ticket_check \<Rightarrow> handler \<Rightarrow> int \<Rightarrow> request \<Rightarrow> writer \<Rightarrow> (writer \<times> admit_error) + capability" where
  "admit_check validate h now r w =
     (if raw_ticket h r = []
      then Inl (respondError w 401 (''ticket manquant'') (''le param'' @ [CHR 0xC3, CHR 0xA8] @ ''tre d'' @ [CHR 0x27] @ ''URL '' @ [CHR 0x27] @ ticket_param h @ [CHR 0x27] @ '' est obligatoire''), TicketError ErrMissingTicket)
      else case validate now (raw_ticket h r) of
        Inl err \<Rightarrow> Inl (respondError w 401 (''authentification '' @ [CHR 0xC3, CHR 0xA9] @ ''chou'' @ [CHR 0xC3, CHR 0xA9] @ ''e'') (''ticket invalide ou expir'' @ [CHR 0xC3, CHR 0xA9]), TicketError err)
      | Inr cap \<Rightarrow>
          (case CheckLimits (hd_hub h) (cap_TenantID cap) (cap_UserID cap) (int (length (cap_Topics cap))) of
             Some err \<Rightarrow> Inl (respondError w 429 (''limite de connexions atteinte'') (hub_error_text err), HubError err)
           | None \<Rightarrow> Inr cap))"

definition routing_keys :: "router \<Rightarrow> capability \<Rightarrow> string list" where
  "routing_keys r cap = map (BuildKey r (cap_TenantID cap) (cap_AppID cap)) (cap_Topics cap)"

definition new_connection :: "handler \<Rightarrow> capability \<Rightarrow> string \<Rightarrow> client" where
  "new_connection h cap connectionID =
     NewClient connectionID (cap_UserID cap) (cap_TenantID cap) (routing_keys (hd_router h) cap)
       (hb_ClientQueueSize (cf_Hub (hd_cfg h))) (hb_ClientSlowPolicy (cf_Hub (hd_cfg h))) True"

text \<open>Creation of the client and registration in the hub.\<close>

definition admit_register ::
  "handler \<Rightarrow> ref \<Rightarrow> string \<Rightarrow> capability \<Rightarrow> writer \<Rightarrow> handler \<times> ((writer \<times> admit_error) + ref)" where
  "admit_register h c connectionID cap w =
     (let h1 = h\<lparr>hd_hub := alloc_client (hd_hub h) c (new_connection h cap connectionID)\<rparr>
      in case Hub_Register (hd_hub h1) c (routing_keys (hd_router h) cap) of
           Inl err \<Rightarrow> (h1, Inl (respondError w 429 ([CHR 0xC3, CHR 0xA9] @ ''chec d'' @ [CHR 0x27] @ ''enregistrement de la connexion'') (hub_error_text err), HubError err))
         | Inr hub \<Rightarrow> (h1\<lparr>hd_hub := hub\<rparr>, Inr c))"

text \<open>The handshake semaphore: acquired with a \<^verbatim>\<open>select\<close> and released by the deferred receive.\<close>

definition acquire_handshake :: "handler \<Rightarrow> handler option" where
  "acquire_handshake h =
     (case try_send (hd_handshakeSem h) () of Sent sem \<Rightarrow> Some (h\<lparr>hd_handshakeSem := sem\<rparr>) | _ \<Rightarrow> None)"

definition release_handshake :: "handler \<Rightarrow> handler" where
  "release_handshake h =
     (case try_recv (hd_handshakeSem h) of Recv _ sem \<Rightarrow> h\<lparr>hd_handshakeSem := sem\<rparr> | _ \<Rightarrow> h)"

definition saturated :: "writer \<Rightarrow> writer" where
  "saturated w = respondError w 503 (''serveur satur'' @ [CHR 0xC3, CHR 0xA9]) (''le nombre maximal de handshakes simultan'' @ [CHR 0xC3, CHR 0xA9] @ ''s est atteint'')"

definition admit ::
  "ticket_check \<Rightarrow> handler \<Rightarrow> int \<Rightarrow> ref \<Rightarrow> string \<Rightarrow> request \<Rightarrow> writer \<Rightarrow> handler \<times> ((writer \<times> admit_error) + ref)" where
  "admit validate h now c connectionID r w =
     (case acquire_handshake h of
        None \<Rightarrow> (h, Inl (saturated w, Saturated))
      | Some h1 \<Rightarrow>
          (case admit_check validate h1 now r w of
             Inl refusal \<Rightarrow> (release_handshake h1, Inl refusal)
           | Inr cap \<Rightarrow>
               (case admit_register h1 c connectionID cap w of
                  (h2, result) \<Rightarrow> (release_handshake h2, result))))"

subsection \<open>The stream\<close>

definition MethodGet :: string where
  "MethodGet = ''GET''"

text \<open>The guards of \<^verbatim>\<open>Events\<close> before the admission: the answer if the request is turned away.\<close>

definition events_guard :: "handler \<Rightarrow> request \<Rightarrow> writer \<Rightarrow> writer option" where
  "events_guard h r w =
     (if hd_isShuttingDown h then Some (respondError w 503 (''service en cours d'' @ [CHR 0x27] @ ''arr'' @ [CHR 0xC3, CHR 0xAA] @ ''t'') (''les nouvelles connexions sont temporairement refus'' @ [CHR 0xC3, CHR 0xA9] @ ''es''))
      else if r_Method r \<noteq> MethodGet then Some (respondError w 405 (''m'' @ [CHR 0xC3, CHR 0xA9] @ ''thode non autoris'' @ [CHR 0xC3, CHR 0xA9] @ ''e'') (''seule la m'' @ [CHR 0xC3, CHR 0xA9] @ ''thode GET est accept'' @ [CHR 0xC3, CHR 0xA9] @ ''e pour le flux SSE''))
      else None)"

text \<open>
  \<^verbatim>\<open>int(Interval.Seconds())\<close>, truncated; for intervals below 2^22 seconds the floating-point value it is taken
  from does not round up to the next second.
\<close>

definition heartbeat_seconds :: "int \<Rightarrow> int" where
  "heartbeat_seconds i = (if i < 0 then - (- i div time_Second) else i div time_Second)"

definition write_timeout :: "config \<Rightarrow> int" where
  "write_timeout cfg =
     (if hb_ClientWriteTimeout (cf_Hub cfg) \<le> 0 then 5 * time_Second else hb_ClientWriteTimeout (cf_Hub cfg))"

definition sse_headers :: "writer \<Rightarrow> writer" where
  "sse_headers w =
     Header_Set (Header_Set (Header_Set w ''Content-Type'' ''text/event-stream; charset=utf-8'')
       ''Cache-Control'' ''no-cache, no-transform'') ''X-Accel-Buffering'' ''no''"

text \<open>A frame written with its deadline, at a time; a write that fails is the end of the stream.\<close>

definition write_frame :: "config \<Rightarrow> int \<Rightarrow> frame \<Rightarrow> writer \<Rightarrow> writer" where
  "write_frame cfg now f w = Write (rc_SetWriteDeadline w (now + write_timeout cfg)) (Data f)"

definition connected_frame :: "handler \<Rightarrow> ref \<Rightarrow> frame" where
  "connected_frame h c =
     NewConnectedFrame (cl_ID (h_heap (hd_hub h) c)) (heartbeat_seconds (bt_Interval (cf_Heartbeat (hd_cfg h))))"

definition open_metrics :: "handler \<Rightarrow> handler" where
  "open_metrics h = h\<lparr>hd_metrics := map_option (\<lambda>m. m\<lparr>ConnectionsActive := ConnectionsActive m + 1,
     ConnectionsTotal := ConnectionsTotal m + 1\<rparr>) (hd_metrics h)\<rparr>"

definition close_metrics :: "handler \<Rightarrow> handler" where
  "close_metrics h = h\<lparr>hd_metrics := map_option (\<lambda>m. m\<lparr>ConnectionsActive := ConnectionsActive m - 1,
     ClientsDisconnectedTotal := ClientsDisconnectedTotal m + 1\<rparr>) (hd_metrics h)\<rparr>"

definition unregister_conn :: "handler \<Rightarrow> ref \<Rightarrow> handler" where
  "unregister_conn h c = h\<lparr>hd_hub := Unregister (hd_hub h) (Some c)\<rparr>"

text \<open>
  The rest of \<^verbatim>\<open>Events\<close>: the first frame, one round of the loop in which a frame was received, and the return
  from the loop with its deferred calls. \<open>ok\<close> says whether the write succeeded; the result says whether the
  stream goes on.
\<close>

definition stream_open :: "handler \<Rightarrow> int \<Rightarrow> bool \<Rightarrow> ref \<Rightarrow> writer \<Rightarrow> handler \<times> writer \<times> bool" where
  "stream_open h now ok c w =
     (if ok then (open_metrics h, write_frame (hd_cfg h) now (connected_frame h c) (sse_headers w), True)
      else (unregister_conn h c, rc_SetWriteDeadline (sse_headers w) (now + write_timeout (hd_cfg h)), False))"

definition stream_leave :: "handler \<Rightarrow> ref \<Rightarrow> handler" where
  "stream_leave h c = unregister_conn (close_metrics h) c"

definition stream_frame :: "handler \<Rightarrow> int \<Rightarrow> bool \<Rightarrow> ref \<Rightarrow> frame \<Rightarrow> writer \<Rightarrow> handler \<times> writer \<times> bool" where
  "stream_frame h now ok c f w =
     (let h1 = h\<lparr>hd_hub := drain_one (hd_hub h) c\<rparr>
      in if ok then (h1, write_frame (hd_cfg h) now f w, True)
         else (stream_leave h1 c, rc_SetWriteDeadline w (now + write_timeout (hd_cfg h)), False))"

text \<open>The channel of a client's frames was closed, or its close notification was given.\<close>

definition stream_over :: "handler \<Rightarrow> ref \<Rightarrow> bool" where
  "stream_over h c \<longleftrightarrow> Done (h_heap (hd_hub h) c) \<or> try_recv (cl_Send (h_heap (hd_hub h) c)) = Closed"

subsection \<open>Requests in progress\<close>

datatype phase = Arrived | Admitting | Registering | Accepted | Streaming | Finished

text \<open>\<open>cn_sent\<close> records the frames taken from the queue and written.\<close>

record conn =
  cn_phase :: phase
  cn_req :: request
  cn_writer :: writer
  cn_cap :: "capability option"
  cn_ref :: "ref option"
  cn_sent :: "frame list"

record api =
  ap_handler :: handler
  ap_conns :: "conn list"

definition arriving :: "request \<Rightarrow> writer \<Rightarrow> conn" where
  "arriving r w = \<lparr>cn_phase = Arrived, cn_req = r, cn_writer = w, cn_cap = None, cn_ref = None, cn_sent = []\<rparr>"

definition finished :: "conn \<Rightarrow> writer \<Rightarrow> conn" where
  "finished k w = k\<lparr>cn_phase := Finished, cn_writer := w\<rparr>"

text \<open>The rate limiter in front of the endpoint (theory \<open>Rate_Limit\<close>) may turn a request away.\<close>

definition rate_limited :: "writer \<Rightarrow> writer" where
  "rate_limited w = respondError w 429 (''limite de d'' @ [CHR 0xC3, CHR 0xA9] @ ''bit d'' @ [CHR 0xC3, CHR 0xA9] @ ''pass'' @ [CHR 0xC3, CHR 0xA9] @ ''e'') (''trop de requ'' @ [CHR 0xC3, CHR 0xAA] @ ''tes soumises, veuillez r'' @ [CHR 0xC3, CHR 0xA9] @ ''it'' @ [CHR 0xC3, CHR 0xA9] @ ''rer ult'' @ [CHR 0xC3, CHR 0xA9] @ ''rieurement'')"

definition enter_step :: "handler \<Rightarrow> conn \<Rightarrow> handler \<times> conn" where
  "enter_step h k =
     (case events_guard h (cn_req k) (cn_writer k) of
        Some w \<Rightarrow> (h, finished k w)
      | None \<Rightarrow>
          (case acquire_handshake h of
             None \<Rightarrow> (h, finished k (saturated (cn_writer k)))
           | Some h1 \<Rightarrow> (h1, k\<lparr>cn_phase := Admitting\<rparr>)))"

definition check_phase :: "ticket_check \<Rightarrow> int \<Rightarrow> handler \<Rightarrow> conn \<Rightarrow> handler \<times> conn" where
  "check_phase validate now h k =
     (case admit_check validate h now (cn_req k) (cn_writer k) of
        Inl (w, err) \<Rightarrow> (release_handshake h, finished k w)
      | Inr cap \<Rightarrow> (h, k\<lparr>cn_phase := Registering, cn_cap := Some cap\<rparr>))"

definition register_phase :: "ref \<Rightarrow> string \<Rightarrow> capability \<Rightarrow> handler \<Rightarrow> conn \<Rightarrow> handler \<times> conn" where
  "register_phase c connectionID cap h k =
     (case admit_register h c connectionID cap (cn_writer k) of
        (h1, Inl (w, err)) \<Rightarrow> (release_handshake h1, finished k w)
      | (h1, Inr c') \<Rightarrow> (release_handshake h1, k\<lparr>cn_phase := Accepted, cn_ref := Some c'\<rparr>))"

definition open_phase :: "int \<Rightarrow> bool \<Rightarrow> ref \<Rightarrow> handler \<Rightarrow> conn \<Rightarrow> handler \<times> conn" where
  "open_phase now ok c h k =
     (case stream_open h now ok c (cn_writer k) of
        (h1, w, goes_on) \<Rightarrow> (h1, k\<lparr>cn_phase := (if goes_on then Streaming else Finished), cn_writer := w\<rparr>))"

definition frame_phase :: "int \<Rightarrow> bool \<Rightarrow> ref \<Rightarrow> frame \<Rightarrow> handler \<Rightarrow> conn \<Rightarrow> handler \<times> conn" where
  "frame_phase now ok c f h k =
     (case stream_frame h now ok c f (cn_writer k) of
        (h1, w, goes_on) \<Rightarrow>
          (h1, k\<lparr>cn_phase := (if goes_on then Streaming else Finished), cn_writer := w,
                 cn_sent := (if goes_on then cn_sent k @ [f] else cn_sent k)\<rparr>))"

definition put :: "api \<Rightarrow> nat \<Rightarrow> handler \<times> conn \<Rightarrow> api" where
  "put a i r = a\<lparr>ap_handler := fst r, ap_conns := (ap_conns a)[i := snd r]\<rparr>"

definition admitted_refs :: "api \<Rightarrow> ref set" where
  "admitted_refs a = {c. \<exists>k \<in> set (ap_conns a). cn_ref k = Some c}"

text \<open>
  The other components work on the hub: deliveries, heartbeats, revocations and the close. A stream may leave
  at any time, its request being cancelled; it must be able to when it is over.
\<close>

inductive api_step :: "client_order \<Rightarrow> ticket_check \<Rightarrow> api \<Rightarrow> api \<Rightarrow> bool"
  for ord :: client_order and validate :: ticket_check where
  arrive: "api_step ord validate a (a\<lparr>ap_conns := ap_conns a @ [arriving r (endpoint_writer fresh r)]\<rparr>)"
| throttle: "i < length (ap_conns a) \<Longrightarrow> cn_phase (ap_conns a ! i) = Arrived \<Longrightarrow>
    api_step ord validate a
      (put a i (ap_handler a, finished (ap_conns a ! i) (rate_limited (cn_writer (ap_conns a ! i)))))"
| enter: "i < length (ap_conns a) \<Longrightarrow> cn_phase (ap_conns a ! i) = Arrived \<Longrightarrow>
    api_step ord validate a (put a i (enter_step (ap_handler a) (ap_conns a ! i)))"
| check: "i < length (ap_conns a) \<Longrightarrow> cn_phase (ap_conns a ! i) = Admitting \<Longrightarrow>
    api_step ord validate a (put a i (check_phase validate now (ap_handler a) (ap_conns a ! i)))"
| register: "i < length (ap_conns a) \<Longrightarrow> cn_phase (ap_conns a ! i) = Registering \<Longrightarrow> cn_cap (ap_conns a ! i) = Some cap \<Longrightarrow>
    fresh_client (hd_hub (ap_handler a)) (admitted_refs a) c (new_connection (ap_handler a) cap connectionID) \<Longrightarrow>
    api_step ord validate a (put a i (register_phase c connectionID cap (ap_handler a) (ap_conns a ! i)))"
| open_stream: "i < length (ap_conns a) \<Longrightarrow> cn_phase (ap_conns a ! i) = Accepted \<Longrightarrow> cn_ref (ap_conns a ! i) = Some c \<Longrightarrow>
    api_step ord validate a (put a i (open_phase now ok c (ap_handler a) (ap_conns a ! i)))"
| deliver: "i < length (ap_conns a) \<Longrightarrow> cn_phase (ap_conns a ! i) = Streaming \<Longrightarrow> cn_ref (ap_conns a ! i) = Some c \<Longrightarrow>
    DequeueFrame (h_heap (hd_hub (ap_handler a)) c) = Some (f, cl) \<Longrightarrow>
    api_step ord validate a (put a i (frame_phase now ok c f (ap_handler a) (ap_conns a ! i)))"
| leave: "i < length (ap_conns a) \<Longrightarrow> cn_phase (ap_conns a ! i) = Streaming \<Longrightarrow> cn_ref (ap_conns a ! i) = Some c \<Longrightarrow>
    api_step ord validate a
      (put a i (stream_leave (ap_handler a) c, finished (ap_conns a ! i) (cn_writer (ap_conns a ! i))))"
| broadcast: "api_step ord validate a
    (a\<lparr>ap_handler := (ap_handler a)\<lparr>hd_hub :=
       fst (ConditionalBroadcast ord (hd_hub (ap_handler a)) () key (\<lambda>_. ((), built :: build_result)))\<rparr>\<rparr>)"
| heartbeat: "api_step ord validate a
    (a\<lparr>ap_handler := (ap_handler a)\<lparr>hd_hub := BroadcastHeartbeat ord (hd_hub (ap_handler a)) f\<rparr>\<rparr>)"
| revoke: "api_step ord validate a
    (a\<lparr>ap_handler := (ap_handler a)\<lparr>hd_hub := fst (InvalidateUser ord (hd_hub (ap_handler a)) t u)\<rparr>\<rparr>)"
| shut_down: "api_step ord validate a (a\<lparr>ap_handler := SetShuttingDown (ap_handler a) b\<rparr>)"
| close_hub: "api_step ord validate a
    (a\<lparr>ap_handler := (ap_handler a)\<lparr>hd_hub := Hub_Close ord (hd_hub (ap_handler a))\<rparr>\<rparr>)"

inductive api_reach :: "client_order \<Rightarrow> ticket_check \<Rightarrow> api \<Rightarrow> api \<Rightarrow> bool"
  for ord :: client_order and validate :: ticket_check and a0 :: api where
  start: "api_reach ord validate a0 a0"
| step: "api_reach ord validate a0 a \<Longrightarrow> api_step ord validate a a' \<Longrightarrow> api_reach ord validate a0 a'"

inductive_cases api_step_elim: "api_step ord validate a a'"

end
