(* ===== verification/Api_Reach.thy ===== *)
theory Api_Reach
  imports Api
begin

text \<open>
  The invariant of the requests in progress: the hub stays within the states of theory \<open>Hub_Reach\<close>, the
  semaphore counts the admissions under way, and every request is in the state its phase promises. The
  properties of the endpoint follow.
\<close>

section \<open>Definitions\<close>

text \<open>What no operation changes of a client object once it is allocated.\<close>

definition keeps_client :: "client \<Rightarrow> client \<Rightarrow> bool" where
  "keeps_client cl cl' \<longleftrightarrow> same_identity cl' cl \<and> (cl_unregistered cl \<longrightarrow> cl_unregistered cl')"

definition keeps_heap :: "hub \<Rightarrow> hub \<Rightarrow> bool" where
  "keeps_heap h h' \<longleftrightarrow> (\<forall>c. keeps_client (h_heap h c) (h_heap h' c))"

definition granted :: "ticket_check \<Rightarrow> handler \<Rightarrow> request \<Rightarrow> capability \<Rightarrow> bool" where
  "granted validate h r cap \<longleftrightarrow> (\<exists>now. validate now (raw_ticket h r) = Inr cap)"

text \<open>The client object carries the user, the tenant and the routing keys of the capability.\<close>

definition speaks_for :: "handler \<Rightarrow> ref \<Rightarrow> capability \<Rightarrow> bool" where
  "speaks_for h c cap \<longleftrightarrow>
     cl_UserID (h_heap (hd_hub h) c) = cap_UserID cap \<and> cl_TenantID (h_heap (hd_hub h) c) = cap_TenantID cap \<and>
     cl_Topics (h_heap (hd_hub h) c) = routing_keys (hd_router h) cap"

definition unanswered :: "writer \<Rightarrow> bool" where
  "unanswered w \<longleftrightarrow> wr_status w = None \<and> wr_body w = []"

definition refused_with :: "writer \<Rightarrow> nat set \<Rightarrow> bool" where
  "refused_with w codes \<longleftrightarrow> (\<exists>code \<in> codes. wr_status w = Some code) \<and>
     map_of (wr_header w) ''Content-Type'' = Some ''application/json; charset=utf-8'' \<and>
     (\<exists>message details. wr_body w = error_response message details @ [LF])"

definition streamed :: "handler \<Rightarrow> ref \<Rightarrow> conn \<Rightarrow> bool" where
  "streamed h c k \<longleftrightarrow> wr_status (cn_writer k) = Some 200 \<and>
     map_of (wr_header (cn_writer k)) ''Content-Type'' = Some ''text/event-stream; charset=utf-8'' \<and>
     wr_body (cn_writer k) = concat (map Data (connected_frame h c # cn_sent k))"

definition refusal_codes :: "nat set" where
  "refusal_codes = {401, 405, 429, 503}"

text \<open>What a phase promises of a request.\<close>

fun phase_ok :: "phase \<Rightarrow> handler \<Rightarrow> conn \<Rightarrow> bool" where
  "phase_ok Arrived h k = (cn_ref k = None \<and> cn_sent k = [] \<and> unanswered (cn_writer k))"
| "phase_ok Admitting h k = (cn_ref k = None \<and> cn_sent k = [] \<and> unanswered (cn_writer k))"
| "phase_ok Registering h k = (cn_ref k = None \<and> cn_cap k \<noteq> None \<and> cn_sent k = [] \<and> unanswered (cn_writer k))"
| "phase_ok Accepted h k = (cn_ref k \<noteq> None \<and> cn_sent k = [] \<and> unanswered (cn_writer k))"
| "phase_ok Streaming h k = (case cn_ref k of None \<Rightarrow> False | Some c \<Rightarrow> streamed h c k)"
| "phase_ok Finished h k =
     (case cn_ref k of
        None \<Rightarrow> refused_with (cn_writer k) refusal_codes
      | Some c \<Rightarrow> cl_unregistered (h_heap (hd_hub h) c) \<and> (unanswered (cn_writer k) \<or> streamed h c k))"

definition client_ok :: "ticket_check \<Rightarrow> handler \<Rightarrow> conn \<Rightarrow> bool" where
  "client_ok validate h k \<longleftrightarrow>
     (case cn_cap k of None \<Rightarrow> cn_ref k = None
      | Some cap \<Rightarrow> granted validate h (cn_req k) cap \<and>
          (case cn_ref k of None \<Rightarrow> True | Some c \<Rightarrow> speaks_for h c cap))"

definition no_deadline :: "writer \<Rightarrow> bool" where
  "no_deadline w \<longleftrightarrow> wr_wrappers w \<noteq> [] \<and> wr_deadline w = None"

definition conn_ok :: "ticket_check \<Rightarrow> handler \<Rightarrow> conn \<Rightarrow> bool" where
  "conn_ok validate h k \<longleftrightarrow> client_ok validate h k \<and> no_deadline (cn_writer k) \<and> phase_ok (cn_phase k) h k"

definition holds_handshake :: "conn \<Rightarrow> bool" where
  "holds_handshake k \<longleftrightarrow> cn_phase k = Admitting \<or> cn_phase k = Registering"

definition sem_ok :: "nat \<Rightarrow> api \<Rightarrow> bool" where
  "sem_ok N a \<longleftrightarrow> chan_open (hd_handshakeSem (ap_handler a)) \<and> ch_cap (hd_handshakeSem (ap_handler a)) = N \<and>
     length (ch_buf (hd_handshakeSem (ap_handler a))) = length (filter holds_handshake (ap_conns a))"

definition gauge_ok :: "api \<Rightarrow> bool" where
  "gauge_ok a \<longleftrightarrow> (\<forall>m. hd_metrics (ap_handler a) = Some m \<longrightarrow>
     ConnectionsActive m = int (length (filter (\<lambda>k. cn_phase k = Streaming) (ap_conns a))))"

definition own_refs :: "api \<Rightarrow> bool" where
  "own_refs a \<longleftrightarrow> (\<forall>i j c. i < length (ap_conns a) \<longrightarrow> j < length (ap_conns a) \<longrightarrow>
     cn_ref (ap_conns a ! i) = Some c \<longrightarrow> cn_ref (ap_conns a ! j) = Some c \<longrightarrow> i = j)"

section \<open>What the hub's operations keep\<close>

named_theorems heap_keeps \<open>operations that keep the client objects\<close>

lemma keeps_client_refl [simp]: "keeps_client cl cl"
  by (simp add: keeps_client_def)

lemma keeps_heap_refl [simp]: "keeps_heap h h"
  by (simp add: keeps_heap_def)

lemma keeps_heap_trans: "keeps_heap a b \<Longrightarrow> keeps_heap b c \<Longrightarrow> keeps_heap a c"
  unfolding keeps_heap_def keeps_client_def by (blast intro: same_identity_trans)

lemma keeps_fanout [heap_keeps]:
  assumes "\<And>c. client_wf (h_heap h c)"
  shows "keeps_heap h (fst (fanout h cs f))"
  using fanout_wf(2) [of h cs f] assms
  by (auto simp: keeps_heap_def keeps_client_def same_frame_def same_clients_def fanout_heap enqueue_run_unregistered)

lemma keeps_broadcast [heap_keeps]:
  assumes "\<And>c. client_wf (h_heap h c)"
  shows "keeps_heap h (fst (ConditionalBroadcast ord h x key cb))"
  using keeps_fanout [OF assms]
  by (auto simp: ConditionalBroadcast_eq keeps_heap_def split: sum.split option.split)

lemma keeps_heartbeat [heap_keeps]:
  assumes "\<And>c. client_wf (h_heap h c)"
  shows "keeps_heap h (BroadcastHeartbeat ord h f)"
  by (simp add: BroadcastHeartbeat_eq keeps_fanout [OF assms])

lemma keeps_revoke [heap_keeps]: "keeps_heap h (fst (InvalidateUser ord h t u))"
  by (simp add: InvalidateUser_eq keeps_heap_def keeps_client_def release_matched_heap case_prod_unfold)

lemma keeps_close [heap_keeps]: "keeps_heap h (Hub_Close ord h)"
  by (simp add: keeps_heap_def keeps_client_def Hub_Close_heap Client_Close_def same_identity_def)

lemma keeps_drain [heap_keeps]: "keeps_heap h (drain_one h c)"
  by (auto simp: keeps_heap_def keeps_client_def drain_one_def DequeueFrame_keeps split: option.split)

lemma keeps_unregister [heap_keeps]: "keeps_heap h (Unregister h (Some c))"
  by (simp add: keeps_heap_def keeps_client_def Unregister_heap)

lemma reach_wf: "hub_reach ord n lm h R \<Longrightarrow> range_order ord \<Longrightarrow> n < 2 ^ 32 \<Longrightarrow> client_wf (h_heap h c)"
  using hub_reach_inv [of ord n lm h R] by (simp add: reach_inv_def hub_inv_def heap_inv_def)

section \<open>The invariant\<close>

text \<open>The change a step makes under the other requests: settings and routes stay, and so do their clients.\<close>

definition calm :: "ref set \<Rightarrow> handler \<Rightarrow> handler \<Rightarrow> bool" where
  "calm R h h' \<longleftrightarrow> hd_cfg h' = hd_cfg h \<and> hd_router h' = hd_router h \<and>
     (\<forall>c \<in> R. keeps_client (h_heap (hd_hub h) c) (h_heap (hd_hub h') c))"

lemma calm_refl [simp]: "calm R h h"
  by (simp add: calm_def)

lemma calm_trans: "calm R a b \<Longrightarrow> calm R b c \<Longrightarrow> calm R a c"
  unfolding calm_def keeps_client_def by (auto intro: same_identity_trans)

lemma calm_hub: "keeps_heap (hd_hub h) hub \<Longrightarrow> calm R h (h\<lparr>hd_hub := hub\<rparr>)"
  by (simp add: calm_def keeps_heap_def)

lemma calm_parts [simp]:
  "calm R h (release_handshake h') = calm R h h'" "calm R h (open_metrics h') = calm R h h'"
  "calm R h (close_metrics h') = calm R h h'" "acquire_handshake h' = Some h'' \<Longrightarrow> calm R h h'' = calm R h h'"
  by (auto simp: calm_def release_handshake_def acquire_handshake_def open_metrics_def close_metrics_def
      split: recv_result.splits send_result.splits)

lemma raw_ticket_cfg: "hd_cfg h' = hd_cfg h \<Longrightarrow> raw_ticket h' = raw_ticket h"
  by (simp add: raw_ticket_def ticket_param_def fun_eq_iff)

lemma conn_ok_calm:
  assumes "conn_ok validate h k" and "calm R h h'" and "\<And>c. cn_ref k = Some c \<Longrightarrow> c \<in> R"
  shows "conn_ok validate h' k"
proof -
  have cfg: "hd_cfg h' = hd_cfg h" "hd_router h' = hd_router h" using assms(2) by (simp_all add: calm_def)
  have k: "keeps_client (h_heap (hd_hub h) c) (h_heap (hd_hub h') c)" if "cn_ref k = Some c" for c
    using assms(2,3) that by (simp add: calm_def)
  have sp: "speaks_for h' c cap \<longleftrightarrow> speaks_for h c cap" if "cn_ref k = Some c" for c cap
    using k [OF that] by (auto simp: speaks_for_def keeps_client_def same_identity_def cfg)
  have st: "streamed h' c k \<longleftrightarrow> streamed h c k" if "cn_ref k = Some c" for c
    using k [OF that] by (auto simp: streamed_def connected_frame_def keeps_client_def same_identity_def cfg)
  have un: "cl_unregistered (h_heap (hd_hub h') c)" if "cn_ref k = Some c" "cl_unregistered (h_heap (hd_hub h) c)" for c
    using k [OF that(1)] that(2) by (simp add: keeps_client_def)
  have "client_ok validate h' k"
    using assms(1) sp
    by (auto simp: conn_ok_def client_ok_def granted_def raw_ticket_cfg [OF cfg(1)] split: option.splits)
  moreover have "phase_ok (cn_phase k) h' k"
    using assms(1) st un by (cases "cn_phase k") (auto simp: conn_ok_def split: option.splits)
  ultimately show ?thesis using assms(1) by (simp add: conn_ok_def)
qed

lemma client_ok_fields [simp]:
  "client_ok validate h (k\<lparr>cn_phase := p\<rparr>) = client_ok validate h k"
  "client_ok validate h (k\<lparr>cn_writer := w\<rparr>) = client_ok validate h k"
  "client_ok validate h (k\<lparr>cn_sent := fs\<rparr>) = client_ok validate h k"
  by (simp_all add: client_ok_def cong: option.case_cong)

text \<open>The steps of one request.\<close>

lemma finished_ok:
  assumes "conn_ok validate h k" "cn_ref k = None" "unanswered (cn_writer k)" "code \<in> refusal_codes"
  shows "conn_ok validate h (finished k (respondError (cn_writer k) code m d))"
proof -
  have "refused_with (respondError (cn_writer k) code m d) refusal_codes"
    using assms(3,4) by (auto simp: refused_with_def unanswered_def)
  with assms(1,2) show ?thesis
    by (simp add: conn_ok_def finished_def no_deadline_def)
qed

lemma refusal_codes_mem [simp]: "401 \<in> refusal_codes" "405 \<in> refusal_codes" "429 \<in> refusal_codes" "503 \<in> refusal_codes"
  by (simp_all add: refusal_codes_def)

lemma conn_phase:
  "conn_ok validate h k \<Longrightarrow> cn_phase k = Arrived \<Longrightarrow> cn_ref k = None \<and> unanswered (cn_writer k)"
  "conn_ok validate h k \<Longrightarrow> cn_phase k = Admitting \<Longrightarrow> cn_ref k = None \<and> unanswered (cn_writer k)"
  "conn_ok validate h k \<Longrightarrow> cn_phase k = Registering \<Longrightarrow> cn_ref k = None \<and> unanswered (cn_writer k)"
  by (simp_all add: conn_ok_def)

lemma enter_ok:
  assumes "conn_ok validate h k" "cn_phase k = Arrived"
  shows "conn_ok validate (fst (enter_step h k)) (snd (enter_step h k))" "calm R h (fst (enter_step h k))"
    "cn_ref (snd (enter_step h k)) = cn_ref k"
proof -
  have adm: "conn_ok validate h (k\<lparr>cn_phase := Admitting\<rparr>)"
    using assms by (simp add: conn_ok_def)
  have "calm UNIV h h'" if "acquire_handshake h = Some h'" for h' using that by simp
  then show "conn_ok validate (fst (enter_step h k)) (snd (enter_step h k))"
    using finished_ok [OF assms(1)] conn_phase(1) [OF assms] conn_ok_calm [OF adm, of UNIV]
    by (simp add: enter_step_def events_guard_def saturated_def split: option.split)
  show "calm R h (fst (enter_step h k))" "cn_ref (snd (enter_step h k)) = cn_ref k"
    by (simp_all add: enter_step_def finished_def split: option.split)
qed

lemma check_ok:
  assumes "conn_ok validate h k" "cn_phase k = Admitting"
  shows "conn_ok validate (fst (check_phase validate now h k)) (snd (check_phase validate now h k))"
    "calm R h (fst (check_phase validate now h k))" "cn_ref (snd (check_phase validate now h k)) = cn_ref k"
proof -
  have reg: "conn_ok validate h (k\<lparr>cn_phase := Registering, cn_cap := Some cap\<rparr>)"
    if "admit_check validate h now (cn_req k) (cn_writer k) = Inr cap" for cap
  proof -
    have "granted validate h (cn_req k) cap"
      using that by (auto simp: admit_check_def granted_def split: if_splits sum.splits option.splits)
    with assms show ?thesis by (simp add: conn_ok_def client_ok_def)
  qed
  have "conn_ok validate h (finished k w)" if "admit_check validate h now (cn_req k) (cn_writer k) = Inl (w, err)" for w err
    using that finished_ok [OF assms(1)] conn_phase(2) [OF assms]
    by (auto simp: admit_check_def split: if_splits sum.splits option.splits)
  then have "conn_ok validate (release_handshake h) (finished k w)"
    if "admit_check validate h now (cn_req k) (cn_writer k) = Inl (w, err)" for w err
    using that conn_ok_calm [of validate h "finished k w" UNIV "release_handshake h"] by simp
  with reg show "conn_ok validate (fst (check_phase validate now h k)) (snd (check_phase validate now h k))"
    by (auto simp: check_phase_def split: sum.split)
  show "calm R h (fst (check_phase validate now h k))" "cn_ref (snd (check_phase validate now h k)) = cn_ref k"
    by (auto simp: check_phase_def finished_def split: sum.split)
qed

lemma new_connection_fields [simp]:
  "cl_UserID (new_connection h cap cid) = cap_UserID cap" "cl_TenantID (new_connection h cap cid) = cap_TenantID cap"
  "cl_Topics (new_connection h cap cid) = routing_keys (hd_router h) cap" "cl_ID (new_connection h cap cid) = cid"
  by (simp_all add: new_connection_def NewClient_def Let_def)

lemma calm_alloc: "c \<notin> R \<Longrightarrow> calm R h (h\<lparr>hd_hub := alloc_client (hd_hub h) c cl\<rparr>)"
  by (auto simp: calm_def alloc_client_def)

lemma register_ok:
  assumes k: "conn_ok validate h k" "cn_phase k = Registering" "cn_cap k = Some cap" and c: "c \<notin> R"
  shows "conn_ok validate (fst (register_phase c cid cap h k)) (snd (register_phase c cid cap h k))"
    "calm R h (fst (register_phase c cid cap h k))"
proof -
  let ?h1 = "h\<lparr>hd_hub := alloc_client (hd_hub h) c (new_connection h cap cid)\<rparr>"
  have ref: "cn_ref k = None" "unanswered (cn_writer k)" using conn_phase(3) [OF k(1,2)] by simp_all
  have h1: "calm R h ?h1" using c by (rule calm_alloc)
  have heap: "h_heap hub = h_heap (hd_hub ?h1)"
    if "Hub_Register (hd_hub ?h1) c (routing_keys (hd_router h) cap) = Inr hub" for hub
    using Register_heap [OF that] by simp
  have calm: "calm R h (?h1\<lparr>hd_hub := hub\<rparr>)" if "h_heap hub = h_heap (hd_hub ?h1)" for hub
    using h1 that by (simp add: calm_def)
  have k1: "conn_ok validate ?h1 k" using conn_ok_calm [OF k(1) calm_alloc [of c "{}"]] ref by simp
  have acc: "conn_ok validate (release_handshake (?h1\<lparr>hd_hub := hub\<rparr>)) (k\<lparr>cn_phase := Accepted, cn_ref := Some c\<rparr>)"
    if "h_heap hub = h_heap (hd_hub ?h1)" for hub
  proof -
    have rel: "hd_hub (release_handshake g) = hd_hub g" "hd_cfg (release_handshake g) = hd_cfg g"
      "hd_router (release_handshake g) = hd_router g" for g
      by (simp_all add: release_handshake_def split: recv_result.split)
    have "granted validate h (cn_req k) cap" "cn_sent k = []" "no_deadline (cn_writer k)"
      using k by (simp_all add: conn_ok_def client_ok_def)
    moreover have "raw_ticket (release_handshake (?h1\<lparr>hd_hub := hub\<rparr>)) = raw_ticket h"
      by (rule raw_ticket_cfg) (simp add: rel)
    ultimately show ?thesis
      using k(3) ref that by (simp add: conn_ok_def client_ok_def granted_def speaks_for_def rel alloc_client_def)
  qed
  show "conn_ok validate (fst (register_phase c cid cap h k)) (snd (register_phase c cid cap h k))"
    using acc heap finished_ok [OF k1 ref] conn_ok_calm [of validate ?h1 _ UNIV "release_handshake ?h1"]
    by (simp add: register_phase_def admit_register_def Let_def split: sum.split)
  show "calm R h (fst (register_phase c cid cap h k))"
    using h1 calm heap by (simp add: register_phase_def admit_register_def Let_def split: sum.split)
qed

lemma unregister_parts [simp]:
  "hd_cfg (unregister_conn h c) = hd_cfg h" "hd_router (unregister_conn h c) = hd_router h"
  "hd_hub (unregister_conn h c) = Unregister (hd_hub h) (Some c)" "hd_hub (close_metrics h) = hd_hub h"
  "hd_cfg (close_metrics h) = hd_cfg h" "hd_router (close_metrics h) = hd_router h"
  "hd_hub (open_metrics h) = hd_hub h" "hd_cfg (open_metrics h) = hd_cfg h" "hd_router (open_metrics h) = hd_router h"
  by (simp_all add: unregister_conn_def close_metrics_def open_metrics_def)

lemma calm_unregister: "calm R h (unregister_conn h c)" "calm R h (stream_leave h c)"
  using keeps_unregister by (simp_all add: calm_def keeps_heap_def stream_leave_def)

lemma calm_drain: "calm R h (h\<lparr>hd_hub := drain_one (hd_hub h) c\<rparr>)"
  by (rule calm_hub) (rule keeps_drain)

lemma streamed_calm:
  assumes "calm R h h'" "c \<in> R"
  shows "streamed h' c k = streamed h c k"
  using assms by (auto simp: calm_def streamed_def connected_frame_def keeps_client_def same_identity_def)

lemma leave_ok:
  assumes k: "conn_ok validate h k" "cn_ref k = Some c" and w: "no_deadline w"
    and out: "unanswered w \<or> streamed h c (k\<lparr>cn_phase := Finished, cn_writer := w\<rparr>)"
    and h': "calm UNIV h h'" "cl_unregistered (h_heap (hd_hub h') c)"
  shows "conn_ok validate h' (k\<lparr>cn_phase := Finished, cn_writer := w\<rparr>)"
proof -
  have "client_ok validate h' k" using conn_ok_calm [OF k(1) h'(1)] by (simp add: conn_ok_def)
  then show ?thesis using k(2) w out h' by (simp add: conn_ok_def streamed_calm)
qed

lemma open_ok:
  assumes k: "conn_ok validate h k" "cn_phase k = Accepted" "cn_ref k = Some c"
  shows "conn_ok validate (fst (open_phase now ok c h k)) (snd (open_phase now ok c h k))"
    "calm R h (fst (open_phase now ok c h k))" "cn_ref (snd (open_phase now ok c h k)) = cn_ref k"
proof -
  let ?w = "cn_writer k"
  have w: "unanswered ?w" "no_deadline ?w" "cn_sent k = []" using k by (simp_all add: conn_ok_def)
  have nd: "no_deadline (sse_headers ?w)" "unanswered (sse_headers ?w)" using w
    by (simp_all add: no_deadline_def unanswered_def sse_headers_def)
  have "conn_ok validate (unregister_conn h c) (k\<lparr>cn_phase := Finished, cn_writer := sse_headers ?w\<rparr>)"
    using nd by (intro leave_ok [OF k(1,3)]) (simp_all add: calm_unregister Unregister_marks)
  moreover have "conn_ok validate (open_metrics h)
      (k\<lparr>cn_phase := Streaming, cn_writer := write_frame (hd_cfg h) now (connected_frame h c) (sse_headers ?w)\<rparr>)"
  proof -
    have "client_ok validate (open_metrics h) k"
      using conn_ok_calm [OF k(1), of UNIV "open_metrics h"] by (simp add: conn_ok_def)
    then show ?thesis
      using nd w k(3)
      by (simp add: conn_ok_def streamed_def no_deadline_def unanswered_def write_frame_def sse_headers_def
          connected_frame_def)
  qed
  ultimately show "conn_ok validate (fst (open_phase now ok c h k)) (snd (open_phase now ok c h k))"
    using nd(1) by (simp add: open_phase_def stream_open_def no_deadline_def)
  show "calm R h (fst (open_phase now ok c h k))" "cn_ref (snd (open_phase now ok c h k)) = cn_ref k"
    by (simp_all add: open_phase_def stream_open_def calm_unregister)
qed

lemma frame_ok:
  assumes k: "conn_ok validate h k" "cn_phase k = Streaming" "cn_ref k = Some c"
  shows "conn_ok validate (fst (frame_phase now ok c f h k)) (snd (frame_phase now ok c f h k))"
    "calm R h (fst (frame_phase now ok c f h k))" "cn_ref (snd (frame_phase now ok c f h k)) = cn_ref k"
proof -
  let ?w = "cn_writer k" and ?h1 = "h\<lparr>hd_hub := drain_one (hd_hub h) c\<rparr>"
  have w: "streamed h c k" "no_deadline ?w" using k by (simp_all add: conn_ok_def)
  have calm: "calm Q h (stream_leave ?h1 c)" for Q by (rule calm_trans [OF calm_drain calm_unregister(2)])
  have out: "streamed h c (k\<lparr>cn_phase := Finished, cn_writer := ?w\<rparr>)" using w(1) by (simp add: streamed_def)
  have "conn_ok validate (stream_leave ?h1 c) (k\<lparr>cn_phase := Finished, cn_writer := ?w\<rparr>)"
    by (rule leave_ok [OF k(1,3) w(2) disjI2 [OF out] calm]) (simp add: stream_leave_def Unregister_marks)
  moreover have "conn_ok validate ?h1
      (k\<lparr>cn_phase := Streaming, cn_writer := write_frame (hd_cfg h) now f ?w, cn_sent := cn_sent k @ [f]\<rparr>)"
  proof -
    have "client_ok validate ?h1 k" using conn_ok_calm [OF k(1) calm_drain, of UNIV] by (simp add: conn_ok_def)
    moreover have "streamed h c (k\<lparr>cn_phase := Streaming, cn_writer := write_frame (hd_cfg h) now f ?w,
        cn_sent := cn_sent k @ [f]\<rparr>)"
      using w by (simp add: streamed_def write_frame_def no_deadline_def)
    then have "streamed ?h1 c (k\<lparr>cn_phase := Streaming, cn_writer := write_frame (hd_cfg h) now f ?w,
        cn_sent := cn_sent k @ [f]\<rparr>)"
      using streamed_calm [OF calm_drain, of c UNIV] by blast
    ultimately show ?thesis using w(2) k(3) by (simp add: conn_ok_def no_deadline_def write_frame_def)
  qed
  ultimately show "conn_ok validate (fst (frame_phase now ok c f h k)) (snd (frame_phase now ok c f h k))"
    using w(2) by (simp add: frame_phase_def stream_frame_def Let_def no_deadline_def)
  show "calm R h (fst (frame_phase now ok c f h k))" "cn_ref (snd (frame_phase now ok c f h k)) = cn_ref k"
    using calm calm_drain by (simp_all add: frame_phase_def stream_frame_def Let_def)
qed

lemma leaving_ok:
  assumes k: "conn_ok validate h k" "cn_phase k = Streaming" "cn_ref k = Some c"
  shows "conn_ok validate (stream_leave h c) (finished k (cn_writer k))" "calm R h (stream_leave h c)"
proof -
  have w: "streamed h c k" "no_deadline (cn_writer k)" using k by (simp_all add: conn_ok_def)
  have out: "streamed h c (k\<lparr>cn_phase := Finished, cn_writer := cn_writer k\<rparr>)" using w(1) by (simp add: streamed_def)
  show "conn_ok validate (stream_leave h c) (finished k (cn_writer k))"
    unfolding finished_def
    by (rule leave_ok [OF k(1,3) w(2) disjI2 [OF out] calm_unregister(2)]) (simp add: stream_leave_def Unregister_marks)
  show "calm R h (stream_leave h c)" by (rule calm_unregister(2))
qed

subsection \<open>All requests\<close>

definition conns_ok :: "ticket_check \<Rightarrow> api \<Rightarrow> bool" where
  "conns_ok validate a \<longleftrightarrow> (\<forall>k \<in> set (ap_conns a). conn_ok validate (ap_handler a) k)"

lemma conns_ok_nth: "conns_ok validate a \<Longrightarrow> i < length (ap_conns a) \<Longrightarrow> conn_ok validate (ap_handler a) (ap_conns a ! i)"
  by (simp add: conns_ok_def)

lemma ref_admitted: "k \<in> set (ap_conns a) \<Longrightarrow> cn_ref k = Some c \<Longrightarrow> c \<in> admitted_refs a"
  by (auto simp: admitted_refs_def)

lemma conns_ok_calm:
  assumes "conns_ok validate a" "calm (admitted_refs a) (ap_handler a) h'"
  shows "conns_ok validate (a\<lparr>ap_handler := h'\<rparr>)"
  using assms conn_ok_calm [OF _ assms(2)] by (auto simp: conns_ok_def intro: ref_admitted)

lemma conns_ok_put:
  assumes "conns_ok validate a" "calm (admitted_refs a) (ap_handler a) h'" "conn_ok validate h' k'"
  shows "conns_ok validate (put a i (h', k'))"
proof -
  have "conn_ok validate h' k" if "k \<in> set (ap_conns a)" for k
    using conn_ok_calm [OF _ assms(2)] that assms(1) by (auto simp: conns_ok_def intro: ref_admitted)
  with assms(3) show ?thesis by (auto simp: conns_ok_def put_def dest!: set_update_subset_insert [THEN subsetD])
qed

lemma conns_ok_step:
  assumes "api_step ord validate a a'" and ok: "conns_ok validate a"
    and wf: "\<And>c. client_wf (h_heap (hd_hub (ap_handler a)) c)"
  shows "conns_ok validate a'"
  using assms(1)
proof cases
  case (arrive r fresh)
  then show ?thesis using ok
    by (auto simp: conns_ok_def conn_ok_def arriving_def client_ok_def no_deadline_def unanswered_def)
next
  case (throttle i)
  then show ?thesis
    using conns_ok_put [OF ok calm_refl] finished_ok [OF conns_ok_nth [OF ok]] conn_phase(1) [OF conns_ok_nth [OF ok]]
    by (simp add: rate_limited_def)
next
  case (enter i)
  note k = conns_ok_nth [OF ok enter(2)] enter(3)
  show ?thesis using conns_ok_put [OF ok enter_ok(2,1) [OF k]] enter(1) by simp
next
  case (check i now)
  note k = conns_ok_nth [OF ok check(2)] check(3)
  show ?thesis using conns_ok_put [OF ok check_ok(2,1) [OF k]] check(1) by simp
next
  case (register i cap c cid)
  note k = conns_ok_nth [OF ok register(2)] register(3,4)
  have "c \<notin> admitted_refs a" using register(5) by (simp add: fresh_client_def)
  then show ?thesis using conns_ok_put [OF ok register_ok(2,1) [OF k]] register(1) by simp
next
  case (open_stream i c now b)
  note k = conns_ok_nth [OF ok open_stream(2)] open_stream(3,4)
  show ?thesis using conns_ok_put [OF ok open_ok(2,1) [OF k]] open_stream(1) by simp
next
  case (deliver i c f cl now b)
  note k = conns_ok_nth [OF ok deliver(2)] deliver(3,4)
  show ?thesis using conns_ok_put [OF ok frame_ok(2,1) [OF k]] deliver(1) by simp
next
  case (leave i c)
  note k = conns_ok_nth [OF ok leave(2)] leave(3,4)
  show ?thesis using conns_ok_put [OF ok leaving_ok(2,1) [OF k]] leave(1) by simp
next
  case (shut_down b)
  then show ?thesis using conns_ok_calm [OF ok] by (simp add: calm_def SetShuttingDown_def)
qed (use conns_ok_calm [OF ok calm_hub] wf in \<open>simp_all add: heap_keeps\<close>)

subsection \<open>The hub\<close>

lemma admitted_refs_nth: "c \<in> admitted_refs a \<longleftrightarrow> (\<exists>j < length (ap_conns a). cn_ref (ap_conns a ! j) = Some c)"
  unfolding admitted_refs_def by (force simp: in_set_conv_nth)

lemma admitted_put_nth:
  "i < length (ap_conns a) \<Longrightarrow> d \<in> admitted_refs (put a i r) \<longleftrightarrow>
     cn_ref (snd r) = Some d \<or> (\<exists>j < length (ap_conns a). j \<noteq> i \<and> cn_ref (ap_conns a ! j) = Some d)"
  by (auto simp: admitted_refs_nth put_def nth_list_update)

lemma admitted_put_same:
  "i < length (ap_conns a) \<Longrightarrow> cn_ref (snd r) = cn_ref (ap_conns a ! i) \<Longrightarrow> admitted_refs (put a i r) = admitted_refs a"
  by (rule set_eqI, subst admitted_put_nth) (auto simp: admitted_refs_nth)

lemma admitted_put_new:
  "i < length (ap_conns a) \<Longrightarrow> cn_ref (ap_conns a ! i) = None \<Longrightarrow> cn_ref (snd r) = Some c \<Longrightarrow>
     admitted_refs (put a i r) = insert c (admitted_refs a)"
  by (rule set_eqI, subst admitted_put_nth) (auto simp: admitted_refs_nth)

lemma hub_handshake [simp]:
  "hd_hub (release_handshake h) = hd_hub h" "acquire_handshake h = Some h' \<Longrightarrow> hd_hub h' = hd_hub h"
  by (auto simp: release_handshake_def acquire_handshake_def split: recv_result.splits send_result.splits)

lemma put_handler [simp]: "ap_handler (put a i r) = fst r"
  by (simp add: put_def)

lemma register_hub:
  assumes reach: "hub_reach ord n lm (hd_hub h) R" and fresh: "fresh_client (hd_hub h) R c (new_connection h cap cid)"
    and "cn_ref k = None"
  shows "hub_reach ord n lm (hd_hub (fst (register_phase c cid cap h k)))
    (case cn_ref (snd (register_phase c cid cap h k)) of None \<Rightarrow> R | Some d \<Rightarrow> insert d R)"
  using hub_reach.admitted [OF reach fresh] hub_reach.refused [OF reach fresh] assms(3)
  by (auto simp: register_phase_def admit_register_def finished_def Let_def split: sum.split option.split)

lemma api_hub_step:
  assumes "api_step ord validate a a'" and ok: "conns_ok validate a"
    and reach: "hub_reach ord n lm (hd_hub (ap_handler a)) (admitted_refs a)"
  shows "hub_reach ord n lm (hd_hub (ap_handler a')) (admitted_refs a')"
  using assms(1)
proof cases
  case (arrive r fresh)
  then show ?thesis using reach by (simp add: admitted_refs_def arriving_def)
next
  case (throttle i)
  then show ?thesis using reach by (simp add: admitted_put_same finished_def)
next
  case (enter i)
  have "hd_hub (fst (enter_step (ap_handler a) (ap_conns a ! i))) = hd_hub (ap_handler a)"
    by (simp add: enter_step_def split: option.split)
  then show ?thesis
    using reach enter admitted_put_same [OF enter(2) enter_ok(3) [OF conns_ok_nth [OF ok enter(2)] enter(3)]] by simp
next
  case (check i now)
  have "hd_hub (fst (check_phase validate now (ap_handler a) (ap_conns a ! i))) = hd_hub (ap_handler a)"
    by (auto simp: check_phase_def split: sum.split)
  then show ?thesis
    using reach check admitted_put_same [OF check(2) check_ok(3) [OF conns_ok_nth [OF ok check(2)] check(3)]] by simp
next
  case (register i cap c cid)
  have ref: "cn_ref (ap_conns a ! i) = None" using conn_phase(3) [OF conns_ok_nth [OF ok register(2)] register(3)] by simp
  let ?r = "register_phase c cid cap (ap_handler a) (ap_conns a ! i)"
  have "admitted_refs (put a i ?r) =
      (case cn_ref (snd ?r) of None \<Rightarrow> admitted_refs a | Some d \<Rightarrow> insert d (admitted_refs a))"
    using admitted_put_same [OF register(2), of ?r] admitted_put_new [OF register(2) ref, of ?r] ref
    by (simp split: option.split)
  then show ?thesis using register_hub [OF reach register(5) ref] register(1) by simp
next
  case (open_stream i c now b)
  note k = conns_ok_nth [OF ok open_stream(2)] open_stream(3,4)
  have c: "c \<in> admitted_refs a" using ref_admitted [OF nth_mem [OF open_stream(2)] open_stream(4)] .
  have "hub_reach ord n lm (hd_hub (fst (open_phase now b c (ap_handler a) (ap_conns a ! i)))) (admitted_refs a)"
    using reach hub_reach.left [OF reach c] by (simp add: open_phase_def stream_open_def)
  then show ?thesis using admitted_put_same [OF open_stream(2) open_ok(3) [OF k]] open_stream(1) by simp
next
  case (deliver i c f cl now b)
  note k = conns_ok_nth [OF ok deliver(2)] deliver(3,4)
  have c: "c \<in> admitted_refs a" using ref_admitted [OF nth_mem [OF deliver(2)] deliver(4)] .
  have dr: "hub_reach ord n lm (drain_one (hd_hub (ap_handler a)) c) (admitted_refs a)"
    using reach by (rule hub_reach.drained)
  then have "hub_reach ord n lm (hd_hub (fst (frame_phase now b c f (ap_handler a) (ap_conns a ! i)))) (admitted_refs a)"
    using hub_reach.left [OF dr c] by (simp add: frame_phase_def stream_frame_def stream_leave_def Let_def)
  then show ?thesis using admitted_put_same [OF deliver(2) frame_ok(3) [OF k]] deliver(1) by simp
next
  case (leave i c)
  have c: "c \<in> admitted_refs a" using ref_admitted [OF nth_mem [OF leave(2)] leave(4)] .
  show ?thesis
    using hub_reach.left [OF reach c] leave by (simp add: admitted_put_same finished_def stream_leave_def)
next
  case (shut_down b)
  then show ?thesis using reach by (simp add: SetShuttingDown_def admitted_refs_def)
qed (use reach in \<open>auto simp: admitted_refs_def intro: hub_reach.intros\<close>)

subsection \<open>The semaphore and the gauge\<close>

lemma length_filter_update:
  "i < length xs \<Longrightarrow> length (filter P (xs[i := y])) + (if P (xs ! i) then 1 else 0) =
     length (filter P xs) + (if P y then 1 else 0)"
proof (induction xs arbitrary: i)
  case (Cons x xs)
  then show ?case by (cases i) auto
qed simp

definition sem_len :: "handler \<Rightarrow> nat" where
  "sem_len h = length (ch_buf (hd_handshakeSem h))"

definition sem_frame :: "nat \<Rightarrow> handler \<Rightarrow> bool" where
  "sem_frame N h \<longleftrightarrow> chan_open (hd_handshakeSem h) \<and> ch_cap (hd_handshakeSem h) = N"

lemma sem_ok_iff: "sem_ok N a \<longleftrightarrow> sem_frame N (ap_handler a) \<and> sem_len (ap_handler a) = length (filter holds_handshake (ap_conns a))"
  by (auto simp: sem_ok_def sem_frame_def sem_len_def)

lemma acquire_sem:
  "acquire_handshake h = Some h' \<Longrightarrow> sem_frame N h \<Longrightarrow> sem_frame N h' \<and> sem_len h' = Suc (sem_len h)"
  by (auto simp: acquire_handshake_def try_send_def sem_frame_def sem_len_def chan_open_def chan_wf_def
      split: send_result.splits if_splits)

lemma release_sem:
  "0 < sem_len h \<Longrightarrow> sem_frame N h \<Longrightarrow> sem_frame N (release_handshake h) \<and> Suc (sem_len (release_handshake h)) = sem_len h"
  by (cases "ch_buf (hd_handshakeSem h)")
    (auto simp: release_handshake_def try_recv_def sem_frame_def sem_len_def chan_open_def chan_wf_def)

lemma sem_same: "hd_handshakeSem h' = hd_handshakeSem h \<Longrightarrow> sem_frame N h' = sem_frame N h \<and> sem_len h' = sem_len h"
  by (simp add: sem_frame_def sem_len_def)

lemma sem_put:
  assumes "sem_ok N a" "i < length (ap_conns a)" "sem_frame N (fst r)"
    and "sem_len (fst r) + (if holds_handshake (ap_conns a ! i) then 1 else 0) =
      sem_len (ap_handler a) + (if holds_handshake (snd r) then 1 else 0)"
  shows "sem_ok N (put a i r)"
  using assms length_filter_update [OF assms(2), of holds_handshake "snd r"]
  by (simp add: sem_ok_iff) (simp add: put_def)

lemma sem_positive:
  assumes "sem_ok N a" "i < length (ap_conns a)" "holds_handshake (ap_conns a ! i)"
  shows "0 < sem_len (ap_handler a)"
proof -
  have "ap_conns a ! i \<in> set (filter holds_handshake (ap_conns a))" using assms(2,3) by simp
  then have "filter holds_handshake (ap_conns a) \<noteq> []" by fastforce
  then show ?thesis using assms(1) by (simp add: sem_ok_iff)
qed

lemma sem_untouched [simp]:
  "hd_handshakeSem (unregister_conn h c) = hd_handshakeSem h" "hd_handshakeSem (open_metrics h) = hd_handshakeSem h"
  "hd_handshakeSem (close_metrics h) = hd_handshakeSem h"
  by (simp_all add: unregister_conn_def open_metrics_def close_metrics_def)

lemma sem_step:
  assumes "api_step ord validate a a'" and sem: "sem_ok N a"
  shows "sem_ok N a'"
  using assms(1)
proof cases
  case (arrive r fresh)
  then show ?thesis using sem by (simp add: sem_ok_def arriving_def holds_handshake_def)
next
  case (throttle i)
  then show ?thesis
    using sem_put [OF sem throttle(2)] sem by (simp add: holds_handshake_def sem_ok_iff finished_def)
next
  case (enter i)
  let ?h = "ap_handler a" and ?k = "ap_conns a ! i"
  have "sem_frame N (fst (enter_step ?h ?k)) \<and>
      sem_len (fst (enter_step ?h ?k)) = sem_len ?h + (if holds_handshake (snd (enter_step ?h ?k)) then 1 else 0)"
    using sem acquire_sem [of ?h _ N]
    by (auto simp: enter_step_def sem_ok_iff holds_handshake_def finished_def split: option.split)
  then show ?thesis using sem_put [OF sem enter(2)] enter by (simp add: holds_handshake_def)
next
  case (check i now)
  let ?h = "ap_handler a" and ?k = "ap_conns a ! i"
  have "holds_handshake ?k" using check(3) by (simp add: holds_handshake_def)
  note rel = release_sem [OF sem_positive [OF sem check(2) this], of N]
  have "sem_frame N (fst (check_phase validate now ?h ?k)) \<and> Suc (sem_len (fst (check_phase validate now ?h ?k))) =
      sem_len ?h + (if holds_handshake (snd (check_phase validate now ?h ?k)) then 1 else 0)"
    using sem rel by (auto simp: check_phase_def sem_ok_iff holds_handshake_def finished_def split: sum.split)
  then show ?thesis using sem_put [OF sem check(2)] check by (simp add: holds_handshake_def)
next
  case (register i cap c cid)
  let ?h = "ap_handler a" and ?k = "ap_conns a ! i"
  have "holds_handshake ?k" using register(3) by (simp add: holds_handshake_def)
  note pos = sem_positive [OF sem register(2) this]
  have rel: "sem_frame N (release_handshake (?h\<lparr>hd_hub := hub\<rparr>)) \<and>
      Suc (sem_len (release_handshake (?h\<lparr>hd_hub := hub\<rparr>))) = sem_len ?h" for hub
    using release_sem [of "?h\<lparr>hd_hub := hub\<rparr>" N] sem_same [of "?h\<lparr>hd_hub := hub\<rparr>" ?h N] pos sem by (simp add: sem_ok_iff)
  have "sem_frame N (fst (register_phase c cid cap ?h ?k)) \<and> Suc (sem_len (fst (register_phase c cid cap ?h ?k))) = sem_len ?h \<and>
      \<not> holds_handshake (snd (register_phase c cid cap ?h ?k))"
    using rel by (auto simp: register_phase_def admit_register_def holds_handshake_def finished_def Let_def split: sum.split)
  then show ?thesis using sem_put [OF sem register(2)] register by (simp add: holds_handshake_def)
next
  case (open_stream i c now b)
  let ?r = "open_phase now b c (ap_handler a) (ap_conns a ! i)"
  have "hd_handshakeSem (fst ?r) = hd_handshakeSem (ap_handler a)" "\<not> holds_handshake (snd ?r)"
    by (simp_all add: open_phase_def stream_open_def holds_handshake_def)
  then show ?thesis
    using sem_put [OF sem open_stream(2), of ?r] open_stream sem sem_same [of "fst ?r" "ap_handler a" N]
    by (simp add: holds_handshake_def sem_ok_iff)
next
  case (deliver i c f cl now b)
  let ?r = "frame_phase now b c f (ap_handler a) (ap_conns a ! i)"
  have "hd_handshakeSem (fst ?r) = hd_handshakeSem (ap_handler a)" "\<not> holds_handshake (snd ?r)"
    by (simp_all add: frame_phase_def stream_frame_def stream_leave_def Let_def holds_handshake_def)
  then show ?thesis
    using sem_put [OF sem deliver(2), of ?r] deliver sem sem_same [of "fst ?r" "ap_handler a" N]
    by (simp add: holds_handshake_def sem_ok_iff)
next
  case (leave i c)
  then show ?thesis
    using sem_put [OF sem leave(2)] sem sem_same [of "stream_leave (ap_handler a) c" "ap_handler a" N]
    by (simp add: holds_handshake_def sem_ok_iff finished_def stream_leave_def)
qed (use sem in \<open>simp_all add: sem_ok_def SetShuttingDown_def\<close>)

lemma metrics_untouched [simp]:
  "hd_metrics (release_handshake h) = hd_metrics h" "hd_metrics (unregister_conn h c) = hd_metrics h"
  by (auto simp: release_handshake_def unregister_conn_def split: recv_result.splits)

lemma acquire_metrics: "acquire_handshake h = Some h' \<Longrightarrow> hd_metrics h' = hd_metrics h"
  by (auto simp: acquire_handshake_def simp del: hub_handshake split: send_result.splits)

abbreviation is_streaming :: "conn \<Rightarrow> bool" where
  "is_streaming k \<equiv> cn_phase k = Streaming"

definition active :: "handler \<Rightarrow> int option" where
  "active h = map_option ConnectionsActive (hd_metrics h)"

lemma active_metrics [simp]:
  "active (open_metrics h) = map_option (\<lambda>n. n + 1) (active h)" "active (close_metrics h) = map_option (\<lambda>n. n - 1) (active h)"
  by (simp_all add: active_def open_metrics_def close_metrics_def option.map_comp comp_def)

lemma gauge_ok_iff:
  "gauge_ok a \<longleftrightarrow> active (ap_handler a) = map_option (\<lambda>_. int (length (filter is_streaming (ap_conns a)))) (hd_metrics (ap_handler a))"
  by (cases "hd_metrics (ap_handler a)") (simp_all add: gauge_ok_def active_def)

lemma gauge_put:
  assumes "gauge_ok a" "i < length (ap_conns a)"
    and "active (fst r) = map_option (\<lambda>n. n + (if is_streaming (snd r) then 1 else 0) -
      (if is_streaming (ap_conns a ! i) then 1 else 0)) (active (ap_handler a))"
  shows "gauge_ok (put a i r)"
proof -
  have "int (length (filter is_streaming ((ap_conns a)[i := snd r]))) =
      int (length (filter is_streaming (ap_conns a))) + (if is_streaming (snd r) then 1 else 0) -
      (if is_streaming (ap_conns a ! i) then 1 else 0)"
    using length_filter_update [OF assms(2), of is_streaming "snd r"] by (auto split: if_splits)
  with assms(1,3) show ?thesis
    by (cases "hd_metrics (ap_handler a)"; cases "hd_metrics (fst r)") (simp_all add: gauge_ok_def active_def put_def)
qed

lemma gauge_same:
  assumes "gauge_ok a" "i < length (ap_conns a)" "hd_metrics (fst r) = hd_metrics (ap_handler a)"
    "\<not> is_streaming (snd r)" "\<not> is_streaming (ap_conns a ! i)"
  shows "gauge_ok (put a i r)"
  using assms by (intro gauge_put) (simp_all add: active_def option.map_comp comp_def)

lemma gauge_step:
  assumes "api_step ord validate a a'" and g: "gauge_ok a"
  shows "gauge_ok a'"
  using assms(1)
proof cases
  case (arrive r fresh)
  then show ?thesis using g by (simp add: gauge_ok_def arriving_def)
next
  case (throttle i)
  then show ?thesis using gauge_same [OF g throttle(2)] by (simp add: finished_def)
next
  case (enter i)
  then show ?thesis
    using gauge_same [OF g enter(2)] by (auto simp: enter_step_def finished_def acquire_metrics split: option.split)
next
  case (check i now)
  then show ?thesis
    using gauge_same [OF g check(2)] by (auto simp: check_phase_def finished_def split: sum.split)
next
  case (register i cap c cid)
  then show ?thesis
    using gauge_same [OF g register(2)]
    by (auto simp: register_phase_def admit_register_def finished_def Let_def split: sum.split)
next
  case (open_stream i c now b)
  have "active (unregister_conn h c) = active h" for h c by (simp add: active_def)
  then show ?thesis
    using gauge_put [OF g open_stream(2), of "open_phase now b c (ap_handler a) (ap_conns a ! i)"] open_stream
    by (simp add: open_phase_def stream_open_def option.map_ident)
next
  case (deliver i c f cl now b)
  have "active (unregister_conn h c) = active h" "active (h\<lparr>hd_hub := hub\<rparr>) = active h" for h c hub by (simp_all add: active_def)
  then show ?thesis
    using gauge_put [OF g deliver(2), of "frame_phase now b c f (ap_handler a) (ap_conns a ! i)"] deliver
    by (simp add: frame_phase_def stream_frame_def stream_leave_def Let_def option.map_ident)
next
  case (leave i c)
  have "active (unregister_conn h c) = active h" for h c by (simp add: active_def)
  then show ?thesis using gauge_put [OF g leave(2)] leave by (simp add: finished_def stream_leave_def)
qed (use g in \<open>simp_all add: gauge_ok_def SetShuttingDown_def\<close>)

subsection \<open>Reachable states\<close>

text \<open>The gateway starts with the hub it is given, a new handler and no request.\<close>

definition start_api :: "config \<Rightarrow> router \<Rightarrow> hub \<Rightarrow> bool \<Rightarrow> int \<Rightarrow> api" where
  "start_api cfg r hub metrics now =
     \<lparr>ap_handler = NewHandler cfg hub r
        (if metrics then Some \<lparr>ConnectionsActive = 0, ConnectionsTotal = 0, ClientsDisconnectedTotal = 0\<rparr> else None) now,
      ap_conns = []\<rparr>"

definition max_handshakes :: "config \<Rightarrow> nat" where
  "max_handshakes cfg =
     nat (if rc_MaxPendingHandshakes (cf_RateLimit cfg) \<le> 0 then 1000 else rc_MaxPendingHandshakes (cf_RateLimit cfg))"

lemma step_settings:
  "api_step ord validate a a' \<Longrightarrow> hd_cfg (ap_handler a') = hd_cfg (ap_handler a) \<and> hd_router (ap_handler a') = hd_router (ap_handler a)"
proof (induction rule: api_step.induct)
  case (enter i a)
  then show ?case by (auto simp: enter_step_def acquire_handshake_def split: option.split send_result.splits)
next
  case (check i a now)
  then show ?case by (auto simp: check_phase_def release_handshake_def split: sum.split recv_result.split)
next
  case (register i a cap c cid)
  then show ?case
    by (auto simp: register_phase_def admit_register_def release_handshake_def Let_def split: sum.split recv_result.split)
next
  case (open_stream i a c now b)
  then show ?case by (simp add: open_phase_def stream_open_def)
next
  case (deliver i a c f cl now b)
  then show ?case by (simp add: frame_phase_def stream_frame_def stream_leave_def Let_def)
next
  case (leave i a c)
  then show ?case by (simp add: stream_leave_def)
qed (simp_all add: SetShuttingDown_def)

definition api_inv :: "client_order \<Rightarrow> ticket_check \<Rightarrow> config \<Rightarrow> router \<Rightarrow> int \<Rightarrow> api \<Rightarrow> bool" where
  "api_inv ord validate cfg r n a \<longleftrightarrow>
     hd_cfg (ap_handler a) = cfg \<and> hd_router (ap_handler a) = r \<and>
     hub_reach ord n (cf_Limits cfg) (hd_hub (ap_handler a)) (admitted_refs a) \<and>
     conns_ok validate a \<and> sem_ok (max_handshakes cfg) a \<and> gauge_ok a"

lemma api_reach_inv:
  assumes "api_reach ord validate (start_api cfg r hub metrics now) a"
    and hub: "hub_reach ord n (cf_Limits cfg) hub {}" and ord: "range_order ord" and n: "n < 2 ^ 32"
  shows "api_inv ord validate cfg r n a"
  using assms(1)
proof induction
  case start
  from hub show ?case
    by (simp add: api_inv_def start_api_def NewHandler_def Let_def conns_ok_def sem_ok_def gauge_ok_def admitted_refs_def
        chan_open_def max_handshakes_def make_chan_def chan_wf_def)
next
  case (step a a')
  then have inv: "api_inv ord validate cfg r n a" and st: "api_step ord validate a a'" by simp_all
  have reach: "hub_reach ord n (cf_Limits cfg) (hd_hub (ap_handler a)) (admitted_refs a)" and ok: "conns_ok validate a"
    using inv by (simp_all add: api_inv_def)
  show ?case
    using inv step_settings [OF st] api_hub_step [OF st ok reach] conns_ok_step [OF st ok] reach_wf [OF reach ord n]
      sem_step [OF st] gauge_step [OF st] by (simp add: api_inv_def)
qed

end
