(* ===== verification/Api_Props.thy ===== *)
theory Api_Props
  imports Api_Reach
begin

text \<open>The properties of the event stream endpoint, over the reachable states of theory \<open>Api_Reach\<close>.\<close>

section \<open>A run\<close>

text \<open>One request with a valid ticket for the topics \<^verbatim>\<open>x\<close> and \<^verbatim>\<open>y\<close>, from its arrival to its stream and its end.\<close>

definition api_config :: config where
  "api_config = zero_config\<lparr>cf_Limits := demo_limits, cf_Hub := zero_hub\<lparr>hb_ClientQueueSize := 1\<rparr>\<rparr>"

definition api_request :: request where
  "api_request = \<lparr>r_Method = ''GET'', r_Path = ''/v1/events'', r_RawQuery = ''ticket=ticket'', r_Header = [],
     r_RemoteAddr = ''192.0.2.1:5000''\<rparr>"

abbreviation demo_check :: ticket_check where
  "demo_check \<equiv> Validate demo_parse demo_jv"

definition start_heap :: heap where
  "start_heap = (\<lambda>_. NewClient [] [] [] [] 1 [] False)"

definition run0 :: api where
  "run0 = start_api api_config topic_router (NewHub start_heap 2 (cf_Limits api_config)) True 0"

definition run1 :: api where
  "run1 = run0\<lparr>ap_conns := ap_conns run0 @ [arriving api_request (endpoint_writer ''f'' api_request)]\<rparr>"

definition advance :: "(handler \<Rightarrow> conn \<Rightarrow> handler \<times> conn) \<Rightarrow> api \<Rightarrow> api" where
  "advance f a = put a 0 (f (ap_handler a) (ap_conns a ! 0))"

definition run2 :: api where
  "run2 = advance enter_step run1"

definition run3 :: api where
  "run3 = advance (check_phase demo_check 5) run2"

definition run4 :: api where
  "run4 = advance (register_phase 0 ''c1'' (to_capability demo_claims)) run3"

definition run5 :: api where
  "run5 = advance (open_phase 6 True 0) run4"

definition run6 :: api where
  "run6 = advance (\<lambda>h k. (stream_leave h 0, finished k (cn_writer k))) run5"

lemma run_lengths [simp]:
  "length (ap_conns run1) = 1" "length (ap_conns run2) = 1" "length (ap_conns run3) = 1" "length (ap_conns run4) = 1"
  "length (ap_conns run5) = 1" "length (ap_conns run6) = 1"
  by (simp_all add: run1_def run2_def run3_def run4_def run5_def run6_def advance_def put_def run0_def start_api_def)

definition run_facts :: "api \<Rightarrow> phase \<times> capability option \<times> ref option" where
  "run_facts a = (cn_phase (ap_conns a ! 0), cn_cap (ap_conns a ! 0), cn_ref (ap_conns a ! 0))"

lemma run_eval1:
  "run_facts run1 = (Arrived, None, None)" "run_facts run2 = (Admitting, None, None)"
  by code_simp+

lemma run_eval3: "run_facts run3 = (Registering, Some (to_capability demo_claims), None)"
  by code_simp

lemma run_eval4: "run_facts run4 = (Accepted, Some (to_capability demo_claims), Some 0)"
  by code_simp

lemma run_eval5: "run_facts run5 = (Streaming, Some (to_capability demo_claims), Some 0)"
  by code_simp

lemma run_eval6: "run_facts run6 = (Finished, Some (to_capability demo_claims), Some 0)"
  by code_simp

lemma run_recipients: "hub_recipients (\<lambda>xs. xs) (hd_hub (ap_handler run5)) ''x'' = [0]"
  by code_simp

lemmas run_eval = run_eval1 run_eval3 run_eval4 run_eval5 run_eval6

lemma start_hub: "hub_reach (\<lambda>xs. xs) 2 (cf_Limits api_config) (NewHub start_heap 2 (cf_Limits api_config)) {}"
  by (rule hub_reach.start) (simp add: start_heap_def NewClient_wf)

lemma run_reach:
  "api_reach (\<lambda>xs. xs) demo_check run0 run2" "api_reach (\<lambda>xs. xs) demo_check run0 run5"
  "api_reach (\<lambda>xs. xs) demo_check run0 run6"
proof -
  note ev = run_eval [unfolded run_facts_def prod.inject]
  have "api_reach (\<lambda>xs. xs) demo_check run0 run1"
    unfolding run1_def by (rule api_reach.step [OF api_reach.start]) (rule api_step.arrive)
  then show r2: "api_reach (\<lambda>xs. xs) demo_check run0 run2"
    unfolding run2_def advance_def by (rule api_reach.step) (rule api_step.enter; simp add: ev)
  then have "api_reach (\<lambda>xs. xs) demo_check run0 run3"
    unfolding run3_def advance_def by (rule api_reach.step) (rule api_step.check; simp add: ev)
  moreover have "admitted_refs run3 = {}"
    using ev by (auto simp: admitted_refs_nth)
  moreover have "client_wf (new_connection h cap i)" "\<not> cl_unregistered (new_connection h cap i)" for h cap i
    unfolding new_connection_def by (rule NewClient_wf) (simp add: NewClient_def Let_def)
  ultimately have "api_reach (\<lambda>xs. xs) demo_check run0 run4"
    unfolding run4_def advance_def
    by (elim api_reach.step, intro api_step.register)
      (simp_all add: ev fresh_client_def routing_keys_def demo_claims_def to_capability_def)
  then show r5: "api_reach (\<lambda>xs. xs) demo_check run0 run5"
    unfolding run5_def advance_def by (rule api_reach.step) (rule api_step.open_stream; simp add: ev)
  then show "api_reach (\<lambda>xs. xs) demo_check run0 run6"
    unfolding run6_def advance_def by (rule api_reach.step) (rule api_step.leave; simp add: ev)
qed

section \<open>Properties\<close>

lemma recipients_exact:
  assumes reach: "api_reach ord validate (start_api cfg r hub metrics t0) a"
    and "hub_reach ord n (cf_Limits cfg) hub {}" and "range_order ord" and "n < 2 ^ 32"
  shows "set (hub_recipients ord (hd_hub (ap_handler a)) key) =
      {c. \<exists>k \<in> set (ap_conns a). \<exists>cap now topic. cn_ref k = Some c \<and> cn_phase k \<in> {Accepted, Streaming} \<and>
         validate now (raw_ticket (ap_handler a) (cn_req k)) = Inr cap \<and> topic \<in> set (cap_Topics cap) \<and>
         cn_cap k = Some cap \<and> key = BuildKey r (cap_TenantID cap) (cap_AppID cap) topic \<and>
         \<not> cl_unregistered (h_heap (hd_hub (ap_handler a)) c)}" (is "?L = ?R")
proof -
  let ?h = "ap_handler a"
  have inv: "api_inv ord validate cfg r n a" using api_reach_inv [OF reach] assms(2-4) by blast
  have hub: "hub_reach ord n (cf_Limits cfg) (hd_hub ?h) (admitted_refs a)" and r: "hd_router ?h = r"
    using inv by (simp_all add: api_inv_def)
  have L: "?L = {c \<in> live (hd_hub ?h) (admitted_refs a). key \<in> set (cl_Topics (h_heap (hd_hub ?h) c))}"
    by (rule recipients_live [OF reach_parts(2) [OF hub assms(3,4)] assms(3)])
  have ok: "conn_ok validate ?h k" if "k \<in> set (ap_conns a)" for k using inv that by (simp add: api_inv_def conns_ok_def)
  have phase: "cn_phase k \<in> {Accepted, Streaming}"
    if "k \<in> set (ap_conns a)" "cn_ref k = Some c" "\<not> cl_unregistered (h_heap (hd_hub ?h) c)" for k c
    using ok [OF that(1)] that(2,3) by (cases "cn_phase k") (simp_all add: conn_ok_def)
  have cap: "\<exists>cap now. cn_cap k = Some cap \<and> validate now (raw_ticket ?h (cn_req k)) = Inr cap \<and>
      cl_Topics (h_heap (hd_hub ?h) c) = routing_keys r cap" if "k \<in> set (ap_conns a)" "cn_ref k = Some c" for k c
    using ok [OF that(1)] that(2)
    by (auto simp: conn_ok_def client_ok_def granted_def speaks_for_def r split: option.splits)
  show ?thesis
  proof (intro set_eqI iffI)
    fix c assume "c \<in> ?L"
    then obtain k where k: "k \<in> set (ap_conns a)" "cn_ref k = Some c" "\<not> cl_unregistered (h_heap (hd_hub ?h) c)"
      "key \<in> set (cl_Topics (h_heap (hd_hub ?h) c))"
      by (auto simp: L live_def admitted_refs_def)
    with cap [OF k(1,2)] phase [OF k(1-3)] show "c \<in> ?R" by (fastforce simp: routing_keys_def)
  next
    fix c assume "c \<in> ?R"
    then obtain k cap' topic where k: "k \<in> set (ap_conns a)" "cn_ref k = Some c" "cn_cap k = Some cap'"
      "topic \<in> set (cap_Topics cap')" "key = BuildKey r (cap_TenantID cap') (cap_AppID cap') topic"
      "\<not> cl_unregistered (h_heap (hd_hub ?h) c)"
      by blast
    with cap [OF k(1,2)] show "c \<in> ?L" unfolding L by (auto simp: live_def admitted_refs_def routing_keys_def)
  qed
qed



text \<open>
  C29. Admissions are bounded. The tokens taken from the handshake semaphore are the admissions in progress, so
  that at most the configured number of them run at a time, none is leaked by a refusal, and with no admission
  in progress the semaphore is free again. The gauge of active connections counts the open streams.
\<close>

theorem admissions_bounded:
  assumes "api_reach ord validate (start_api cfg r hub metrics t0) a"
    and "hub_reach ord n (cf_Limits cfg) hub {}" and "range_order ord" and "n < 2 ^ 32"
  shows "length (filter holds_handshake (ap_conns a)) = length (ch_buf (hd_handshakeSem (ap_handler a))) \<and>
    length (filter holds_handshake (ap_conns a)) \<le> max_handshakes cfg \<and>
    (\<forall>m. hd_metrics (ap_handler a) = Some m \<longrightarrow>
      ConnectionsActive m = int (length (filter (\<lambda>k. cn_phase k = Streaming) (ap_conns a))))"
  using api_reach_inv [OF assms]
  by (simp add: api_inv_def sem_ok_def gauge_ok_def chan_open_def chan_wf_def)

theorem admissions_bounded_witness:
  "length (filter holds_handshake (ap_conns run2)) = 1 \<and> length (ch_buf (hd_handshakeSem (ap_handler run2))) = 1 \<and>
   length (ch_buf (hd_handshakeSem (ap_handler run5))) = length (filter holds_handshake (ap_conns run5))"
proof -
  have "ap_conns run2 = [ap_conns run2 ! 0]" using run_lengths(2) by (cases "ap_conns run2") auto
  then have "length (filter holds_handshake (ap_conns run2)) = 1"
    using run_eval1(2) by (metis (no_types, lifting) filter.simps holds_handshake_def length_Cons list.size(3) One_nat_def run_facts_def prod.inject)
  then show ?thesis
    using admissions_bounded [OF run_reach(1) [unfolded run0_def] start_hub range_order_id, simplified]
      admissions_bounded [OF run_reach(2) [unfolded run0_def] start_hub range_order_id, simplified] by simp
qed

text \<open>
  C20. Every request gets one answer. A request that ended without a connection was refused with one JSON error
  and one of the documented codes, and was never in the hub. A stream consists of the greeting and the frames
  taken from the connection's queue, in their order, with status 200. When the request of a connection has
  ended, whatever ended it, the connection is unregistered.
\<close>

theorem one_answer_per_request:
  assumes "api_reach ord validate (start_api cfg r hub metrics t0) a"
    and "hub_reach ord n (cf_Limits cfg) hub {}" and "range_order ord" and "n < 2 ^ 32" and "k \<in> set (ap_conns a)"
  shows "case cn_phase k of
      Finished \<Rightarrow>
        (case cn_ref k of
           None \<Rightarrow> refused_with (cn_writer k) {401, 405, 429, 503}
         | Some c \<Rightarrow> cl_unregistered (h_heap (hd_hub (ap_handler a)) c) \<and>
             (unanswered (cn_writer k) \<or> streamed (ap_handler a) c k))
    | Streaming \<Rightarrow> (\<exists>c. cn_ref k = Some c \<and> streamed (ap_handler a) c k)
    | _ \<Rightarrow> unanswered (cn_writer k)"
proof -
  have "phase_ok (cn_phase k) (ap_handler a) k"
    using api_reach_inv [OF assms(1-4)] assms(5) by (simp add: api_inv_def conns_ok_def conn_ok_def)
  then show ?thesis by (cases "cn_phase k") (auto simp: refusal_codes_def split: option.splits)
qed

theorem one_answer_per_request_witness:
  "cl_unregistered (h_heap (hd_hub (ap_handler run6)) 0) \<and>
   (unanswered (cn_writer (ap_conns run6 ! 0)) \<or> streamed (ap_handler run6) 0 (ap_conns run6 ! 0))"
proof -
  have "ap_conns run6 ! 0 \<in> set (ap_conns run6)" by (rule nth_mem) simp
  from one_answer_per_request [OF run_reach(3) [unfolded run0_def] start_hub range_order_id _ this]
  show ?thesis using run_eval6 by (simp add: run_facts_def)
qed



end
