(* ===== verification/Readiness.thy ===== *)
theory Readiness
  imports Api
begin

text \<open>
  The probes of \<^verbatim>\<open>internal/api/handlers.go\<close>: \<^verbatim>\<open>Healthz\<close>, and \<^verbatim>\<open>Readyz\<close> with its cache of two seconds. A checker (the
  interface \<^verbatim>\<open>health.Checker\<close>) has a name and an outcome that depends on whether the context of its caller is
  cancelled and on the time; \<open>None\<close> is success, \<open>Some\<close> an error text. The clock is read when a request looks at
  the cache (\<open>now\<close>), when it looks again under the lock and probes (\<open>relook\<close>), and when the outcome is stored
  (\<open>stored\<close>); \<open>ts\<close> is the timestamp of the answer.
  Probes run one at a time under \<^verbatim>\<open>probeMu\<close>; \<open>locked\<close> is the cache as another request may have left it while
  this one waited for that lock.
\<close>

section \<open>Definitions\<close>

record checker =
  ck_Name :: string
  ck_Check :: "bool \<Rightarrow> int \<Rightarrow> string option"

definition uptime :: "handler \<Rightarrow> int \<Rightarrow> int" where
  "uptime h now = heartbeat_seconds (now - hd_startTime h)"

definition Healthz :: "handler \<Rightarrow> int \<Rightarrow> go_time \<Rightarrow> writer \<Rightarrow> writer" where
  "Healthz h now ts w =
     respondJSON w 200 (marshal_health \<lparr>hr_Status = ''ok'', hr_Service = cf_ServiceName (hd_cfg h),
       hr_Instance = cf_InstanceID (hd_cfg h), hr_Timestamp = ts, hr_UptimeSec = uptime h now, hr_Details = []\<rparr>)"

definition respondReadyz :: "handler \<Rightarrow> int \<Rightarrow> go_time \<Rightarrow> writer \<Rightarrow> bool \<Rightarrow> (string, string) gomap \<Rightarrow> writer" where
  "respondReadyz h now ts w allReady details =
     respondJSON w (if allReady then 200 else 503)
       (marshal_health \<lparr>hr_Status = (if allReady then ''ready'' else ''unavailable''),
          hr_Service = cf_ServiceName (hd_cfg h), hr_Instance = cf_InstanceID (hd_cfg h), hr_Timestamp = ts,
          hr_UptimeSec = uptime h now, hr_Details = details\<rparr>)"

definition cache_ttl :: int where
  "cache_ttl = 2 * time_Second"

definition cached_answer :: "ready_cache \<Rightarrow> int \<Rightarrow> (bool \<times> (string, string) gomap) option" where
  "cached_answer rc now =
     (case (rd_cachedAt rc, rd_details rc) of
        (Some t, Some details) \<Rightarrow> if now - t < cache_ttl then Some (rd_allReady rc, details) else None
      | _ \<Rightarrow> None)"

definition probe_one :: "bool \<Rightarrow> int \<Rightarrow> bool \<times> (string, string) gomap \<Rightarrow> checker option \<Rightarrow> bool \<times> (string, string) gomap" where
  "probe_one cancelled now acc ck =
     (case ck of
        None \<Rightarrow> acc
      | Some c \<Rightarrow>
          (case ck_Check c cancelled now of
             Some err \<Rightarrow> (False, AList.update (ck_Name c) err (snd acc))
           | None \<Rightarrow> (fst acc, AList.update (ck_Name c) ''ok'' (snd acc))))"

definition run_probes :: "checker option list \<Rightarrow> bool \<Rightarrow> int \<Rightarrow> bool \<times> (string, string) gomap" where
  "run_probes checkers cancelled now = foldl (probe_one cancelled now) (True, []) checkers"

definition store_cache :: "int \<Rightarrow> bool \<times> (string, string) gomap \<Rightarrow> ready_cache" where
  "store_cache stored res = \<lparr>rd_cachedAt = Some stored, rd_allReady = fst res, rd_details = Some (snd res)\<rparr>"

text \<open>The cache and the answer of one request; \<open>None\<close> is the refusal while shutting down.\<close>

definition ready_answer ::
  "checker option list \<Rightarrow> handler \<Rightarrow> ready_cache \<Rightarrow> bool \<Rightarrow> int \<Rightarrow> int \<Rightarrow> int \<Rightarrow>
    ready_cache \<times> (bool \<times> (string, string) gomap) option" where
  "ready_answer checkers h locked cancelled now relook stored =
     (if hd_isShuttingDown h then (hd_readyCache h, None)
      else case cached_answer (hd_readyCache h) now of
        Some res \<Rightarrow> (hd_readyCache h, Some res)
      | None \<Rightarrow>
          (case cached_answer locked relook of
             Some res \<Rightarrow> (locked, Some res)
           | None \<Rightarrow>
               (let res = run_probes checkers cancelled relook in (store_cache stored res, Some res))))"

definition Readyz ::
  "checker option list \<Rightarrow> handler \<Rightarrow> ready_cache \<Rightarrow> bool \<Rightarrow> int \<Rightarrow> int \<Rightarrow> int \<Rightarrow> go_time \<Rightarrow> writer \<Rightarrow> handler \<times> writer" where
  "Readyz checkers h locked cancelled now relook stored ts w =
     (case ready_answer checkers h locked cancelled now relook stored of
        (rc, None) \<Rightarrow> (h, respondError w 503 (''service en cours d'' @ [CHR 0x27] @ ''arr'' @ [CHR 0xC3, CHR 0xAA] @ ''t'') (''la passerelle ne dessert plus de trafic''))
      | (rc, Some (allReady, details)) \<Rightarrow> (h\<lparr>hd_readyCache := rc\<rparr>, respondReadyz h stored ts w allReady details))"

subsection \<open>Requests in a row\<close>

text \<open>A request is its context's state, the times it looks and looks again, and the time it may store.\<close>

type_synonym ready_req = "bool \<times> int \<times> int \<times> int"

fun ready_run :: "checker option list \<Rightarrow> handler \<Rightarrow> ready_req list \<Rightarrow> (bool \<times> (string, string) gomap) option list" where
  "ready_run checkers h [] = []"
| "ready_run checkers h ((cancelled, now, relook, stored) # reqs) =
     (case ready_answer checkers h (hd_readyCache h) cancelled now relook stored of
        (rc, ans) \<Rightarrow> ans # ready_run checkers (h\<lparr>hd_readyCache := rc\<rparr>) reqs)"

section \<open>Lemmas\<close>

text \<open>An outcome of the probes run by one of the given requests, stored at a given time.\<close>

definition probed :: "checker option list \<Rightarrow> ready_req list \<Rightarrow> int \<Rightarrow> bool \<times> (string, string) gomap \<Rightarrow> bool" where
  "probed checkers reqs t res \<longleftrightarrow>
     list_ex (\<lambda>(cancelled, now, relook, stored). t = stored \<and> res = run_probes checkers cancelled relook) reqs"

definition cache_from :: "checker option list \<Rightarrow> ready_req list \<Rightarrow> ready_cache \<Rightarrow> bool" where
  "cache_from checkers past rc \<longleftrightarrow>
     (case (rd_cachedAt rc, rd_details rc) of
        (Some t, Some details) \<Rightarrow> probed checkers past t (rd_allReady rc, details) | _ \<Rightarrow> True)"

lemma cached_answer_from:
  "cache_from checkers past rc \<Longrightarrow> cached_answer rc now = Some res \<Longrightarrow>
     \<exists>t. now - t < cache_ttl \<and> probed checkers past t res"
  by (auto simp: cache_from_def cached_answer_def split: option.splits if_splits)

lemma probed_mono: "probed checkers past t res \<Longrightarrow> probed checkers (req # past) t res"
  by (simp add: probed_def)

lemma cache_from_mono: "cache_from checkers past rc \<Longrightarrow> cache_from checkers (req # past) rc"
  by (auto simp: cache_from_def probed_mono split: option.splits)

lemma ready_answer_cases:
  assumes "\<not> hd_isShuttingDown h"
  obtains (hit) res t where "cached_answer (hd_readyCache h) t = Some res" "t \<in> {now, relook}"
      "ready_answer checkers h (hd_readyCache h) cancelled now relook stored = (hd_readyCache h, Some res)"
    | (miss) "ready_answer checkers h (hd_readyCache h) cancelled now relook stored =
        (store_cache stored (run_probes checkers cancelled relook), Some (run_probes checkers cancelled relook))"
  using assms
  by (cases "cached_answer (hd_readyCache h) now"; cases "cached_answer (hd_readyCache h) relook")
    (auto simp: ready_answer_def Let_def)

text \<open>An answer is right for a time if probes stored less than two seconds before that time gave it.\<close>

definition fresh_answer :: "checker option list \<Rightarrow> ready_req list \<Rightarrow> ready_req \<Rightarrow> bool \<times> (string, string) gomap \<Rightarrow> bool" where
  "fresh_answer checkers past req res \<longleftrightarrow>
     (case req of (cancelled, now, relook, stored) \<Rightarrow>
        res = run_probes checkers cancelled relook \<or>
        (\<exists>t. (now - t < cache_ttl \<or> relook - t < cache_ttl) \<and> probed checkers past t res))"

lemma ready_answer_from:
  assumes "cache_from checkers past (hd_readyCache h)" "\<not> hd_isShuttingDown h"
    and "ready_answer checkers h (hd_readyCache h) cancelled now relook stored = (rc, ans)"
  shows "cache_from checkers ((cancelled, now, relook, stored) # past) rc \<and>
    (\<exists>res. ans = Some res \<and> fresh_answer checkers past (cancelled, now, relook, stored) res)"
  using assms(2)
proof (cases rule: ready_answer_cases [of h now relook checkers cancelled stored])
  case (hit res t)
  then have "rc = hd_readyCache h" "ans = Some res" using assms(3) by simp_all
  moreover have "fresh_answer checkers past (cancelled, now, relook, stored) res"
    using cached_answer_from [OF assms(1) hit(1)] hit(2) by (auto simp: fresh_answer_def)
  ultimately show ?thesis using cache_from_mono [OF assms(1)] by simp
next
  case miss
  then have "rc = store_cache stored (run_probes checkers cancelled relook)" "ans = Some (run_probes checkers cancelled relook)"
    using assms(3) by simp_all
  then show ?thesis by (simp add: fresh_answer_def cache_from_def store_cache_def probed_def del: split_paired_Ex)
qed

lemma ready_run_fresh:
  assumes "cache_from checkers past (hd_readyCache h)" "\<not> hd_isShuttingDown h" "i < length reqs"
  shows "\<exists>res. ready_run checkers h reqs ! i = Some res \<and> fresh_answer checkers (rev (take i reqs) @ past) (reqs ! i) res"
  using assms
proof (induction reqs arbitrary: h past i)
  case (Cons req reqs)
  obtain cancelled now relook stored where req: "req = (cancelled, now, relook, stored)" by (metis prod_cases4)
  obtain rc ans where a: "ready_answer checkers h (hd_readyCache h) cancelled now relook stored = (rc, ans)" by fastforce
  note st = ready_answer_from [OF Cons.prems(1,2) a]
  show ?case
  proof (cases i)
    case 0
    with st show ?thesis by (simp add: req a)
  next
    case (Suc j)
    have "cache_from checkers (req # past) (hd_readyCache (h\<lparr>hd_readyCache := rc\<rparr>))" "\<not> hd_isShuttingDown (h\<lparr>hd_readyCache := rc\<rparr>)"
      "j < length reqs" using st Cons.prems Suc by (simp_all add: req)
    from Cons.IH [OF this] show ?thesis by (simp add: Suc req a)
  qed
qed simp

section \<open>Properties\<close>


text \<open>A bus that answers exactly when the caller's context is alive.\<close>

definition bus_checker :: checker where
  "bus_checker = \<lparr>ck_Name = ''valkey_event_bus'', ck_Check = (\<lambda>cancelled _. if cancelled then Some ''context canceled'' else None)\<rparr>"

definition ready_handler :: handler where
  "ready_handler = NewHandler zero_config (NewHub (\<lambda>_. NewClient [] [] [] [] 1 [] False) 1 zero_limits)
     \<lparr>r_template = [], r_matcherRegex = [], r_tenantIdx = -1, r_appIdx = -1, r_topicIdx = -1\<rparr> None 0"


text \<open>
  A cancelled probe is remembered. The probes run in the context of the request that triggers them; when
  that client has gone, they fail, and the failure is cached: for two seconds every other request is told that
  the gateway is unavailable although its dependencies answer.
\<close>

theorem cancelled_probe_is_cached:
  "ready_run [Some bus_checker] ready_handler [(True, 0, 0, 0), (False, time_Second, time_Second, time_Second)] =
     [Some (False, [(''valkey_event_bus'', ''context canceled'')]), Some (False, [(''valkey_event_bus'', ''context canceled'')])] \<and>
   run_probes [Some bus_checker] False time_Second = (True, [(''valkey_event_bus'', ''ok'')])"
  by (simp add: ready_answer_def ready_handler_def NewHandler_def Let_def cached_answer_def run_probes_def probe_one_def
      bus_checker_def store_cache_def cache_ttl_def time_Second_def)

end
