(* ===== verification/Tls_Conf.thy ===== *)
theory Tls_Conf
  imports Unwrap_Client Valkey_Bus
begin

text \<open>
  \<^verbatim>\<open>internal/tlsconf/tlsconf.go\<close> and its two callers. The certificate parsers of the standard library are
  parameters: the certificates found in a PEM text, and the pair of a certificate and its key. Files are a map
  from paths to contents.
\<close>

section \<open>Definitions\<close>

record tls_params =
  tp_CertFile :: string
  tp_KeyFile :: string
  tp_CAFile :: string
  tp_InsecureSkipVerify :: bool
  tp_ServerName :: string

definition VersionTLS13 :: nat where
  "VersionTLS13 = 0x0304"

text \<open>\<open>tc_RootCAs\<close> is \<open>None\<close> for the system's roots.\<close>

record tls_config =
  tc_MinVersion :: nat
  tc_InsecureSkipVerify :: bool
  tc_ServerName :: string
  tc_RootCAs :: "string list option"
  tc_Certificates :: "string list"

record cert_lib =
  AppendCertsFromPEM :: "string \<Rightarrow> string list"
  X509KeyPair :: "string \<Rightarrow> string \<Rightarrow> string option"

datatype tls_error = ErrReadCA string | ErrNoCertificate string | ErrKeyPair

definition root_pool :: "cert_lib \<Rightarrow> (string \<rightharpoonup> string) \<Rightarrow> tls_params \<Rightarrow> tls_error + string list option" where
  "root_pool lib files p =
     (if tp_CAFile p = [] then Inr None
      else case files (tp_CAFile p) of
        None \<Rightarrow> Inl (ErrReadCA (tp_CAFile p))
      | Some caData \<Rightarrow>
          if AppendCertsFromPEM lib caData = [] then Inl (ErrNoCertificate (tp_CAFile p))
          else Inr (Some (AppendCertsFromPEM lib caData)))"

definition LoadX509KeyPair :: "cert_lib \<Rightarrow> (string \<rightharpoonup> string) \<Rightarrow> string \<Rightarrow> string \<Rightarrow> string option" where
  "LoadX509KeyPair lib files certFile keyFile =
     (case (files certFile, files keyFile) of (Some c, Some k) \<Rightarrow> X509KeyPair lib c k | _ \<Rightarrow> None)"

definition Build :: "cert_lib \<Rightarrow> (string \<rightharpoonup> string) \<Rightarrow> tls_params \<Rightarrow> tls_error + tls_config" where
  "Build lib files p =
     (let cfg = \<lparr>tc_MinVersion = VersionTLS13, tc_InsecureSkipVerify = tp_InsecureSkipVerify p,
                 tc_ServerName = tp_ServerName p, tc_RootCAs = None, tc_Certificates = []\<rparr>
      in case root_pool lib files p of
           Inl err \<Rightarrow> Inl err
         | Inr pool \<Rightarrow>
             if tp_CertFile p \<noteq> [] \<and> tp_KeyFile p \<noteq> []
             then (case LoadX509KeyPair lib files (tp_CertFile p) (tp_KeyFile p) of
                     None \<Rightarrow> Inl ErrKeyPair
                   | Some cert \<Rightarrow> Inr (cfg\<lparr>tc_RootCAs := pool, tc_Certificates := [cert]\<rparr>))
             else Inr (cfg\<lparr>tc_RootCAs := pool\<rparr>))"

text \<open>The parameters the unwrap client and the Valkey bus pass.\<close>

definition unwrap_tls :: "client_config \<Rightarrow> tls_params" where
  "unwrap_tls cfg = \<lparr>tp_CertFile = cc_TLSCertFile cfg, tp_KeyFile = cc_TLSKeyFile cfg, tp_CAFile = cc_TLSCAFile cfg,
     tp_InsecureSkipVerify = cc_TLSInsecureSkipVerify cfg, tp_ServerName = cc_TLSServerName cfg\<rparr>"

definition valkey_tls :: "valkey_config \<Rightarrow> tls_params" where
  "valkey_tls cfg = \<lparr>tp_CertFile = vc_TLSCertFile cfg, tp_KeyFile = vc_TLSKeyFile cfg, tp_CAFile = vc_TLSCAFile cfg,
     tp_InsecureSkipVerify = vc_TLSInsecureSkip cfg, tp_ServerName = vc_TLSServerName cfg\<rparr>"

definition builds :: "cert_lib \<Rightarrow> (string \<rightharpoonup> string) \<Rightarrow> tls_params \<Rightarrow> bool" where
  "builds lib files p = (case Build lib files p of Inl _ \<Rightarrow> False | Inr _ \<Rightarrow> True)"

section \<open>Lemmas\<close>

text \<open>
  A configuration that is built requires TLS 1.3, verifies the peer unless that was switched off, trusts the
  given authorities if a file names them, and presents the client certificate if one is given.
\<close>

lemma Build_Inr:
  assumes "Build lib files p = Inr c"
  shows "tc_MinVersion c = VersionTLS13" "tc_InsecureSkipVerify c = tp_InsecureSkipVerify p" "tc_ServerName c = tp_ServerName p"
    "(tc_RootCAs c = None) = (tp_CAFile p = [])" "tp_CertFile p \<noteq> [] \<Longrightarrow> tp_KeyFile p \<noteq> [] \<Longrightarrow> length (tc_Certificates c) = 1"
  using assms by (auto simp: Build_def root_pool_def Let_def split: if_splits option.splits sum.splits)

end
