(* ===== verification/Unwrap_Mock.thy ===== *)
theory Unwrap_Mock
  imports Pipeline
begin

text \<open>
  \<^verbatim>\<open>internal/crypto/mock.go\<close>: the key unwrapper of development builds. A wrapped key that is the Base64 text of 32
  bytes is its own data key. \<open>None\<close> as default key is the nil slice. The server makes it without known keys, and
  then it keeps the contract of the interface.
\<close>

section \<open>Definitions\<close>

record mock_unwrapper =
  mu_KnownKeys :: "string \<rightharpoonup> string"
  mu_FailNext :: bool
  mu_HealthErr :: "string option"
  mu_DefaultKey :: string

definition NewMockUnwrapper :: "string \<Rightarrow> mock_unwrapper" where
  "NewMockUnwrapper defaultDEK =
     \<lparr>mu_KnownKeys = Map.empty, mu_FailNext = False, mu_HealthErr = None, mu_DefaultKey = defaultDEK\<rparr>"

definition Mock_Unwrap :: "mock_unwrapper unwrap" where
  "Mock_Unwrap m envelope =
     (m, if mu_FailNext m then Inl (ErrUnwrapFailed [])
         else case mu_KnownKeys m (we_WrappedKey envelope) of
           Some dek \<Rightarrow> Inr dek
         | None \<Rightarrow>
             if length (mu_DefaultKey m) = 32 then Inr (mu_DefaultKey m)
             else (case base64_DecodeString (we_WrappedKey envelope) of
                     Some decoded \<Rightarrow> if length decoded = 32 then Inr decoded else Inl (ErrUnwrapFailed [])
                   | None \<Rightarrow> Inl (ErrUnwrapFailed [])))"

definition Mock_Unwrap_Health :: "mock_unwrapper \<Rightarrow> string option" where
  "Mock_Unwrap_Health m = mu_HealthErr m"

definition Mock_Unwrap_Check :: "mock_unwrapper \<Rightarrow> string option" where
  "Mock_Unwrap_Check m = Mock_Unwrap_Health m"

definition Mock_Unwrap_Name :: string where
  "Mock_Unwrap_Name = ''mock_crypto_service''"

definition Mock_Unwrap_Close :: "mock_unwrapper \<Rightarrow> mock_unwrapper" where
  "Mock_Unwrap_Close m = m"

section \<open>Lemmas\<close>

text \<open>As the server makes it, the mock returns 32-byte keys only; its state, and so this, never changes.\<close>

definition server_mock :: "unit unwrap" where
  "server_mock u envelope = ((), snd (Mock_Unwrap (NewMockUnwrapper []) envelope))"

interpretation mock_unwrap: key_unwrapper server_mock
  by unfold_locales (auto simp: server_mock_def Mock_Unwrap_def NewMockUnwrapper_def split: option.splits if_splits)

text \<open>In this mode a wrapped key is its own Base64 text.\<close>

lemma server_mock_key:
  "snd (server_mock u env) = Inr dek \<longleftrightarrow> base64_DecodeString (we_WrappedKey env) = Some dek \<and> length dek = 32"
  by (auto simp: server_mock_def Mock_Unwrap_def NewMockUnwrapper_def split: option.splits)

end
