(* ===== verification/Memory_Bus.thy ===== *)
theory Memory_Bus
  imports Bus_Model Go_Chan
begin

text \<open>
  \<^verbatim>\<open>internal/bus/memory/memory.go\<close>: the in-memory bus. Channels are compared by identity, so they
  live on a heap and the subscriber list holds their addresses; a consumer keeps reading a
  channel after the bus has dropped it. Every method runs under the bus mutex, so an
  execution is a sequence of whole calls; the goroutine that \<^verbatim>\<open>Subscribe\<close> starts is the call
  \<open>cancel_sub\<close>, made when its context is done. \<open>None\<close> is a panic: a send on a closed channel or a
  second close.
\<close>

section \<open>Definitions\<close>

record mem_bus =
  mb_subscribers :: "nat list"
  mb_closed :: bool
  mb_bufferSize :: nat
  mb_chans :: "nat \<Rightarrow> encrypted_event chan"
  mb_next :: nat

definition NewBus :: "int \<Rightarrow> mem_bus" where
  "NewBus bufferSize =
     \<lparr>mb_subscribers = [], mb_closed = False, mb_bufferSize = (if bufferSize \<le> 0 then 1024 else nat bufferSize),
      mb_chans = (\<lambda>_. make_chan 0), mb_next = 0\<rparr>"

definition Bus_Subscribe :: "mem_bus \<Rightarrow> bus_error + (nat \<times> mem_bus)" where
  "Bus_Subscribe b =
     (if mb_closed b then Inl ErrBusClosed
      else (let ch = mb_next b
            in Inr (ch, b\<lparr>mb_chans := (mb_chans b)(ch := make_chan (mb_bufferSize b)),
                          mb_subscribers := mb_subscribers b @ [ch], mb_next := Suc ch\<rparr>)))"

definition close_ref :: "mem_bus \<Rightarrow> nat \<Rightarrow> mem_bus option" where
  "close_ref b ch = (if ch_closed (mb_chans b ch) then None
     else Some (b\<lparr>mb_chans := (mb_chans b)(ch := close_chan (mb_chans b ch))\<rparr>))"

text \<open>The first occurrence is cut out and closed, if there is one.\<close>

definition cancel_sub :: "mem_bus \<Rightarrow> nat \<Rightarrow> mem_bus option" where
  "cancel_sub b ch =
     (if ch \<in> set (mb_subscribers b)
      then close_ref (b\<lparr>mb_subscribers := remove1 ch (mb_subscribers b)\<rparr>) ch
      else Some b)"

fun publish_to :: "mem_bus \<Rightarrow> nat list \<Rightarrow> encrypted_event \<Rightarrow> mem_bus option" where
  "publish_to b [] event = Some b"
| "publish_to b (sub # subs) event =
     (case try_send (mb_chans b sub) event of
        SendPanic \<Rightarrow> None
      | Full \<Rightarrow> publish_to b subs event
      | Sent ch \<Rightarrow> publish_to (b\<lparr>mb_chans := (mb_chans b)(sub := ch)\<rparr>) subs event)"

definition Publish :: "mem_bus \<Rightarrow> encrypted_event \<Rightarrow> mem_bus option" where
  "Publish b event = (if mb_closed b then Some b else publish_to b (mb_subscribers b) event)"

definition Bus_Health :: "mem_bus \<Rightarrow> bus_error option" where
  "Bus_Health b = (if mb_closed b then Some ErrBusClosed else None)"

definition Bus_Check :: "mem_bus \<Rightarrow> bus_error option" where
  "Bus_Check b = Bus_Health b"

definition Bus_Name :: string where
  "Bus_Name = ''memory_event_bus''"

fun close_refs :: "mem_bus \<Rightarrow> nat list \<Rightarrow> mem_bus option" where
  "close_refs b [] = Some b"
| "close_refs b (sub # subs) = (case close_ref b sub of None \<Rightarrow> None | Some b' \<Rightarrow> close_refs b' subs)"

definition Bus_Close :: "mem_bus \<Rightarrow> mem_bus option" where
  "Bus_Close b =
     (if mb_closed b then Some b
      else map_option (\<lambda>b'. b'\<lparr>mb_subscribers := []\<rparr>)
             (close_refs (b\<lparr>mb_closed := True\<rparr>) (mb_subscribers b)))"

text \<open>A consumer's receive from the channel it was given.\<close>

definition bus_recv :: "mem_bus \<Rightarrow> nat \<Rightarrow> (encrypted_event \<times> mem_bus) option" where
  "bus_recv b ch = (case try_recv (mb_chans b ch) of
     Recv ev c \<Rightarrow> Some (ev, b\<lparr>mb_chans := (mb_chans b)(ch := c)\<rparr>) | _ \<Rightarrow> None)"

subsection \<open>Runs\<close>

datatype bus_op = OpSubscribe | OpCancel nat | OpPublish encrypted_event | OpReceive nat | OpClose

fun bus_step :: "mem_bus \<Rightarrow> bus_op \<Rightarrow> mem_bus option" where
  "bus_step b OpSubscribe = Some (case Bus_Subscribe b of Inl _ \<Rightarrow> b | Inr (_, b') \<Rightarrow> b')"
| "bus_step b (OpCancel ch) = cancel_sub b ch"
| "bus_step b (OpPublish ev) = Publish b ev"
| "bus_step b (OpReceive ch) = Some (case bus_recv b ch of None \<Rightarrow> b | Some (_, b') \<Rightarrow> b')"
| "bus_step b OpClose = Bus_Close b"

fun bus_run :: "mem_bus \<Rightarrow> bus_op list \<Rightarrow> mem_bus option" where
  "bus_run b [] = Some b"
| "bus_run b (x # xs) = (case bus_step b x of None \<Rightarrow> None | Some b' \<Rightarrow> bus_run b' xs)"

text \<open>Every subscriber is registered once, was allocated, and its channel is open.\<close>

definition bus_wf :: "mem_bus \<Rightarrow> bool" where
  "bus_wf b \<longleftrightarrow> distinct (mb_subscribers b) \<and>
     (\<forall>ch \<in> set (mb_subscribers b). ch < mb_next b \<and> chan_open (mb_chans b ch)) \<and>
     (mb_closed b \<longrightarrow> mb_subscribers b = [])"

section \<open>Lemmas\<close>

lemma NewBus_wf [wf_intros]: "bus_wf (NewBus n)"
  by (simp add: NewBus_def bus_wf_def)

lemma close_ref_open:
  "\<not> ch_closed (mb_chans b ch) \<Longrightarrow> close_ref b ch = Some (b\<lparr>mb_chans := (mb_chans b)(ch := close_chan (mb_chans b ch))\<rparr>)"
  by (simp add: close_ref_def)

lemma publish_to_eq:
  assumes "distinct subs" "\<And>ch. ch \<in> set subs \<Longrightarrow> chan_open (mb_chans b ch)"
  shows "publish_to b subs ev = Some (b\<lparr>mb_chans := (\<lambda>ch. if ch \<in> set subs then fst (chan_offer (mb_chans b ch) ev)
    else mb_chans b ch)\<rparr>)"
  using assms
proof (induction subs arbitrary: b)
  case (Cons sub subs)
  let ?b = "b\<lparr>mb_chans := (mb_chans b)(sub := fst (chan_offer (mb_chans b sub) ev))\<rparr>"
  have "publish_to b (sub # subs) ev = publish_to ?b subs ev"
    using Cons.prems(2) [of sub] by (auto simp: chan_open_def try_send_def chan_offer_def)
  also have "\<dots> = Some (?b\<lparr>mb_chans := (\<lambda>ch. if ch \<in> set subs then fst (chan_offer (mb_chans ?b ch) ev)
    else mb_chans ?b ch)\<rparr>)"
    using Cons.prems by (intro Cons.IH) auto
  also have "(\<lambda>ch. if ch \<in> set subs then fst (chan_offer (mb_chans ?b ch) ev) else mb_chans ?b ch) =
    (\<lambda>ch. if ch \<in> set (sub # subs) then fst (chan_offer (mb_chans b ch) ev) else mb_chans b ch)"
    using Cons.prems by (auto simp: fun_eq_iff)
  finally show ?case by simp
qed simp

lemma Publish_eq:
  assumes "bus_wf b"
  shows "Publish b ev = Some (b\<lparr>mb_chans := (\<lambda>ch. if ch \<in> set (mb_subscribers b)
    then fst (chan_offer (mb_chans b ch) ev) else mb_chans b ch)\<rparr>)"
  using assms publish_to_eq [of "mb_subscribers b" b ev] by (auto simp: Publish_def bus_wf_def)

lemma close_refs_eq:
  assumes "distinct subs" "\<And>ch. ch \<in> set subs \<Longrightarrow> \<not> ch_closed (mb_chans b ch)"
  shows "close_refs b subs = Some (b\<lparr>mb_chans := (\<lambda>ch. if ch \<in> set subs then close_chan (mb_chans b ch) else mb_chans b ch)\<rparr>)"
  using assms
proof (induction subs arbitrary: b)
  case (Cons sub subs)
  let ?b = "b\<lparr>mb_chans := (mb_chans b)(sub := close_chan (mb_chans b sub))\<rparr>"
  have "close_refs b (sub # subs) = close_refs ?b subs" using Cons.prems by (simp add: close_ref_open)
  also have "\<dots> = Some (?b\<lparr>mb_chans := (\<lambda>ch. if ch \<in> set subs then close_chan (mb_chans ?b ch) else mb_chans ?b ch)\<rparr>)"
    using Cons.prems by (intro Cons.IH) auto
  also have "(\<lambda>ch. if ch \<in> set subs then close_chan (mb_chans ?b ch) else mb_chans ?b ch) =
    (\<lambda>ch. if ch \<in> set (sub # subs) then close_chan (mb_chans b ch) else mb_chans b ch)"
    using Cons.prems by (auto simp: fun_eq_iff)
  finally show ?case by simp
qed simp

lemma Bus_Close_eq:
  assumes "bus_wf b"
  shows "Bus_Close b = Some (b\<lparr>mb_closed := True, mb_subscribers := [],
    mb_chans := (\<lambda>ch. if ch \<in> set (mb_subscribers b) then close_chan (mb_chans b ch) else mb_chans b ch)\<rparr>)"
proof (cases "mb_closed b")
  case True
  then have "mb_subscribers b = []" using assms by (simp add: bus_wf_def)
  with True show ?thesis by (cases b) (simp add: Bus_Close_def)
next
  case False
  have "close_refs (b\<lparr>mb_closed := True\<rparr>) (mb_subscribers b) = Some (b\<lparr>mb_closed := True\<rparr>\<lparr>mb_chans :=
    (\<lambda>ch. if ch \<in> set (mb_subscribers b) then close_chan (mb_chans (b\<lparr>mb_closed := True\<rparr>) ch)
      else mb_chans (b\<lparr>mb_closed := True\<rparr>) ch)\<rparr>)"
    using assms by (intro close_refs_eq) (auto simp: bus_wf_def chan_open_def)
  with False show ?thesis by (cases b) (simp add: Bus_Close_def cong: if_cong)
qed

lemma bus_step_wf:
  assumes "bus_wf b"
  shows "\<exists>b'. bus_step b x = Some b' \<and> bus_wf b'"
proof (cases x)
  case OpSubscribe
  with assms show ?thesis
    by (auto simp: Bus_Subscribe_def bus_wf_def Let_def chan_open_def make_chan_def chan_wf_def)
next
  case (OpCancel ch)
  with assms show ?thesis
    by (auto simp: cancel_sub_def bus_wf_def close_ref_open chan_open_def remove1_split)
next
  case (OpPublish ev)
  with assms show ?thesis by (simp add: Publish_eq) (auto simp: bus_wf_def chq.ok_offer)
next
  case (OpReceive ch)
  with assms show ?thesis
    by (auto simp: bus_recv_def bus_wf_def chan_open_def try_recv_def chan_wf_def split: list.split)
next
  case OpClose
  with assms show ?thesis by (simp add: Bus_Close_eq) (simp add: bus_wf_def)
qed

lemma bus_run_wf: "bus_wf b \<Longrightarrow> \<exists>b'. bus_run b xs = Some b' \<and> bus_wf b'"
proof (induction xs arbitrary: b)
  case (Cons x xs)
  then show ?case using bus_step_wf [OF Cons.prems, of x] by auto
qed simp


text \<open>The memory bus keeps the contract of a bus.\<close>

lemma Bus_Close_final:
  assumes "bus_wf b"
  shows "\<exists>b'. Bus_Close b = Some b' \<and> bus_wf b' \<and> mb_closed b'"
  using assms by (simp add: Bus_Close_eq) (simp add: bus_wf_def)

interpretation memory: event_bus Bus_Subscribe Bus_Health Bus_Close bus_wf
proof
  fix b assume "bus_wf b"
  then obtain b' where "Bus_Close b = Some b'" "bus_wf b'" "mb_closed b'" using Bus_Close_final by blast
  then show "\<exists>b'. Bus_Close b = Some b' \<and> bus_wf b' \<and> Bus_Subscribe b' = Inl ErrBusClosed \<and>
      Bus_Health b' = Some ErrBusClosed \<and> Bus_Close b' = Some b'"
    by (auto simp: Bus_Subscribe_def Bus_Health_def Bus_Close_def [of b'])
qed

section \<open>Properties\<close>

text \<open>
  C33. No sequence of subscriptions, cancellations, publications, receives and closes makes
  the bus panic, not even when contexts are cancelled after the bus was closed: it never
  sends on a closed channel and never closes one twice.
\<close>

theorem memory_bus_never_panics: "bus_run (NewBus n) ops \<noteq> None"
  using bus_run_wf [OF NewBus_wf, of n ops] by auto

text \<open>
  A burst of publications that a subscriber does not read meanwhile leaves its channel
  with what was queued followed by the first events of the burst, as many as fit, in order;
  a full subscriber loses events without holding up the others.
\<close>

lemma publish_burst:
  assumes "bus_run (NewBus n) ops = Some b" "ch \<in> set (mb_subscribers b)"
  shows "\<exists>b'. bus_run b (map OpPublish evs) = Some b' \<and>
    ch_buf (mb_chans b' ch) =
      ch_buf (mb_chans b ch) @ take (ch_cap (mb_chans b ch) - length (ch_buf (mb_chans b ch))) evs"
proof -
  have wf: "bus_wf b" using bus_run_wf [OF NewBus_wf, of n ops] assms(1) by auto
  have run: "\<exists>b'. bus_run b (map OpPublish evs) = Some b' \<and>
      mb_chans b' ch = offer_all chan_offer (mb_chans b ch) evs"
    if "bus_wf b" "ch \<in> set (mb_subscribers b)" for b
    using that
  proof (induction evs arbitrary: b)
    case (Cons ev evs)
    from bus_step_wf [OF Cons.prems(1), of "OpPublish ev"] obtain b1 where b1: "Publish b ev = Some b1" "bus_wf b1"
      by auto
    then have "mb_subscribers b1 = mb_subscribers b" "mb_chans b1 ch = fst (chan_offer (mb_chans b ch) ev)"
      using Publish_eq [OF Cons.prems(1), of ev] Cons.prems(2) by auto
    with Cons.IH [OF b1(2)] Cons.prems(2) b1(1) show ?case by auto
  qed simp
  have "chan_open (mb_chans b ch)" using wf assms(2) by (simp add: bus_wf_def)
  from chq.offer_all_items [OF this] run [OF wf assms(2)] show ?thesis by auto
qed

end
