(* ===== verification/Server.thy ===== *)
theory Server
  imports Readiness Tls_Conf Unwrap_Mock Memory_Bus Rate_Limit
begin

text \<open>
  \<^verbatim>\<open>cmd/server/main.go\<close> with its two build variants \<^verbatim>\<open>mock_dev.go\<close> and \<^verbatim>\<open>mock_prod.go\<close>, and \<^verbatim>\<open>internal/api/router.go\<close>:
  the start of the gateway from its environment to the running components, and its ordered shutdown. A process
  that exits during the start is the left value, with the reason it logs. The \<open>platform\<close> holds what the process
  finds around it: the build variant, the key and certificate parsers, the Valkey client library, whether the
  request multiplexer accepts a pattern after those it has (it refuses one it has), and the time.
  The command line, process hardening and the shutdown in steps are theory \<open>Process\<close>; the metrics registry is theory \<open>Metrics\<close>.
\<close>

section \<open>Definitions\<close>

subsection \<open>The router\<close>

datatype endpoint = Events_Endpoint | Limited_Events_Endpoint | Healthz_Endpoint | Readyz_Endpoint | Metrics_Endpoint

record 'l api_router =
  ar_routes :: "(string \<times> endpoint) list"
  ar_APIHandler :: handler
  ar_limiter :: "'l ip_rate_limiter option"

definition mux_Handle :: "(string list \<Rightarrow> string \<Rightarrow> bool) \<Rightarrow> string \<Rightarrow> endpoint \<Rightarrow> (string \<times> endpoint) list option \<Rightarrow> (string \<times> endpoint) list option" where
  "mux_Handle mux_ok pattern ep routes =
     Option.bind routes (\<lambda>rs. if mux_ok (map fst rs) pattern then Some (rs @ [(pattern, ep)]) else None)"

definition rate_limits :: "config \<Rightarrow> bool" where
  "rate_limits cfg \<longleftrightarrow> rc_Enabled (cf_RateLimit cfg) \<and> float_pos (rc_RPS (cf_RateLimit cfg))"

text \<open>\<open>None\<close> is the panic of the multiplexer on a pattern it refuses.\<close>

definition Api_NewRouter ::
  "(string list \<Rightarrow> string \<Rightarrow> bool) \<Rightarrow> config \<Rightarrow> hub \<Rightarrow> router \<Rightarrow> bool \<Rightarrow> int \<Rightarrow> 'l api_router option" where
  "Api_NewRouter mux_ok cfg h evRouter metrics now =
     (let handler = NewHandler cfg h evRouter
            (if metrics then Some \<lparr>ConnectionsActive = 0, ConnectionsTotal = 0, ClientsDisconnectedTotal = 0\<rparr> else None) now;
          burst = (if rc_Burst (cf_RateLimit cfg) \<le> 0 then 200 else rc_Burst (cf_RateLimit cfg));
          limiter = (if rate_limits cfg then Some (NewIPRateLimiter (rc_RPS (cf_RateLimit cfg)) burst) else None);
          r1 = mux_Handle mux_ok (hc_EventsPath (cf_HTTP cfg))
                 (if rate_limits cfg then Limited_Events_Endpoint else Events_Endpoint) (Some []);
          r2 = (if hl_HealthEnabled (cf_Health cfg) then mux_Handle mux_ok (hc_HealthPath (cf_HTTP cfg)) Healthz_Endpoint r1 else r1);
          r3 = (if hl_ReadyEnabled (cf_Health cfg) then mux_Handle mux_ok (hc_ReadyPath (cf_HTTP cfg)) Readyz_Endpoint r2 else r2);
          r4 = (if mc_Enabled (cf_Metrics cfg) \<and> metrics then mux_Handle mux_ok (hc_MetricsPath (cf_HTTP cfg)) Metrics_Endpoint r3 else r3)
      in map_option (\<lambda>rs. \<lparr>ar_routes = rs, ar_APIHandler = handler, ar_limiter = limiter\<rparr>) r4)"

definition Router_Close :: "'l api_router \<Rightarrow> 'l api_router" where
  "Router_Close r = r\<lparr>ar_limiter := map_option limiter_Stop (ar_limiter r)\<rparr>"

subsection \<open>The start\<close>

record platform =
  pf_production :: bool
  pf_keys :: key_lib
  pf_certs :: cert_lib
  pf_valkey_ok :: "valkey_config \<Rightarrow> bool"
  pf_mux_ok :: "string list \<Rightarrow> string \<Rightarrow> bool"
  pf_now :: int

datatype ticket_validator_impl = JWT_Impl jwt_validator | Mock_Validator_Impl mock_validator

datatype unwrapper_impl = HTTP_Impl unwrap_client | Mock_Unwrapper_Impl mock_unwrapper

datatype bus_impl = Valkey_Impl valkey_bus | Memory_Impl mem_bus

datatype startup_error =
    ConfigError config_error | InvalidConfig config_invalid | RouterError router_error
  | ValidatorError validator_error | MockValidatorExcluded | UnknownAuth string
  | UnwrapperError client_error | MockUnwrapperExcluded | UnknownCrypto string
  | BusError valkey_error | UnknownBus string | SubscribeError bus_error | PatternPanic

text \<open>The two build variants of \<^verbatim>\<open>initMockValidator\<close> and \<^verbatim>\<open>initMockUnwrapper\<close>.\<close>

definition initMockValidator :: "platform \<Rightarrow> mock_validator option" where
  "initMockValidator p = (if pf_production p then None else Some (NewMockValidator (pf_now p)))"

definition initMockUnwrapper :: "platform \<Rightarrow> mock_unwrapper option" where
  "initMockUnwrapper p = (if pf_production p then None else Some (NewMockUnwrapper []))"

definition init_validator :: "platform \<Rightarrow> (string \<rightharpoonup> string) \<Rightarrow> config \<Rightarrow> startup_error + ticket_validator_impl" where
  "init_validator p files cfg =
     (if au_Driver (cf_Auth cfg) = ''jwt'' then
        (case NewJWTValidator (pf_keys p) files (au_JWT (cf_Auth cfg)) of
           Inl err \<Rightarrow> Inl (ValidatorError err) | Inr v \<Rightarrow> Inr (JWT_Impl v))
      else if au_Driver (cf_Auth cfg) = ''mock'' then
        (case initMockValidator p of None \<Rightarrow> Inl MockValidatorExcluded | Some m \<Rightarrow> Inr (Mock_Validator_Impl m))
      else Inl (UnknownAuth (au_Driver (cf_Auth cfg))))"

definition init_unwrapper :: "platform \<Rightarrow> (string \<rightharpoonup> string) \<Rightarrow> config \<Rightarrow> startup_error + unwrapper_impl" where
  "init_unwrapper p files cfg =
     (if xc_Driver (cf_Crypto cfg) = ''http'' then
        (case NewHTTPClient (\<lambda>c. builds (pf_certs p) files (unwrap_tls c)) (xc_HTTP (cf_Crypto cfg)) of
           Inl err \<Rightarrow> Inl (UnwrapperError err) | Inr c \<Rightarrow> Inr (HTTP_Impl c))
      else if xc_Driver (cf_Crypto cfg) = ''mock'' then
        (case initMockUnwrapper p of None \<Rightarrow> Inl MockUnwrapperExcluded | Some m \<Rightarrow> Inr (Mock_Unwrapper_Impl m))
      else Inl (UnknownCrypto (xc_Driver (cf_Crypto cfg))))"

definition init_bus :: "platform \<Rightarrow> (string \<rightharpoonup> string) \<Rightarrow> config \<Rightarrow> startup_error + bus_impl" where
  "init_bus p files cfg =
     (if ec_Driver (cf_EventBus cfg) = ''valkey_pubsub'' then
        (case Valkey_NewBus (\<lambda>c. builds (pf_certs p) files (valkey_tls c)) (pf_valkey_ok p) (ec_Valkey (cf_EventBus cfg)) of
           Inl err \<Rightarrow> Inl (BusError err)
         | Inr b \<Rightarrow> Inr (Valkey_Impl (if mc_Enabled (cf_Metrics cfg) then SetOnReconnect b True else b)))
      else if ec_Driver (cf_EventBus cfg) = ''memory'' then Inr (Memory_Impl (NewBus 1024))
      else Inl (UnknownBus (ec_Driver (cf_EventBus cfg))))"

definition drainBudget :: "config \<Rightarrow> int" where
  "drainBudget cfg =
     (let half = (if sd_GracePeriod (cf_Shutdown cfg) < 0 then - (- sd_GracePeriod (cf_Shutdown cfg) div 2)
                  else sd_GracePeriod (cf_Shutdown cfg) div 2)
      in if half \<le> 0 then ten_seconds else half)"

definition bus_Subscribe_impl :: "bus_impl \<Rightarrow> string list \<Rightarrow> bus_error + bus_impl" where
  "bus_Subscribe_impl b patterns =
     (case b of
        Valkey_Impl v \<Rightarrow> (case Valkey_Subscribe v patterns of Inl err \<Rightarrow> Inl err | Inr (v', _) \<Rightarrow> Inr (Valkey_Impl v'))
      | Memory_Impl m \<Rightarrow> (case Bus_Subscribe m of Inl err \<Rightarrow> Inl err | Inr (_, m') \<Rightarrow> Inr (Memory_Impl m')))"

definition bus_Name_impl :: "bus_impl \<Rightarrow> string" where
  "bus_Name_impl b = (case b of Valkey_Impl _ \<Rightarrow> Valkey_Name | Memory_Impl _ \<Rightarrow> Bus_Name)"

definition unwrapper_Name_impl :: "unwrapper_impl \<Rightarrow> string" where
  "unwrapper_Name_impl u = (case u of HTTP_Impl _ \<Rightarrow> Client_Name | Mock_Unwrapper_Impl _ \<Rightarrow> Mock_Unwrap_Name)"

text \<open>The names of the health checkers handed to the readiness probe.\<close>

definition init_checkers :: "config \<Rightarrow> bus_impl \<Rightarrow> unwrapper_impl \<Rightarrow> string list" where
  "init_checkers cfg b u =
     (if hl_RequireEventBus (cf_Health cfg) then [bus_Name_impl b] else []) @
     (if hl_RequireCrypto (cf_Health cfg) then [unwrapper_Name_impl u] else [])"

record 'l running =
  rn_cfg :: config
  rn_logger :: slog_logger
  rn_validator :: ticket_validator_impl
  rn_unwrapper :: unwrapper_impl
  rn_bus :: bus_impl
  rn_dispatcher :: dispatcher
  rn_checkers :: "string list"
  rn_router :: "'l api_router"

definition init_hub :: "heap \<Rightarrow> config \<Rightarrow> hub" where
  "init_hub hp cfg =
     (let h0 = NewHub hp (hb_Shards (cf_Hub cfg)) (cf_Limits cfg);
          h1 = (if mc_Enabled (cf_Metrics cfg) then SetObservabilityCallbacks h0 True True else h0)
      in if bt_Enabled (cf_Heartbeat cfg)
         then StartHeartbeat h1 (bt_Interval (cf_Heartbeat cfg)) (bt_Payload (cf_Heartbeat cfg)) else h1)"

definition start_components ::
  "platform \<Rightarrow> (string \<rightharpoonup> string) \<Rightarrow> heap \<Rightarrow> config \<Rightarrow> router \<Rightarrow> startup_error + 'l running" where
  "start_components p files hp cfg evRouter =
     (case init_validator p files cfg of
        Inl err \<Rightarrow> Inl err
      | Inr v \<Rightarrow>
          (case init_unwrapper p files cfg of
             Inl err \<Rightarrow> Inl err
           | Inr u \<Rightarrow>
               (case init_bus p files cfg of
                  Inl err \<Rightarrow> Inl err
                | Inr b0 \<Rightarrow>
                    (case bus_Subscribe_impl b0 [vc_ChannelPattern (ec_Valkey (cf_EventBus cfg))] of
                       Inl err \<Rightarrow> Inl (SubscribeError err)
                     | Inr b \<Rightarrow>
                         (case Api_NewRouter (pf_mux_ok p) cfg (init_hub hp cfg) evRouter (mc_Enabled (cf_Metrics cfg)) (pf_now p) of
                            None \<Rightarrow> Inl PatternPanic
                          | Some rt \<Rightarrow>
                              Inr \<lparr>rn_cfg = cfg, rn_logger = NewLogger (cf_Log cfg), rn_validator = v, rn_unwrapper = u,
                                   rn_bus = b,
                                   rn_dispatcher = SetDrainTimeout
                                     (NewDispatcher (hb_EventLanes (cf_Hub cfg)) (hb_EventLaneQueueSize (cf_Hub cfg)))
                                     (drainBudget cfg),
                                   rn_checkers = init_checkers cfg b u, rn_router = rt\<rparr>)))))"

definition start_gateway :: "platform \<Rightarrow> load_env \<Rightarrow> heap \<Rightarrow> startup_error + 'l running" where
  "start_gateway p e hp =
     (case LoadConfig e of
        Inl err \<Rightarrow> Inl (ConfigError err)
      | Inr cfg \<Rightarrow>
          (case Config_Validate cfg of
             Some err \<Rightarrow> Inl (InvalidConfig err)
           | None \<Rightarrow>
               (case NewRouter (rt_TopicTemplate (cf_Routing cfg)) of
                  Inl err \<Rightarrow> Inl (RouterError err)
                | Inr evRouter \<Rightarrow> start_components p (le_files e) hp cfg evRouter)))"

text \<open>The stand-alone health check: the URL it asks, and the exit code for the answer (\<open>None\<close>: no answer).\<close>

definition healthcheck_url :: "load_env \<Rightarrow> string" where
  "healthcheck_url e =
     (let port = (if os_Getenv e ''SSE_HTTP_LISTEN_PORT'' = [] then strconv_FormatInt DefaultListenPort
                  else os_Getenv e ''SSE_HTTP_LISTEN_PORT'');
          path = (if os_Getenv e ''SSE_HTTP_HEALTH_PATH'' = [] then DefaultHealthPath else os_Getenv e ''SSE_HTTP_HEALTH_PATH'')
      in ''http://127.0.0.1:'' @ port @ path)"

definition healthcheck_exit :: "nat option \<Rightarrow> nat" where
  "healthcheck_exit resp = (case resp of Some code \<Rightarrow> if code = 200 then 0 else 1 | None \<Rightarrow> 1)"

subsection \<open>The shutdown\<close>

definition lanes_Shut :: "dispatcher \<Rightarrow> dispatcher" where
  "lanes_Shut d = (if d_closed d then d else close_lanes (d\<lparr>d_closed := True\<rparr>))"

definition lanes_Close :: "dispatcher \<Rightarrow> dispatcher" where
  "lanes_Close d = (if d_closed d then d else (lanes_Shut d)\<lparr>d_cancelled := True\<rparr>)"

text \<open>\<open>None\<close>: a channel was closed twice.\<close>

definition bus_Close_impl :: "bus_impl \<Rightarrow> bus_impl option" where
  "bus_Close_impl b =
     (case b of Valkey_Impl v \<Rightarrow> Some (Valkey_Impl (Valkey_Close v)) | Memory_Impl m \<Rightarrow> map_option Memory_Impl (Bus_Close m))"

definition unwrapper_Close_impl :: "unwrapper_impl \<Rightarrow> unwrapper_impl" where
  "unwrapper_Close_impl u = (case u of HTTP_Impl c \<Rightarrow> HTTP_Impl c | Mock_Unwrapper_Impl m \<Rightarrow> Mock_Unwrapper_Impl (Mock_Unwrap_Close m))"

definition map_handler :: "(handler \<Rightarrow> handler) \<Rightarrow> 'l running \<Rightarrow> 'l running" where
  "map_handler f g = g\<lparr>rn_router := (rn_router g)\<lparr>ar_APIHandler := f (ar_APIHandler (rn_router g))\<rparr>\<rparr>"

text \<open>
  After a signal: the refusal of new streams, then (the HTTP server being shut down and the consumer stopped)
  the lanes, the bus, the unwrapper and the hub, and on return the rate limiter. What ends the streams in
  between is the endpoint's part (theory \<open>Api\<close>).
\<close>

definition shutdown_gateway :: "client_order \<Rightarrow> 'l running \<Rightarrow> 'l running option" where
  "shutdown_gateway ord g =
     (let g1 = (if sd_StopAcceptingFirst (cf_Shutdown (rn_cfg g)) then map_handler (\<lambda>h. SetShuttingDown h True) g else g);
          g2 = g1\<lparr>rn_dispatcher := lanes_Close (rn_dispatcher g1)\<rparr>
      in map_option (\<lambda>b.
           let g3 = g2\<lparr>rn_bus := b, rn_unwrapper := unwrapper_Close_impl (rn_unwrapper g2)\<rparr>;
               g4 = map_handler (\<lambda>h. h\<lparr>hd_hub := Hub_Close ord (hd_hub h)\<rparr>) g3
           in g4\<lparr>rn_router := Router_Close (rn_router g4)\<rparr>)
         (bus_Close_impl (rn_bus g2)))"

section \<open>Lemmas\<close>

lemma Validate_None:
  assumes "Config_Validate c = None"
  shows "0 < hc_ListenPort (cf_HTTP c)" "hc_ListenPort (cf_HTTP c) \<le> 65535" "0 < hb_Shards (cf_Hub c)"
    "0 < hb_EventLanes (cf_Hub c)" "0 < hb_ClientQueueSize (cf_Hub c)"
    "strings_EqualFold (cf_Environment c) ''production'' \<Longrightarrow> xc_Driver (cf_Crypto c) \<noteq> ''mock''"
    "strings_EqualFold (cf_Environment c) ''production'' \<Longrightarrow> au_Driver (cf_Auth c) \<noteq> ''mock''"
    "strings_EqualFold (cf_Environment c) ''production'' \<Longrightarrow> \<not> cc_TLSInsecureSkipVerify (xc_HTTP (cf_Crypto c))"
    "strings_EqualFold (cf_Environment c) ''production'' \<Longrightarrow> \<not> vc_TLSInsecureSkip (ec_Valkey (cf_EventBus c))"
  using assms by (auto simp: Config_Validate_def split: if_splits)

lemma NewHTTPClient_tls:
  assumes "NewHTTPClient tls_ok cfg = Inr c"
  shows "cc_TLSInsecureSkipVerify (uc_cfg c) = cc_TLSInsecureSkipVerify cfg" "cc_TLSEnabled (uc_cfg c) \<Longrightarrow> tls_ok (uc_cfg c)"
proof -
  obtain path isUnix where cut: "strings_CutPrefix (cc_BaseURL cfg) unixSchemePrefix = (path, isUnix)" by fastforce
  from assms have "cc_TLSInsecureSkipVerify (uc_cfg c) = cc_TLSInsecureSkipVerify cfg \<and>
      (cc_TLSEnabled (uc_cfg c) \<longrightarrow> tls_ok (uc_cfg c))"
    by (cases isUnix) (auto simp: NewHTTPClient_def Let_def cut split: if_splits)
  then show "cc_TLSInsecureSkipVerify (uc_cfg c) = cc_TLSInsecureSkipVerify cfg" "cc_TLSEnabled (uc_cfg c) \<Longrightarrow> tls_ok (uc_cfg c)" by simp_all
qed

lemma Valkey_NewBus_tls:
  assumes "Valkey_NewBus tls_ok client_ok cfg = Inr b"
  shows "vc_TLSInsecureSkip (vb_cfg b) = vc_TLSInsecureSkip cfg" "vc_TLSEnabled (vb_cfg b) \<Longrightarrow> tls_ok (vb_cfg b)"
  using assms by (auto simp: Valkey_NewBus_def Let_def split: if_splits)

text \<open>A connection that verifies its peer: no TLS is asked for, or TLS 1.3 with verification.\<close>

definition verified :: "cert_lib \<Rightarrow> (string \<rightharpoonup> string) \<Rightarrow> bool \<Rightarrow> tls_params \<Rightarrow> bool" where
  "verified lib files enabled tp \<longleftrightarrow> (enabled \<longrightarrow>
     (\<exists>tc. Build lib files tp = Inr tc \<and> tc_MinVersion tc = VersionTLS13 \<and> \<not> tc_InsecureSkipVerify tc))"

lemma builds_verified: "builds lib files tp \<Longrightarrow> \<not> tp_InsecureSkipVerify tp \<Longrightarrow> verified lib files b tp"
  using Build_Inr by (fastforce simp: verified_def builds_def split: sum.splits)

lemma validator_real:
  assumes "init_validator p files cfg = Inr v" "pf_production p \<or> au_Driver (cf_Auth cfg) \<noteq> ''mock''"
  shows "\<exists>jv. v = JWT_Impl jv \<and> NewJWTValidator (pf_keys p) files (au_JWT (cf_Auth cfg)) = Inr jv"
  using assms by (auto simp: init_validator_def initMockValidator_def split: if_splits sum.splits)

lemma unwrapper_real:
  assumes "init_unwrapper p files cfg = Inr u" "pf_production p \<or> xc_Driver (cf_Crypto cfg) \<noteq> ''mock''"
  shows "\<exists>c. u = HTTP_Impl c \<and> (\<not> cc_TLSInsecureSkipVerify (xc_HTTP (cf_Crypto cfg)) \<longrightarrow>
    verified (pf_certs p) files (cc_TLSEnabled (uc_cfg c)) (unwrap_tls (uc_cfg c)))"
proof -
  obtain c where c: "u = HTTP_Impl c"
    "NewHTTPClient (\<lambda>c. builds (pf_certs p) files (unwrap_tls c)) (xc_HTTP (cf_Crypto cfg)) = Inr c"
    using assms by (auto simp: init_unwrapper_def initMockUnwrapper_def split: if_splits sum.splits)
  have "verified (pf_certs p) files (cc_TLSEnabled (uc_cfg c)) (unwrap_tls (uc_cfg c))"
    if "\<not> cc_TLSInsecureSkipVerify (xc_HTTP (cf_Crypto cfg))"
    using NewHTTPClient_tls [OF c(2)] builds_verified [of "pf_certs p" files "unwrap_tls (uc_cfg c)"] that
    by (cases "cc_TLSEnabled (uc_cfg c)") (simp_all add: unwrap_tls_def verified_def)
  with c(1) show ?thesis by blast
qed

lemma bus_verified:
  assumes "init_bus p files cfg = Inr b0" "bus_Subscribe_impl b0 ps = Inr (Valkey_Impl b)"
    and "\<not> vc_TLSInsecureSkip (ec_Valkey (cf_EventBus cfg))"
  shows "verified (pf_certs p) files (vc_TLSEnabled (vb_cfg b)) (valkey_tls (vb_cfg b))"
proof -
  obtain v where v: "Valkey_NewBus (\<lambda>c. builds (pf_certs p) files (valkey_tls c)) (pf_valkey_ok p) (ec_Valkey (cf_EventBus cfg)) = Inr v"
    "vb_cfg b = vb_cfg v"
    using assms(1,2)
    by (auto simp: init_bus_def bus_Subscribe_impl_def Valkey_Subscribe_def SetOnReconnect_def
        split: if_splits sum.splits bus_impl.splits)
  show ?thesis
    using Valkey_NewBus_tls [OF v(1)] builds_verified [of "pf_certs p" files "valkey_tls (vb_cfg v)"] assms(3)
    by (cases "vc_TLSEnabled (vb_cfg v)") (simp_all add: valkey_tls_def verified_def v(2))
qed

lemma start_Inr:
  assumes "start_gateway p e hp = Inr g"
  obtains cfg r b0 where "LoadConfig e = Inr cfg" "Config_Validate cfg = None"
    "NewRouter (rt_TopicTemplate (cf_Routing cfg)) = Inr r" "rn_cfg g = cfg"
    "init_validator p (le_files e) cfg = Inr (rn_validator g)" "init_unwrapper p (le_files e) cfg = Inr (rn_unwrapper g)"
    "init_bus p (le_files e) cfg = Inr b0"
    "bus_Subscribe_impl b0 [vc_ChannelPattern (ec_Valkey (cf_EventBus cfg))] = Inr (rn_bus g)"
    "hd_hub (ar_APIHandler (rn_router g)) = init_hub hp cfg"
    "Api_NewRouter (pf_mux_ok p) cfg (init_hub hp cfg) r (mc_Enabled (cf_Metrics cfg)) (pf_now p) = Some (rn_router g)"
    "rn_dispatcher g = SetDrainTimeout (NewDispatcher (hb_EventLanes (cf_Hub cfg)) (hb_EventLaneQueueSize (cf_Hub cfg))) (drainBudget cfg)"
proof -
  obtain cfg r where c: "LoadConfig e = Inr cfg" "Config_Validate cfg = None" "NewRouter (rt_TopicTemplate (cf_Routing cfg)) = Inr r"
    "start_components p (le_files e) hp cfg r = Inr g"
    using assms by (auto simp: start_gateway_def split: sum.splits option.splits)
  obtain v u b0 b where i: "init_validator p (le_files e) cfg = Inr v" "init_unwrapper p (le_files e) cfg = Inr u"
    "init_bus p (le_files e) cfg = Inr b0" "bus_Subscribe_impl b0 [vc_ChannelPattern (ec_Valkey (cf_EventBus cfg))] = Inr b"
    using c(4) by (auto simp: start_components_def split: sum.splits option.splits)
  obtain rt where rt: "Api_NewRouter (pf_mux_ok p) cfg (init_hub hp cfg) r (mc_Enabled (cf_Metrics cfg)) (pf_now p) = Some rt"
    and g: "rn_cfg g = cfg" "rn_validator g = v" "rn_unwrapper g = u" "rn_bus g = b" "rn_router g = rt"
      "rn_dispatcher g = SetDrainTimeout (NewDispatcher (hb_EventLanes (cf_Hub cfg)) (hb_EventLaneQueueSize (cf_Hub cfg))) (drainBudget cfg)"
    using c(4) i by (auto simp: start_components_def split: option.splits)
  have "hd_hub (ar_APIHandler rt) = init_hub hp cfg"
    using rt by (auto simp: Api_NewRouter_def NewHandler_def Let_def)
  with that [OF c(1-3) g(1)] i g rt show thesis by simp
qed

lemma production_validator:
  assumes "start_gateway p e hp = Inr g"
    and "pf_production p \<or> strings_EqualFold (getEnv e ''SSE_ENVIRONMENT'' ''production'') ''production''"
  shows "\<exists>jv. rn_validator g = JWT_Impl jv \<and> NewJWTValidator (pf_keys p) (le_files e) (au_JWT (cf_Auth (rn_cfg g))) = Inr jv"
proof -
  obtain cfg where c: "LoadConfig e = Inr cfg" "Config_Validate cfg = None" "rn_cfg g = cfg"
    "init_validator p (le_files e) cfg = Inr (rn_validator g)"
    using start_Inr [OF assms(1)] by metis
  have "cf_Environment cfg = getEnv e ''SSE_ENVIRONMENT'' ''production''" by (rule loaded_environment [OF c(1)])
  with Validate_None(7) [OF c(2)] validator_real [OF c(4)] assms(2) c(3) show ?thesis by auto
qed

section \<open>Properties\<close>


text \<open>A production environment with a raw key, one shard and one lane.\<close>

definition prod_env :: load_env where
  "prod_env = empty_env\<lparr>le_env := (\<lambda>n.
     if n = ''SSE_AUTH_JWT_PUBLIC_KEY'' then Some demo_key
     else if n = ''SSE_AUTH_JWT_AUDIENCE'' then Some ''sse''
     else if n = ''SSE_HUB_SHARDS'' \<or> n = ''SSE_EVENT_LANES'' then Some ''1'' else None)\<rparr>"

definition demo_platform :: platform where
  "demo_platform = \<lparr>pf_production = True, pf_keys = demo_lib, pf_certs = \<lparr>AppendCertsFromPEM = (\<lambda>_. []), X509KeyPair = (\<lambda>_ _. None)\<rparr>,
     pf_valkey_ok = (\<lambda>_. True), pf_mux_ok = (\<lambda>ps p. p \<notin> set ps), pf_now = 0\<rparr>"

definition server_heap :: heap where
  "server_heap = (\<lambda>_. NewClient [] [] [] [] 1 [] False)"

lemma prod_starts:
  "case (start_gateway demo_platform prod_env server_heap :: startup_error + unit running) of
     Inr g \<Rightarrow> hb_Shards (cf_Hub (rn_cfg g)) < 2 ^ 32 | Inl _ \<Rightarrow> False"
  by code_simp


lemma empty_env_config:
  "case LoadConfig empty_env of
     Inr c \<Rightarrow> Config_Validate c = None \<and> rt_TopicTemplate (cf_Routing c) = default_template \<and>
       au_Driver (cf_Auth c) = ''jwt'' \<and> jc_Algorithm (au_JWT (cf_Auth c)) = ''EdDSA'' \<and>
       jc_PublicKeyBytes (au_JWT (cf_Auth c)) = [] \<and> jc_PublicKeyFile (au_JWT (cf_Auth c)) = []
   | Inl _ \<Rightarrow> False"
  by code_simp

lemma no_key_no_validator:
  assumes "jc_Algorithm cfg = ''EdDSA''" "jc_PublicKeyBytes cfg = []" "jc_PublicKeyFile cfg = []"
  shows "NewJWTValidator lib files cfg = Inl ErrMissingKey"
proof -
  have "strings_ToUpper ''EdDSA'' = ''EDDSA''" by (simp add: ToUpper_ascii is_ascii_def upper_char_def char_eq_iff_of_char)
  with assms show ?thesis by (simp add: NewJWTValidator_def load_key_bytes_def parse_key_def public_key_def Let_def)
qed

text \<open>
  An unconfigured gateway does not start. With an empty environment the configuration loads and is valid,
  and the start fails because no key for the tickets is given, in every build and on every platform.
\<close>

theorem unconfigured_gateway_does_not_start:
  "(start_gateway p empty_env hp :: startup_error + 'l running) = Inl (ValidatorError ErrMissingKey)"
proof -
  obtain c where c: "LoadConfig empty_env = Inr c" "Config_Validate c = None" "rt_TopicTemplate (cf_Routing c) = default_template"
    "au_Driver (cf_Auth c) = ''jwt''" "jc_Algorithm (au_JWT (cf_Auth c)) = ''EdDSA''"
    "jc_PublicKeyBytes (au_JWT (cf_Auth c)) = []" "jc_PublicKeyFile (au_JWT (cf_Auth c)) = []"
    using empty_env_config by (auto split: sum.splits)
  obtain r where r: "NewRouter default_template = Inr r" using NewRouter_default by (auto simp: NewRouter_def Let_def default_valid)
  show ?thesis
    using c r no_key_no_validator [OF c(5-7)]
    by (simp add: start_gateway_def start_components_def init_validator_def)
qed

text \<open>The hub a gateway starts with is a reachable one.\<close>

lemma init_hub_reach:
  assumes "\<And>c. client_wf (hp c)"
  shows "hub_reach ord (hb_Shards (cf_Hub cfg)) (cf_Limits cfg) (init_hub hp cfg) {}"
proof -
  have "hub_reach ord (hb_Shards (cf_Hub cfg)) (cf_Limits cfg) (NewHub hp (hb_Shards (cf_Hub cfg)) (cf_Limits cfg)) {}"
    by (rule hub_reach.start) (rule assms)
  then show ?thesis by (auto simp: init_hub_def Let_def intro: hub_reach.callbacks hub_reach.heartbeat_on)
qed

text \<open>A bus that its close leaves in order: every Valkey bus, and a memory bus with its invariant.\<close>

definition bus_good :: "bus_impl \<Rightarrow> bool" where
  "bus_good b \<longleftrightarrow> (case b of Valkey_Impl _ \<Rightarrow> True | Memory_Impl m \<Rightarrow> bus_wf m)"

lemma bus_close_final:
  assumes "bus_good b"
  shows "\<exists>b'. bus_Close_impl b = Some b' \<and> bus_good b' \<and> bus_Subscribe_impl b' ps = Inl ErrBusClosed \<and> bus_Close_impl b' = Some b'"
proof (cases b)
  case (Valkey_Impl v)
  with valkey.close_final [of v ps True] show ?thesis by (auto simp: bus_Close_impl_def bus_Subscribe_impl_def bus_good_def)
next
  case (Memory_Impl m)
  with assms memory.close_final [of m] show ?thesis
    by (fastforce simp: bus_Close_impl_def bus_Subscribe_impl_def bus_good_def)
qed

lemma shutdown_result:
  assumes "bus_Close_impl (rn_bus g) = Some b'"
  shows "\<exists>g'. shutdown_gateway ord g = Some g' \<and>
    hd_hub (ar_APIHandler (rn_router g')) = Hub_Close ord (hd_hub (ar_APIHandler (rn_router g))) \<and> rn_bus g' = b' \<and>
    rn_dispatcher g' = lanes_Close (rn_dispatcher g) \<and> ar_limiter (rn_router g') = map_option limiter_Stop (ar_limiter (rn_router g)) \<and>
    hd_isShuttingDown (ar_APIHandler (rn_router g')) =
      (sd_StopAcceptingFirst (cf_Shutdown (rn_cfg g)) \<or> hd_isShuttingDown (ar_APIHandler (rn_router g)))"
  using assms
  by (cases "sd_StopAcceptingFirst (cf_Shutdown (rn_cfg g))")
    (auto simp: shutdown_gateway_def map_handler_def Router_Close_def SetShuttingDown_def Let_def)

text \<open>
  The shutdown leaves nothing open. It completes without a panic; afterwards the hub is closed, so that no
  stream is admitted and every connection that was live has been told to end, the lanes take no event any more,
  the bus gives no subscription, and the rate limiter's cleanup is stopped. If it is asked to, the endpoint
  turns new requests away from the first step on.
\<close>

theorem shutdown_leaves_nothing_open:
  fixes g :: "'l running"
  assumes reach: "hub_reach ord n lm (hd_hub (ar_APIHandler (rn_router g))) R" and ord: "range_order ord" and n: "n < 2 ^ 32"
    and bus: "bus_good (rn_bus g)"
  shows "\<exists>g'. shutdown_gateway ord g = Some g' \<and>
    (let h = hd_hub (ar_APIHandler (rn_router g)); h' = hd_hub (ar_APIHandler (rn_router g')) in
      (\<forall>c \<in> live h R. Done (h_heap h' c)) \<and> (\<forall>t u k. CheckLimits h' t u k = Some ErrHubClosed) \<and>
      (\<forall>c ks. Hub_Register h' c ks = Inl ErrHubClosed)) \<and>
    (\<forall>ev. Dispatch (rn_dispatcher g') ev = Some (rn_dispatcher g', False)) \<and>
    (\<forall>ps. bus_Subscribe_impl (rn_bus g') ps = Inl ErrBusClosed) \<and>
    (\<forall>l. ar_limiter (rn_router g') = Some l \<longrightarrow> rl_stopped l) \<and>
    (sd_StopAcceptingFirst (cf_Shutdown (rn_cfg g)) \<longrightarrow> hd_isShuttingDown (ar_APIHandler (rn_router g')))"
proof -
  let ?h = "hd_hub (ar_APIHandler (rn_router g))"
  obtain b' where b': "bus_Close_impl (rn_bus g) = Some b'" using bus_close_final [OF bus, of "[]"] by blast
  have sub: "bus_Subscribe_impl b' ps = Inl ErrBusClosed" for ps using bus_close_final [OF bus, of ps] b' by simp
  obtain g' where g': "shutdown_gateway ord g = Some g'" "hd_hub (ar_APIHandler (rn_router g')) = Hub_Close ord ?h" "rn_bus g' = b'"
    "rn_dispatcher g' = lanes_Close (rn_dispatcher g)" "ar_limiter (rn_router g') = map_option limiter_Stop (ar_limiter (rn_router g))"
    "hd_isShuttingDown (ar_APIHandler (rn_router g')) =
       (sd_StopAcceptingFirst (cf_Shutdown (rn_cfg g)) \<or> hd_isShuttingDown (ar_APIHandler (rn_router g)))"
    using shutdown_result [OF b', of ord] by blast
  have closed: "hub_reach ord n lm (Hub_Close ord ?h) R" using reach by (rule hub_reach.closed)
  have hc: "h_closed (Hub_Close ord ?h)" by (simp add: Hub_Close_if)
  have "Done (h_heap (Hub_Close ord ?h) c)" if "c \<in> live ?h R" for c
  proof -
    have "cl_closed (h_heap (Hub_Close ord ?h) c)"
      using hub_reach_inv [OF closed ord n] hc that by (simp add: reach_inv_def live_close)
    then show ?thesis using reach_parts(6) [OF closed ord n, of c] by (auto simp: client_wf_def Done_def)
  qed
  moreover have "Dispatch (lanes_Close d) ev = Some (lanes_Close d, False)" for d ev
    by (simp add: Dispatch_def lanes_Close_def lanes_Shut_def close_lanes_def)
  moreover have "rl_stopped (limiter_Stop l)" for l :: "'l ip_rate_limiter" by (simp add: limiter_Stop_def)
  ultimately show ?thesis
    using g' sub hc by (intro exI [of _ g']) (auto simp: CheckLimits_def Hub_Register_def)
qed

theorem shutdown_leaves_nothing_open_witness:
  "\<exists>g g'. (start_gateway demo_platform prod_env server_heap :: startup_error + unit running) = Inr g \<and>
     shutdown_gateway (\<lambda>xs. xs) g = Some g' \<and> CheckLimits (hd_hub (ar_APIHandler (rn_router g'))) ''t'' ''u'' 1 = Some ErrHubClosed"
proof -
  obtain g where g: "(start_gateway demo_platform prod_env server_heap :: startup_error + unit running) = Inr g"
    "hb_Shards (cf_Hub (rn_cfg g)) < 2 ^ 32"
    using prod_starts by (auto split: sum.splits)
  obtain cfg b0 where c: "rn_cfg g = cfg" "hd_hub (ar_APIHandler (rn_router g)) = init_hub server_heap cfg"
    "bus_Subscribe_impl b0 [vc_ChannelPattern (ec_Valkey (cf_EventBus cfg))] = Inr (rn_bus g)"
    "init_bus demo_platform (le_files prod_env) cfg = Inr b0"
    using start_Inr [OF g(1)] by metis
  have "hub_reach (\<lambda>xs. xs) (hb_Shards (cf_Hub cfg)) (cf_Limits cfg) (hd_hub (ar_APIHandler (rn_router g))) {}"
    unfolding c(2) by (rule init_hub_reach) (simp add: server_heap_def NewClient_wf)
  moreover have "bus_good (rn_bus g)"
    using c(3,4) NewBus_wf
    by (auto simp: bus_good_def bus_Subscribe_impl_def init_bus_def Bus_Subscribe_def bus_wf_def Let_def NewBus_def chan_open_def
        make_chan_def chan_wf_def split: bus_impl.splits sum.splits if_splits)
  ultimately obtain g' where "shutdown_gateway (\<lambda>xs. xs) g = Some g'"
    "CheckLimits (hd_hub (ar_APIHandler (rn_router g'))) ''t'' ''u'' 1 = Some ErrHubClosed"
    using shutdown_leaves_nothing_open [of "\<lambda>xs. xs" "hb_Shards (cf_Hub cfg)" "cf_Limits cfg" g "{}"] range_order_id g(2) c(1)
    unfolding Let_def by blast
  with g(1) show ?thesis by blast
qed

end
