(* ===== verification/System.thy ===== *)
theory System
  imports Api_Props Server "HOL-Library.Sublist"
begin

text \<open>
  The gateway as a whole: the requests of the endpoint (theory \<open>Api\<close>), the consumer of the event bus and the
  lane workers with the pipeline (theory \<open>Gateway\<close>), the heartbeat and the steps of the shutdown, all on one
  hub and in any order, from the state the start of \<^verbatim>\<open>main.go\<close> leaves (theory \<open>Server\<close>). A round of the consumer
  and a round of a worker are atomic here; their interleavings inside the dispatcher are theory \<open>Dispatcher\<close>.
  \<open>sy_seen\<close> and \<open>sy_handled\<close> are history: the events taken from the bus, and the events the workers handled
  with the frame each one was turned into.
\<close>

section \<open>Definitions\<close>

record 'u system =
  sy_api :: api
  sy_gw :: gateway
  sy_pipe :: "'u pipe_state"
  sy_seen :: "encrypted_event list"
  sy_handled :: "(encrypted_event \<times> frame option) list"

text \<open>The one hub is the handler's.\<close>

abbreviation sy_hub :: "'u system \<Rightarrow> hub" where
  "sy_hub s \<equiv> hd_hub (ap_handler (sy_api s))"

abbreviation sy_cfg :: "'u system \<Rightarrow> config" where
  "sy_cfg s \<equiv> hd_cfg (ap_handler (sy_api s))"

abbreviation sy_router :: "'u system \<Rightarrow> router" where
  "sy_router s \<equiv> hd_router (ap_handler (sy_api s))"

definition gw_view :: "'u system \<Rightarrow> gateway" where
  "gw_view s = (sy_gw s)\<lparr>g_hub := sy_hub s\<rparr>"

definition set_hub :: "api \<Rightarrow> hub \<Rightarrow> api" where
  "set_hub a h = a\<lparr>ap_handler := (ap_handler a)\<lparr>hd_hub := h\<rparr>\<rparr>"

definition pipeline_cfg :: "config \<Rightarrow> crypto_cfg" where
  "pipeline_cfg cfg = crypto_cfg.truncate (cf_Crypto cfg)"

definition heartbeat_frame :: "config \<Rightarrow> frame" where
  "heartbeat_frame cfg = NewHeartbeatFrame (bt_Payload (cf_Heartbeat cfg))"

text \<open>A round of the consumer; \<open>None\<close> if it panics.\<close>

definition consume_step :: "client_order \<Rightarrow> encrypted_event \<Rightarrow> 'u system \<Rightarrow> 'u system option" where
  "consume_step ord ev s =
     map_option (\<lambda>g. s\<lparr>sy_gw := g, sy_api := set_hub (sy_api s) (g_hub g), sy_seen := sy_seen s @ [ev]\<rparr>)
       (ConsumeEvent ord (sy_router s) (au_InvalidationEventType (cf_Auth (sy_cfg s))) (gw_view s) ev)"

text \<open>The frame the pipeline makes of an event, if it has recipients and decrypts.\<close>

definition built_frame :: "'u unwrap \<Rightarrow> gcm \<Rightarrow> client_order \<Rightarrow> encrypted_event \<Rightarrow> 'u system \<Rightarrow> frame option" where
  "built_frame unwrap gcm_open ord ev s =
     (if hub_recipients ord (sy_hub s) (event_key (sy_router s) ev) = [] then None
      else case snd (DecryptAndBuildFrame unwrap gcm_open (pipeline_cfg (sy_cfg s)) ev (sy_pipe s)) of
             Inl _ \<Rightarrow> None | Inr f \<Rightarrow> f)"

definition work_step :: "'u unwrap \<Rightarrow> gcm \<Rightarrow> client_order \<Rightarrow> nat \<Rightarrow> 'u system \<Rightarrow> 'u system" where
  "work_step unwrap gcm_open ord i s =
     (case worker_take (g_disp (sy_gw s)) i of
        None \<Rightarrow> s
      | Some (ev, _) \<Rightarrow>
          (case WorkerRound unwrap gcm_open (pipeline_cfg (sy_cfg s)) (sy_router s) ord i (gw_view s, sy_pipe s) of
             (g, st) \<Rightarrow> s\<lparr>sy_gw := g, sy_api := set_hub (sy_api s) (g_hub g), sy_pipe := st,
                          sy_handled := sy_handled s @ [(ev, built_frame unwrap gcm_open ord ev s)]\<rparr>))"

text \<open>The steps of the endpoint's handlers and of the heartbeat; deliveries and revocations come from the bus.\<close>

inductive serve_step :: "client_order \<Rightarrow> ticket_check \<Rightarrow> api \<Rightarrow> api \<Rightarrow> bool"
  for ord :: client_order and validate :: ticket_check where
  throttle: "i < length (ap_conns a) \<Longrightarrow> cn_phase (ap_conns a ! i) = Arrived \<Longrightarrow>
    serve_step ord validate a
      (put a i (ap_handler a, finished (ap_conns a ! i) (rate_limited (cn_writer (ap_conns a ! i)))))"
| enter: "i < length (ap_conns a) \<Longrightarrow> cn_phase (ap_conns a ! i) = Arrived \<Longrightarrow>
    serve_step ord validate a (put a i (enter_step (ap_handler a) (ap_conns a ! i)))"
| check: "i < length (ap_conns a) \<Longrightarrow> cn_phase (ap_conns a ! i) = Admitting \<Longrightarrow>
    serve_step ord validate a (put a i (check_phase validate now (ap_handler a) (ap_conns a ! i)))"
| register: "i < length (ap_conns a) \<Longrightarrow> cn_phase (ap_conns a ! i) = Registering \<Longrightarrow> cn_cap (ap_conns a ! i) = Some cap \<Longrightarrow>
    fresh_client (hd_hub (ap_handler a)) (admitted_refs a) c (new_connection (ap_handler a) cap connectionID) \<Longrightarrow>
    serve_step ord validate a (put a i (register_phase c connectionID cap (ap_handler a) (ap_conns a ! i)))"
| open_stream: "i < length (ap_conns a) \<Longrightarrow> cn_phase (ap_conns a ! i) = Accepted \<Longrightarrow> cn_ref (ap_conns a ! i) = Some c \<Longrightarrow>
    serve_step ord validate a (put a i (open_phase now ok c (ap_handler a) (ap_conns a ! i)))"
| deliver: "i < length (ap_conns a) \<Longrightarrow> cn_phase (ap_conns a ! i) = Streaming \<Longrightarrow> cn_ref (ap_conns a ! i) = Some c \<Longrightarrow>
    DequeueFrame (h_heap (hd_hub (ap_handler a)) c) = Some (f, cl) \<Longrightarrow>
    serve_step ord validate a (put a i (frame_phase now ok c f (ap_handler a) (ap_conns a ! i)))"
| leave: "i < length (ap_conns a) \<Longrightarrow> cn_phase (ap_conns a ! i) = Streaming \<Longrightarrow> cn_ref (ap_conns a ! i) = Some c \<Longrightarrow>
    serve_step ord validate a
      (put a i (stream_leave (ap_handler a) c, finished (ap_conns a ! i) (cn_writer (ap_conns a ! i))))"
| heartbeat: "bt_Enabled (cf_Heartbeat (hd_cfg (ap_handler a))) \<Longrightarrow>
    serve_step ord validate a
      (set_hub a (BroadcastHeartbeat ord (hd_hub (ap_handler a)) (heartbeat_frame (hd_cfg (ap_handler a)))))"

text \<open>With the arrivals, and what the shutdown does to the endpoint.\<close>

inductive request_step :: "client_order \<Rightarrow> ticket_check \<Rightarrow> api \<Rightarrow> api \<Rightarrow> bool"
  for ord :: client_order and validate :: ticket_check where
  arrive: "request_step ord validate a (a\<lparr>ap_conns := ap_conns a @ [arriving r (endpoint_writer fresh r)]\<rparr>)"
| serve: "serve_step ord validate a a' \<Longrightarrow> request_step ord validate a a'"
| shut_down: "request_step ord validate a (a\<lparr>ap_handler := SetShuttingDown (ap_handler a) b\<rparr>)"
| close_hub: "request_step ord validate a (set_hub a (Hub_Close ord (hd_hub (ap_handler a))))"

inductive system_step :: "'u unwrap \<Rightarrow> gcm \<Rightarrow> client_order \<Rightarrow> ticket_check \<Rightarrow> 'u system \<Rightarrow> 'u system \<Rightarrow> bool"
  for unwrap :: "'u unwrap" and gcm_open :: gcm and ord :: client_order and validate :: ticket_check where
  request: "request_step ord validate (sy_api s) a \<Longrightarrow> system_step unwrap gcm_open ord validate s (s\<lparr>sy_api := a\<rparr>)"
| consume: "consume_step ord ev s = Some s' \<Longrightarrow> system_step unwrap gcm_open ord validate s s'"
| work: "i < length (d_lanes (g_disp (sy_gw s))) \<Longrightarrow>
    system_step unwrap gcm_open ord validate s (work_step unwrap gcm_open ord i s)"
| stop_lanes: "system_step unwrap gcm_open ord validate s
    (s\<lparr>sy_gw := (sy_gw s)\<lparr>g_disp := lanes_Shut (g_disp (sy_gw s))\<rparr>\<rparr>)"
| cancel_lanes: "system_step unwrap gcm_open ord validate s
    (s\<lparr>sy_gw := (sy_gw s)\<lparr>g_disp := (g_disp (sy_gw s))\<lparr>d_cancelled := True\<rparr>\<rparr>\<rparr>)"

inductive system_reach :: "'u unwrap \<Rightarrow> gcm \<Rightarrow> client_order \<Rightarrow> ticket_check \<Rightarrow> 'u system \<Rightarrow> 'u system \<Rightarrow> bool"
  for unwrap :: "'u unwrap" and gcm_open :: gcm and ord :: client_order and validate :: ticket_check and s0 :: "'u system" where
  start: "system_reach unwrap gcm_open ord validate s0 s0"
| step: "system_reach unwrap gcm_open ord validate s0 s \<Longrightarrow> system_step unwrap gcm_open ord validate s s' \<Longrightarrow>
    system_reach unwrap gcm_open ord validate s0 s'"

inductive_cases serve_step_elim: "serve_step ord validate a a'"
inductive_cases request_step_elim: "request_step ord validate a a'"
inductive_cases system_step_elim: "system_step unwrap gcm_open ord validate s s'"

definition start_system :: "'u pipe_state \<Rightarrow> 'l running \<Rightarrow> 'u system" where
  "start_system st g =
     \<lparr>sy_api = \<lparr>ap_handler = ar_APIHandler (rn_router g), ap_conns = []\<rparr>,
      sy_gw = \<lparr>g_hub = hd_hub (ar_APIHandler (rn_router g)), g_disp = rn_dispatcher g,
        g_metrics = mc_Enabled (cf_Metrics (rn_cfg g)), g_received = 0, g_noSubscriber = 0, g_dropped = 0\<rparr>,
      sy_pipe = st, sy_seen = [], sy_handled = []\<rparr>"

subsection \<open>What a stream is made of\<close>

text \<open>The routing key of an event, and the event with it, as the consumer puts it into a lane.\<close>

definition route :: "router \<Rightarrow> encrypted_event \<Rightarrow> string" where
  "route r ev = BuildKey r (ev_TenantID ev) (ev_AppID ev) (ev_TopicID ev)"

definition routed :: "router \<Rightarrow> encrypted_event \<Rightarrow> encrypted_event" where
  "routed r ev = ev\<lparr>ev_RoutingKey := route r ev\<rparr>"

text \<open>The frames made of the events of the given keys, in the order the events were handled.\<close>

definition frame_for :: "router \<Rightarrow> string set \<Rightarrow> encrypted_event \<times> frame option \<Rightarrow> frame list" where
  "frame_for r keys e = (case snd e of Some f \<Rightarrow> if route r (fst e) \<in> keys then [f] else [] | None \<Rightarrow> [])"

definition frames_for :: "router \<Rightarrow> string set \<Rightarrow> (encrypted_event \<times> frame option) list \<Rightarrow> frame list" where
  "frames_for r keys hs = concat (map (frame_for r keys) hs)"

text \<open>The frames a connection was sent and those that wait for it, without the heartbeats.\<close>

definition data_frames :: "'u system \<Rightarrow> conn \<Rightarrow> ref \<Rightarrow> frame list" where
  "data_frames s k c = filter (\<lambda>f. f \<noteq> heartbeat_frame (sy_cfg s)) (cn_sent k @ cl_queue (h_heap (sy_hub s) c))"

section \<open>The endpoint's part\<close>

lemma serve_api: "serve_step ord validate a a' \<Longrightarrow> api_step ord validate a a'"
  by (induction rule: serve_step.induct) (auto simp: set_hub_def intro: api_step.intros)

lemma request_api: "request_step ord validate a a' \<Longrightarrow> api_step ord validate a a'"
  by (induction rule: request_step.induct) (auto simp: set_hub_def intro: api_step.intros serve_api)

text \<open>What the hub sees of a callback: its frame or that it failed.\<close>

abbreviation outcome :: "'e + frame option \<Rightarrow> build_result" where
  "outcome \<equiv> map_sum (\<lambda>_. []) id"

lemma broadcast_built:
  "fst (ConditionalBroadcast ord h x key cb) = fst (ConditionalBroadcast ord h () key (\<lambda>_. ((), outcome (snd (cb x)))))"
  by (auto simp: ConditionalBroadcast_eq split: sum.split option.split)

lemma HandleEvent_hub:
  "fst (HandleEvent unwrap g cfg r ord ev (h, st)) =
     fst (ConditionalBroadcast ord h () (event_key r ev) (\<lambda>_. ((), outcome (snd (DecryptAndBuildFrame unwrap g cfg ev st)))))"
  unfolding broadcast_built [symmetric, where cb = "DecryptAndBuildFrame unwrap g cfg ev" and x = st]
  by (auto simp: HandleEvent_def split: prod.split sum.split)

lemma set_hub_same [simp]: "set_hub a (hd_hub (ap_handler a)) = a"
  by (simp add: set_hub_def)

lemma set_hub_fields [simp]:
  "hd_hub (ap_handler (set_hub a h)) = h" "hd_cfg (ap_handler (set_hub a h)) = hd_cfg (ap_handler a)"
  "hd_router (ap_handler (set_hub a h)) = hd_router (ap_handler a)" "ap_conns (set_hub a h) = ap_conns a"
  by (simp_all add: set_hub_def)

text \<open>A worker's round, once it has an event.\<close>

lemma work_step_Some:
  assumes "worker_take (g_disp (sy_gw s)) i = Some (ev, d)"
  shows "sy_api (work_step unwrap g ord i s) =
      set_hub (sy_api s) (fst (ConditionalBroadcast ord (sy_hub s) () (event_key (sy_router s) ev)
        (\<lambda>_. ((), outcome (snd (DecryptAndBuildFrame unwrap g (pipeline_cfg (sy_cfg s)) ev (sy_pipe s)))))))"
    "g_disp (sy_gw (work_step unwrap g ord i s)) = add_depth d (-1)"
    "sy_seen (work_step unwrap g ord i s) = sy_seen s"
    "sy_handled (work_step unwrap g ord i s) = sy_handled s @ [(ev, built_frame unwrap g ord ev s)]"
  using assms
  by (auto simp: work_step_def WorkerRound_def gw_view_def HandleEvent_hub [symmetric] split: prod.split)

lemma work_step_None: "worker_take (g_disp (sy_gw s)) i = None \<Longrightarrow> work_step unwrap g ord i s = s"
  by (simp add: work_step_def)

lemma consume_cases:
  assumes "consume_step ord ev s = Some s'"
  obtains (unchanged) "sy_api s' = sy_api s" "g_disp (sy_gw s') = g_disp (sy_gw s)"
  | (revoked) "sy_api s' = set_hub (sy_api s) (fst (InvalidateUser ord (sy_hub s) (ev_TenantID ev) (ev_UserID ev)))"
      "g_disp (sy_gw s') = g_disp (sy_gw s)"
  | (dispatched) b where "sy_api s' = sy_api s" "IsSchemaSupported ev"
      "Dispatch (g_disp (sy_gw s)) (routed (sy_router s) ev) = Some (g_disp (sy_gw s'), b)"
  using assms
  by (auto simp: consume_step_def ConsumeEvent_def gw_view_def Let_def routed_def route_def
      split: if_splits option.splits bool.splits prod.splits)

lemma consume_ghosts:
  assumes "consume_step ord ev s = Some s'"
  shows "sy_seen s' = sy_seen s @ [ev]" "sy_handled s' = sy_handled s" "sy_pipe s' = sy_pipe s"
  using assms by (auto simp: consume_step_def)

lemma system_api_step:
  assumes "system_step unwrap g ord validate s s'"
  shows "sy_api s' = sy_api s \<or> api_step ord validate (sy_api s) (sy_api s')"
  using assms
proof cases
  case (request a)
  then show ?thesis by (simp add: request_api)
next
  case (consume ev)
  then show ?thesis
    by (cases rule: consume_cases) (auto simp: set_hub_def intro: api_step.revoke)
next
  case (work i)
  show ?thesis
  proof (cases "worker_take (g_disp (sy_gw s)) i")
    case None
    then show ?thesis by (simp add: work work_step_None)
  next
    case (Some p)
    then show ?thesis
      by (cases p) (auto simp: work work_step_Some set_hub_def intro: api_step.broadcast)
  qed
qed simp_all

lemma system_api:
  assumes "system_reach unwrap g ord validate s0 s"
  shows "api_reach ord validate (sy_api s0) (sy_api s)"
  using assms
proof induction
  case (step s s')
  then show ?case using system_api_step [OF step(2)] api_reach.step by metis
qed (rule api_reach.start)

section \<open>Queues\<close>

text \<open>An offer leaves a queue that is part of the old one with the frame at its end.\<close>

lemma enqueue_subseq:
  assumes "client_wf cl"
  shows "subseq (cl_queue (fst (EnqueueFrame cl f))) (cl_queue cl @ [f])"
proof -
  have "subseq (tl q) q" for q :: "frame list" by (cases q) auto
  then show ?thesis
    by (auto simp: EnqueueFrame_cases [OF assms] intro: list_emb_append_mono list_emb_prefix)
qed

lemma heartbeats_invisible:
  assumes "client_wf cl"
  shows "subseq (filter (\<lambda>f. f \<noteq> hb) (cl_queue (fst (enqueue_run cl (replicate n hb))))) (filter (\<lambda>f. f \<noteq> hb) (cl_queue cl))"
  using assms
proof (induction n arbitrary: cl)
  case (Suc n)
  let ?cl = "fst (EnqueueFrame cl hb)"
  have "subseq (filter (\<lambda>f. f \<noteq> hb) (cl_queue ?cl)) (filter (\<lambda>f. f \<noteq> hb) (cl_queue cl @ [hb]))"
    by (rule subseq_filter [OF enqueue_subseq [OF Suc.prems]])
  then show ?case
    using Suc.IH [OF EnqueueFrame_wf [OF Suc.prems]]
    by (simp add: enqueue_run_Cons del: enqueue_run.simps(2)) (rule subseq_order.trans)
qed simp

text \<open>A change of the hub after which the queues hold no frame they did not hold before, heartbeats apart.\<close>

definition drains :: "frame \<Rightarrow> ref set \<Rightarrow> hub \<Rightarrow> hub \<Rightarrow> bool" where
  "drains hb R h h' \<longleftrightarrow> (\<forall>c \<in> R. cl_Topics (h_heap h' c) = cl_Topics (h_heap h c) \<and>
     subseq (filter (\<lambda>f. f \<noteq> hb) (cl_queue (h_heap h' c))) (filter (\<lambda>f. f \<noteq> hb) (cl_queue (h_heap h c))))"

named_theorems hub_drains \<open>operations that put no frame into a queue\<close>

lemma drains_refl [hub_drains]: "drains hb R h h"
  by (simp add: drains_def)

lemma drains_unregister [hub_drains]: "drains hb R h (Unregister h (Some c))"
  by (auto simp: drains_def Unregister_heap)

lemma drains_revoke [hub_drains]: "drains hb R h (fst (InvalidateUser ord h t u))"
  by (auto simp: drains_def InvalidateUser_eq release_matched_heap case_prod_unfold)

lemma drains_close [hub_drains]: "drains hb R h (Hub_Close ord h)"
  by (auto simp: drains_def Hub_Close_heap Client_Close_def)

lemma drains_heartbeat [hub_drains]:
  assumes "\<And>c. client_wf (h_heap h c)"
  shows "drains hb R h (BroadcastHeartbeat ord h hb)"
proof -
  have "cl_Topics (h_heap (BroadcastHeartbeat ord h hb) c) = cl_Topics (h_heap h c)" for c
    using keeps_heartbeat [OF assms, of ord hb]
    by (simp add: keeps_heap_def keeps_client_def same_identity_def)
  then show ?thesis
    using heartbeats_invisible [OF assms] by (simp add: drains_def BroadcastHeartbeat_eq fanout_heap)
qed

lemma drains_drain [hub_drains]: "drains hb R h (drain_one h c)"
  by (auto simp: drains_def drain_one_def DequeueFrame_def try_recv_def split: list.split)

lemma drains_trans: "drains hb R h h' \<Longrightarrow> drains hb R h' h'' \<Longrightarrow> drains hb R h h''"
  unfolding drains_def by (auto intro: subseq_order.trans)

section \<open>The streams\<close>

definition stream_ok :: "frame \<Rightarrow> router \<Rightarrow> (encrypted_event \<times> frame option) list \<Rightarrow> hub \<Rightarrow> conn \<Rightarrow> bool" where
  "stream_ok hb r hs h k \<longleftrightarrow> (\<forall>c. cn_ref k = Some c \<longrightarrow>
     subseq (filter (\<lambda>f. f \<noteq> hb) (cn_sent k @ cl_queue (h_heap h c))) (frames_for r (set (cl_Topics (h_heap h c))) hs))"

definition streams_ok :: "(encrypted_event \<times> frame option) list \<Rightarrow> api \<Rightarrow> bool" where
  "streams_ok hs a \<longleftrightarrow> (\<forall>k \<in> set (ap_conns a).
     stream_ok (heartbeat_frame (hd_cfg (ap_handler a))) (hd_router (ap_handler a)) hs (hd_hub (ap_handler a)) k)"

lemma stream_ok_drains:
  assumes "stream_ok hb r hs h k" "drains hb R h h'" "\<And>c. cn_ref k = Some c \<Longrightarrow> c \<in> R"
    and "cn_ref k' = cn_ref k" "cn_sent k' = cn_sent k"
  shows "stream_ok hb r hs h' k'"
  unfolding stream_ok_def
proof (intro allI impI)
  fix c assume c: "cn_ref k' = Some c"
  with assms(2-4) have d: "cl_Topics (h_heap h' c) = cl_Topics (h_heap h c)"
    "subseq (filter (\<lambda>f. f \<noteq> hb) (cl_queue (h_heap h' c))) (filter (\<lambda>f. f \<noteq> hb) (cl_queue (h_heap h c)))"
    by (simp_all add: drains_def)
  have "subseq (filter (\<lambda>f. f \<noteq> hb) (cn_sent k @ cl_queue (h_heap h' c))) (filter (\<lambda>f. f \<noteq> hb) (cn_sent k @ cl_queue (h_heap h c)))"
    using d(2) by (simp add: subseq_append')
  with assms(1,4,5) c d(1) show "subseq (filter (\<lambda>f. f \<noteq> hb) (cn_sent k' @ cl_queue (h_heap h' c)))
      (frames_for r (set (cl_Topics (h_heap h' c))) hs)"
    by (auto simp: stream_ok_def intro: subseq_order.trans)
qed

lemma streams_put:
  assumes "streams_ok hs a" "hd_cfg (fst p) = hd_cfg (ap_handler a)" "hd_router (fst p) = hd_router (ap_handler a)"
    and "drains (heartbeat_frame (hd_cfg (ap_handler a))) (admitted_refs a) (hd_hub (ap_handler a)) (hd_hub (fst p))"
    and "stream_ok (heartbeat_frame (hd_cfg (ap_handler a))) (hd_router (ap_handler a)) hs (hd_hub (fst p)) (snd p)"
  shows "streams_ok hs (put a i p)"
proof -
  have "stream_ok (heartbeat_frame (hd_cfg (ap_handler a))) (hd_router (ap_handler a)) hs (hd_hub (fst p)) k"
    if "k \<in> set (ap_conns a)" for k
    using assms(1) that ref_admitted [OF that]
    by (intro stream_ok_drains [OF _ assms(4)]) (auto simp: streams_ok_def)
  then show ?thesis
    using assms set_update_subset_insert [of "ap_conns a" i "snd p"] by (auto simp: streams_ok_def put_def)
qed

lemma streams_same:
  assumes "streams_ok hs a" "i < length (ap_conns a)" "hd_cfg (fst p) = hd_cfg (ap_handler a)"
    and "hd_router (fst p) = hd_router (ap_handler a)"
    and "drains (heartbeat_frame (hd_cfg (ap_handler a))) (admitted_refs a) (hd_hub (ap_handler a)) (hd_hub (fst p))"
    and "cn_ref (snd p) = cn_ref (ap_conns a ! i)" "cn_sent (snd p) = cn_sent (ap_conns a ! i)"
  shows "streams_ok hs (put a i p)"
proof (rule streams_put [OF assms(1,3,4,5)])
  have k: "ap_conns a ! i \<in> set (ap_conns a)" using assms(2) by simp
  show "stream_ok (heartbeat_frame (hd_cfg (ap_handler a))) (hd_router (ap_handler a)) hs (hd_hub (fst p)) (snd p)"
    using assms(1,6,7) k ref_admitted [OF k]
    by (intro stream_ok_drains [OF _ assms(5)]) (auto simp: streams_ok_def)
qed

lemma streams_hub:
  assumes "streams_ok hs a" "\<And>hb. hb = heartbeat_frame (hd_cfg (ap_handler a)) \<Longrightarrow> drains hb (admitted_refs a) (hd_hub (ap_handler a)) h"
  shows "streams_ok hs (set_hub a h)"
  unfolding streams_ok_def
proof
  fix k assume "k \<in> set (ap_conns (set_hub a h))"
  then have k: "k \<in> set (ap_conns a)" by simp
  show "stream_ok (heartbeat_frame (hd_cfg (ap_handler (set_hub a h)))) (hd_router (ap_handler (set_hub a h))) hs
      (hd_hub (ap_handler (set_hub a h))) k"
    using assms(1) k ref_admitted [OF k] by (auto simp: streams_ok_def intro: stream_ok_drains [OF _ assms(2) [OF refl]])
qed

text \<open>What the phases of a request do to the hub.\<close>

lemma handshake_fields [simp]:
  "hd_cfg (release_handshake h) = hd_cfg h" "hd_router (release_handshake h) = hd_router h" "hd_hub (release_handshake h) = hd_hub h"
  by (simp_all add: release_handshake_def split: recv_result.split)

lemma metrics_fields [simp]:
  "hd_cfg (open_metrics h) = hd_cfg h" "hd_router (open_metrics h) = hd_router h" "hd_hub (open_metrics h) = hd_hub h"
  "hd_cfg (close_metrics h) = hd_cfg h" "hd_router (close_metrics h) = hd_router h" "hd_hub (close_metrics h) = hd_hub h"
  by (simp_all add: open_metrics_def close_metrics_def)

lemma enter_fields:
  "hd_cfg (fst (enter_step h k)) = hd_cfg h" "hd_router (fst (enter_step h k)) = hd_router h" "hd_hub (fst (enter_step h k)) = hd_hub h"
  by (cases "events_guard h (cn_req k) (cn_writer k)"; cases "try_send (hd_handshakeSem h) ()"; simp add: enter_step_def acquire_handshake_def)+

lemma check_fields:
  "hd_cfg (fst (check_phase v now h k)) = hd_cfg h" "hd_router (fst (check_phase v now h k)) = hd_router h"
  "hd_hub (fst (check_phase v now h k)) = hd_hub h"
  by (simp_all add: check_phase_def case_prod_unfold split: sum.split)

lemma register_fields:
  "hd_cfg (fst (register_phase c i cap h k)) = hd_cfg h" "hd_router (fst (register_phase c i cap h k)) = hd_router h"
  by (simp_all add: register_phase_def admit_register_def Let_def split: sum.split)

lemma leave_fields:
  "hd_cfg (stream_leave h c) = hd_cfg h" "hd_router (stream_leave h c) = hd_router h"
  "hd_hub (stream_leave h c) = Unregister (hd_hub h) (Some c)"
  by (simp_all add: stream_leave_def unregister_conn_def)

lemma open_fields:
  "hd_cfg (fst (open_phase now b c h k)) = hd_cfg h" "hd_router (fst (open_phase now b c h k)) = hd_router h"
  "hd_hub (fst (open_phase now b c h k)) = (if b then hd_hub h else Unregister (hd_hub h) (Some c))"
  by (simp_all add: open_phase_def stream_open_def unregister_conn_def)

lemma frame_fields:
  "hd_cfg (fst (frame_phase now b c f h k)) = hd_cfg h" "hd_router (fst (frame_phase now b c f h k)) = hd_router h"
  "hd_hub (fst (frame_phase now b c f h k)) =
     (if b then drain_one (hd_hub h) c else Unregister (drain_one (hd_hub h) c) (Some c))"
  by (simp_all add: frame_phase_def stream_frame_def leave_fields Let_def)

lemma phase_conns:
  "cn_ref (snd (enter_step h k)) = cn_ref k" "cn_sent (snd (enter_step h k)) = cn_sent k"
  "cn_ref (snd (check_phase v now h k)) = cn_ref k" "cn_sent (snd (check_phase v now h k)) = cn_sent k"
  "cn_ref (snd (open_phase now b c h k)) = cn_ref k" "cn_sent (snd (open_phase now b c h k)) = cn_sent k"
  "cn_ref (snd (frame_phase now b c f h k)) = cn_ref k"
  "cn_sent (snd (frame_phase now b c f h k)) = (if b then cn_sent k @ [f] else cn_sent k)"
  "cn_ref (finished k w) = cn_ref k" "cn_sent (finished k w) = cn_sent k"
  by (auto simp: enter_step_def check_phase_def open_phase_def frame_phase_def stream_open_def stream_frame_def
      finished_def Let_def split: option.split sum.split)

lemmas phase_simps = enter_fields check_fields register_fields leave_fields open_fields frame_fields phase_conns

text \<open>A registration allocates one client and touches no other; an admitted connection starts with an empty queue.\<close>

lemma register_drains:
  assumes "fresh_client (hd_hub h) R c (new_connection h cap i)"
  shows "drains hb R (hd_hub h) (hd_hub (fst (register_phase c i cap h k)))"
proof -
  have "c \<notin> R" using assms by (simp add: fresh_client_def)
  then have "h_heap (hd_hub (fst (register_phase c i cap h k))) d = h_heap (hd_hub h) d" if "d \<in> R" for d
    using that Register_heap
    by (fastforce simp: register_phase_def admit_register_def release_handshake_def alloc_client_def Let_def
        split: sum.split recv_result.split)
  then show ?thesis by (simp add: drains_def)
qed

lemma register_stream:
  assumes "cn_ref k = None" "cn_sent k = []"
  shows "stream_ok hb r hs (hd_hub (fst (register_phase c i cap h k))) (snd (register_phase c i cap h k))"
proof -
  have "cl_queue (new_connection h cap i) = []" by (simp add: new_connection_def NewClient_def Let_def make_chan_def)
  then show ?thesis
    using assms Register_heap
    by (fastforce simp: stream_ok_def register_phase_def admit_register_def release_handshake_def alloc_client_def finished_def Let_def
        split: sum.split recv_result.split)
qed

lemma deliver_stream:
  assumes "stream_ok hb r hs (hd_hub h) k" "cn_ref k = Some c" "DequeueFrame (h_heap (hd_hub h) c) = Some (f, cl)"
  shows "stream_ok hb r hs (hd_hub (fst (frame_phase now b c f h k))) (snd (frame_phase now b c f h k))"
proof (cases b)
  case True
  have "cl_queue (h_heap (hd_hub h) c) = f # cl_queue cl" "cl_Topics cl = cl_Topics (h_heap (hd_hub h) c)"
    "h_heap (drain_one (hd_hub h) c) c = cl"
    using assms(3) by (auto simp: drain_one_def DequeueFrame_def try_recv_def split: list.splits if_splits)
  with True assms show ?thesis by (auto simp: stream_ok_def phase_simps split: if_splits)
next
  case False
  have "drains hb UNIV (hd_hub h) (hd_hub (fst (frame_phase now b c f h k)))"
    using False drains_trans [OF drains_drain drains_unregister] by (simp add: phase_simps)
  with False show ?thesis
    by (intro stream_ok_drains [OF assms(1), where R = UNIV]) (auto simp: phase_simps)
qed

lemma serve_streams:
  assumes "serve_step ord validate a a'" "streams_ok hs a" and conns: "conns_ok validate a"
    and wf: "\<And>c. client_wf (h_heap (hd_hub (ap_handler a)) c)"
  shows "streams_ok hs a'"
  using assms(1,2)
proof cases
  case (register i cap c connectionID)
  have "conn_ok validate (ap_handler a) (ap_conns a ! i)" using conns register(2) by (simp add: conns_ok_def)
  then have "cn_ref (ap_conns a ! i) = None" "cn_sent (ap_conns a ! i) = []" using register(3) by (simp_all add: conn_ok_def)
  then show ?thesis
    unfolding register(1) using assms(2) register
    by (intro streams_put) (simp_all add: phase_simps register_drains register_stream)
next
  case (deliver i c f cl now b)
  have "stream_ok (heartbeat_frame (hd_cfg (ap_handler a))) (hd_router (ap_handler a)) hs (hd_hub (ap_handler a)) (ap_conns a ! i)"
    using assms(2) deliver(2) by (simp add: streams_ok_def)
  note ok = deliver_stream [OF this deliver(4,5)]
  show ?thesis
    unfolding deliver(1)
    using drains_trans [OF drains_drain drains_unregister] assms(2) ok
    by (intro streams_put) (simp_all add: frame_fields drains_drain)
next
  case heartbeat
  then show ?thesis using assms(2) drains_heartbeat [OF wf] by (simp add: streams_hub)
qed (use assms(2) in \<open>auto intro!: streams_same simp: phase_simps hub_drains\<close>)

lemma request_streams:
  assumes "request_step ord validate a a'" "streams_ok hs a" "conns_ok validate a"
    and "\<And>c. client_wf (h_heap (hd_hub (ap_handler a)) c)"
  shows "streams_ok hs a'"
  using assms(1)
proof cases
  case (arrive r fresh)
  then show ?thesis using assms(2) by (auto simp: streams_ok_def stream_ok_def arriving_def)
next
  case serve
  then show ?thesis using serve_streams assms(2-4) by blast
next
  case (shut_down b)
  then show ?thesis using assms(2) by (simp add: streams_ok_def SetShuttingDown_def)
next
  case close_hub
  then show ?thesis using assms(2) drains_close by (simp add: streams_hub)
qed

text \<open>A worker's round adds the frame it built to the queues of the subscribers, and to the history.\<close>

lemma frames_for_snoc: "frames_for r keys (hs @ [e]) = frames_for r keys hs @ frame_for r keys e"
  by (simp add: frames_for_def)

lemma broadcast_stream:
  assumes hub: "hub_reach ord n lm h R" "range_order ord" "n < 2 ^ 32" and ok: "stream_ok hb r hs h k"
    and fo: "fo = (if hub_recipients ord h (route r ev) = [] then None else case res of Inl _ \<Rightarrow> None | Inr f \<Rightarrow> f)"
  shows "stream_ok hb r (hs @ [(ev, fo)]) (fst (ConditionalBroadcast ord h () (route r ev) (\<lambda>_. ((), outcome res)))) k"
proof (cases fo)
  case None
  then have "fst (ConditionalBroadcast ord h () (route r ev) (\<lambda>_. ((), outcome res))) = h"
    using fo by (auto simp: ConditionalBroadcast_eq split: sum.splits option.splits if_splits)
  then show ?thesis using ok None by (simp add: stream_ok_def frames_for_snoc frame_for_def)
next
  case (Some f)
  let ?h = "fst (ConditionalBroadcast ord h () (route r ev) (\<lambda>_. ((), outcome res)))"
  have res: "res = Inr (Some f)" "hub_recipients ord h (route r ev) \<noteq> []" using Some fo by (auto split: sum.splits if_splits)
  then have heap: "h_heap ?h c = (if c \<in> subscribers h R (route r ev) then fst (EnqueueFrame (h_heap h c) f) else h_heap h c)" for c
    using fanout_subscribers(1) [OF hub, of "route r ev" f] by (simp add: ConditionalBroadcast_eq)
  have topics: "cl_Topics (h_heap ?h c) = cl_Topics (h_heap h c)" for c
    using keeps_broadcast [OF reach_wf [OF hub], of ord "()" "route r ev" "\<lambda>_. ((), outcome res)"]
    unfolding keeps_heap_def keeps_client_def same_identity_def by blast
  have "subseq (filter (\<lambda>f. f \<noteq> hb) (cn_sent k @ cl_queue (h_heap ?h c)))
      (frames_for r (set (cl_Topics (h_heap h c))) hs @ frame_for r (set (cl_Topics (h_heap h c))) (ev, fo))"
    if c: "cn_ref k = Some c" for c
  proof -
    have old: "subseq (filter (\<lambda>f. f \<noteq> hb) (cn_sent k @ cl_queue (h_heap h c))) (frames_for r (set (cl_Topics (h_heap h c))) hs)"
      using ok c by (simp add: stream_ok_def)
    show ?thesis
    proof (cases "c \<in> subscribers h R (route r ev)")
      case True
      have "subseq (filter (\<lambda>f. f \<noteq> hb) (cn_sent k @ cl_queue (h_heap ?h c))) (filter (\<lambda>f. f \<noteq> hb) ((cn_sent k @ cl_queue (h_heap h c)) @ [f]))"
        using subseq_filter [OF enqueue_subseq [OF reach_wf [OF hub, of c], of f], of "\<lambda>f. f \<noteq> hb"]
        by (simp add: heap True subseq_append')
      moreover have "subseq (filter (\<lambda>f. f \<noteq> hb) ((cn_sent k @ cl_queue (h_heap h c)) @ [f])) (frames_for r (set (cl_Topics (h_heap h c))) hs @ [f])"
        unfolding filter_append [of _ _ "[f]"] using old by (intro list_emb_append_mono) simp_all
      moreover have "frame_for r (set (cl_Topics (h_heap h c))) (ev, fo) = [f]"
        using True Some by (simp add: frame_for_def subscribers_def)
      ultimately show ?thesis by (auto intro: subseq_order.trans)
    next
      case False
      then show ?thesis using old by (simp add: heap list_emb_prefix)
    qed
  qed
  then show ?thesis by (simp add: stream_ok_def frames_for_snoc topics)
qed

section \<open>The lanes\<close>

definition lane_buf :: "dispatcher \<Rightarrow> string \<Rightarrow> encrypted_event list" where
  "lane_buf d key = ch_buf (d_lanes d ! ShardIndex key (d_numLanes d))"

abbreviation on_key :: "router \<Rightarrow> string \<Rightarrow> encrypted_event list \<Rightarrow> encrypted_event list" where
  "on_key r key evs \<equiv> filter (\<lambda>ev. route r ev = key) evs"

text \<open>Every event waits in the lane of its routing key; the lanes are open until the dispatcher is closed.\<close>

definition lanes_ok :: "router \<Rightarrow> dispatcher \<Rightarrow> bool" where
  "lanes_ok r d \<longleftrightarrow> d_numLanes d = int (length (d_lanes d)) \<and> d_lanes d \<noteq> [] \<and> int (length (d_lanes d)) < 2 ^ 32 \<and>
     (\<forall>i < length (d_lanes d). (ch_closed (d_lanes d ! i) \<longrightarrow> d_closed d) \<and>
        (\<forall>ev \<in> set (ch_buf (d_lanes d ! i)). ev_RoutingKey ev = route r ev \<and> laneIdx d ev = i))"

lemma lanes_index: "lanes_ok r d \<Longrightarrow> ShardIndex key (d_numLanes d) < length (d_lanes d)"
  using fnv.nth_defined [of "d_lanes d" key] by (simp add: lanes_ok_def)

lemma routed_fields [simp]: "route r (routed r ev) = route r ev" "ev_RoutingKey (routed r ev) = route r ev"
  by (simp_all add: routed_def route_def)

lemma lane_of_key:
  assumes "ev_RoutingKey ev = route r ev" "route r ev = key" "key \<noteq> []"
  shows "laneIdx d ev = ShardIndex key (d_numLanes d)"
  using assms by (simp add: laneIdx_def lane_key_def)

lemma lanes_ok_update:
  assumes "lanes_ok r d" "d_lanes d' = (d_lanes d)[i := ch]" "d_numLanes d' = d_numLanes d" "d_closed d' = d_closed d"
    and "i < length (d_lanes d)" "ch_closed ch = ch_closed (d_lanes d ! i)"
    and "\<forall>ev \<in> set (ch_buf ch). ev_RoutingKey ev = route r ev \<and> laneIdx d ev = i"
  shows "lanes_ok r d'"
proof -
  have "laneIdx d' = laneIdx d" using assms(3) by (simp add: laneIdx_def fun_eq_iff)
  then show ?thesis using assms by (auto simp: lanes_ok_def nth_list_update)
qed

lemma dispatch_lanes:
  assumes ok: "lanes_ok r d" and ev: "ev_RoutingKey ev = route r ev" and d': "Dispatch d ev = Some (d', b)"
  shows "lanes_ok r d'" "key \<noteq> [] \<Longrightarrow>
    on_key r key (lane_buf d' key) = on_key r key (lane_buf d key) @ (if b \<and> route r ev = key then [ev] else [])"
proof -
  let ?i = "laneIdx d ev"
  have i: "?i < length (d_lanes d)" unfolding laneIdx_def by (rule lanes_index [OF ok])
  have new: "d' = add_depth (d\<lparr>d_lanes := (d_lanes d)[?i := (d_lanes d ! ?i)\<lparr>ch_buf := ch_buf (d_lanes d ! ?i) @ [ev]\<rparr>]\<rparr>) 1" if b
    using d' that lane_send_cases by (fastforce simp: Dispatch_def split: if_splits option.splits bool.splits)
  have same: "d' = d" if "\<not> b"
    using d' that lane_send_cases by (fastforce simp: Dispatch_def split: if_splits option.splits bool.splits)
  show "lanes_ok r d'"
  proof (cases b)
    case True
    then show ?thesis
      using i ok ev
      by (intro lanes_ok_update [OF ok, of _ ?i "(d_lanes d ! ?i)\<lparr>ch_buf := ch_buf (d_lanes d ! ?i) @ [ev]\<rparr>"])
        (auto simp: new lanes_ok_def)
  qed (simp add: same ok)
  show "on_key r key (lane_buf d' key) = on_key r key (lane_buf d key) @ (if b \<and> route r ev = key then [ev] else [])" if "key \<noteq> []"
  proof (cases b)
    case True
    then show ?thesis
      using lane_of_key [OF ev _ that, of d] i by (auto simp: new lane_buf_def nth_list_update)
  qed (simp add: same)
qed

lemma dispatch_total:
  assumes "lanes_ok r d"
  shows "Dispatch d ev \<noteq> None"
proof -
  have "laneIdx d ev < length (d_lanes d)" unfolding laneIdx_def by (rule lanes_index [OF assms])
  then show ?thesis
    using assms lane_send_panic [of d ev]
    by (auto simp: Dispatch_def lanes_ok_def split: option.splits bool.splits)
qed

lemma take_lanes:
  assumes ok: "lanes_ok r d" and i: "i < length (d_lanes d)" and t: "worker_take d i = Some (ev, d')"
  shows "lanes_ok r (add_depth d' n)" "ev_RoutingKey ev = route r ev"
    "key \<noteq> [] \<Longrightarrow> on_key r key (lane_buf d key) = (if route r ev = key then [ev] else []) @ on_key r key (lane_buf d' key)"
proof -
  obtain xs where xs: "ch_buf (d_lanes d ! i) = ev # xs"
    and d': "d' = d\<lparr>d_lanes := (d_lanes d)[i := (d_lanes d ! i)\<lparr>ch_buf := xs\<rparr>]\<rparr>"
    using t by (auto simp: worker_take_Some)
  have mem: "ev_RoutingKey e = route r e \<and> laneIdx d e = i" if "e \<in> set (ev # xs)" for e
    using ok i that by (simp add: lanes_ok_def xs [symmetric] del: set_simps)
  show "ev_RoutingKey ev = route r ev" using mem by simp
  show "lanes_ok r (add_depth d' n)"
    using i mem by (intro lanes_ok_update [OF ok, of _ i "(d_lanes d ! i)\<lparr>ch_buf := xs\<rparr>"]) (simp_all add: d')
  show "on_key r key (lane_buf d key) = (if route r ev = key then [ev] else []) @ on_key r key (lane_buf d' key)" if "key \<noteq> []"
    using mem [of ev] lane_of_key [of ev r key d] that i xs by (auto simp: d' lane_buf_def nth_list_update)
qed

lemma close_lanes_ok: "lanes_ok r d \<Longrightarrow> lanes_ok r (lanes_Shut d)" "lanes_ok r d \<Longrightarrow> lanes_ok r (d\<lparr>d_cancelled := True\<rparr>)"
  by (auto simp: lanes_ok_def lanes_Shut_def close_lanes_def laneIdx_def)

lemma close_lane_buf: "lanes_ok r d \<Longrightarrow> lane_buf (lanes_Shut d) key = lane_buf d key"
  "lane_buf (d\<lparr>d_cancelled := True\<rparr>) key = lane_buf d key"
  using lanes_index [of r d key] by (simp_all add: lane_buf_def lanes_Shut_def close_lanes_def)

section \<open>The invariant\<close>

text \<open>
  For every routing key: the events handled and those that wait in its lane are events of the bus with a
  supported schema, in the order of the bus. Every frame was built by the pipeline.
\<close>

definition order_ok :: "router \<Rightarrow> 'u system \<Rightarrow> bool" where
  "order_ok r s \<longleftrightarrow> (\<forall>key. key \<noteq> [] \<longrightarrow>
     subseq (on_key r key (map fst (sy_handled s)) @ on_key r key (lane_buf (g_disp (sy_gw s)) key))
       (on_key r key (map (routed r) (filter IsSchemaSupported (sy_seen s)))))"

definition built_ok :: "'u unwrap \<Rightarrow> gcm \<Rightarrow> config \<Rightarrow> 'u system \<Rightarrow> bool" where
  "built_ok unwrap gcm_open cfg s \<longleftrightarrow> (\<forall>ev f. (ev, Some f) \<in> set (sy_handled s) \<longrightarrow>
     (\<exists>st. snd (DecryptAndBuildFrame unwrap gcm_open (pipeline_cfg cfg) ev st) = Inr (Some f)))"

definition system_ok :: "'u unwrap \<Rightarrow> gcm \<Rightarrow> config \<Rightarrow> router \<Rightarrow> 'u system \<Rightarrow> bool" where
  "system_ok unwrap gcm_open cfg r s \<longleftrightarrow> streams_ok (sy_handled s) (sy_api s) \<and> lanes_ok r (g_disp (sy_gw s)) \<and>
     order_ok r s \<and> built_ok unwrap gcm_open cfg s"

lemma event_key_route: "ev_RoutingKey ev = route r ev \<Longrightarrow> event_key r ev = route r ev"
  by (simp add: event_key_def route_def)

lemma consume_ok:
  assumes c: "consume_step ord ev s = Some s'" and r: "sy_router s = r" and ok: "system_ok unwrap g cfg r s"
  shows "system_ok unwrap g cfg r s'"
proof -
  note gh = consume_ghosts [OF c]
  have ok': "streams_ok (sy_handled s) (sy_api s)" "lanes_ok r (g_disp (sy_gw s))" "order_ok r s" "built_ok unwrap g cfg s"
    using ok by (simp_all add: system_ok_def)
  have b: "built_ok unwrap g cfg s'" using ok'(4) by (simp add: built_ok_def gh)
  have idle: "order_ok r s'" if "g_disp (sy_gw s') = g_disp (sy_gw s)"
    using ok'(3) that by (auto simp: order_ok_def gh intro: list_emb_prefix)
  show ?thesis
    using c
  proof (cases rule: consume_cases)
    case unchanged
    then show ?thesis using ok' b idle by (simp add: system_ok_def gh)
  next
    case revoked
    then show ?thesis using ok' b idle streams_hub [OF ok'(1) drains_revoke] by (simp add: system_ok_def gh)
  next
    case (dispatched b')
    let ?ev = "routed r ev"
    note d = dispatch_lanes [OF ok'(2), of ?ev, OF _ dispatched(3) [unfolded r]]
    have "order_ok r s'"
      unfolding order_ok_def
    proof (intro allI impI)
      fix key :: string assume key: "key \<noteq> []"
      have "subseq ((on_key r key (map fst (sy_handled s)) @ on_key r key (lane_buf (g_disp (sy_gw s)) key)) @
            (if b' \<and> route r ev = key then [?ev] else []))
          (on_key r key (map (routed r) (filter IsSchemaSupported (sy_seen s))) @ (if route r ev = key then [?ev] else []))"
        using ok'(3) key by (intro list_emb_append_mono) (auto simp: order_ok_def)
      then show "subseq (on_key r key (map fst (sy_handled s')) @ on_key r key (lane_buf (g_disp (sy_gw s')) key))
          (on_key r key (map (routed r) (filter IsSchemaSupported (sy_seen s'))))"
        using d(2) [OF _ key] dispatched(2) by (simp add: gh cong: if_cong)
    qed
    then show ?thesis using ok' b d(1) dispatched(1) by (simp add: system_ok_def gh)
  qed
qed

lemma work_ok:
  assumes i: "i < length (d_lanes (g_disp (sy_gw s)))" and api: "api_inv ord validate cfg r n (sy_api s)"
    and ord: "range_order ord" "n < 2 ^ 32" and ok: "system_ok unwrap g cfg r s"
  shows "system_ok unwrap g cfg r (work_step unwrap g ord i s)"
proof (cases "worker_take (g_disp (sy_gw s)) i")
  case None
  then show ?thesis using ok by (simp add: work_step_None)
next
  case (Some p)
  then obtain ev d where t: "worker_take (g_disp (sy_gw s)) i = Some (ev, d)" by (cases p) auto
  note w = work_step_Some [OF t, of unwrap g ord]
  have ok': "streams_ok (sy_handled s) (sy_api s)" "lanes_ok r (g_disp (sy_gw s))" "order_ok r s" "built_ok unwrap g cfg s"
    using ok by (simp_all add: system_ok_def)
  have set: "sy_router s = r" "sy_cfg s = cfg" and hub: "hub_reach ord n (cf_Limits cfg) (sy_hub s) (admitted_refs (sy_api s))"
    using api by (simp_all add: api_inv_def)
  note l = take_lanes [OF ok'(2) i t]
  have key: "event_key r ev = route r ev" by (rule event_key_route [OF l(2)])
  have streams: "streams_ok (sy_handled (work_step unwrap g ord i s)) (sy_api (work_step unwrap g ord i s))"
    unfolding streams_ok_def
  proof
    fix k assume "k \<in> set (ap_conns (sy_api (work_step unwrap g ord i s)))"
    then have "stream_ok (heartbeat_frame cfg) r (sy_handled s) (sy_hub s) k"
      using ok'(1) by (simp add: w(1) streams_ok_def set)
    from broadcast_stream [OF hub ord this, of _ ev "snd (DecryptAndBuildFrame unwrap g (pipeline_cfg cfg) ev (sy_pipe s))"]
    show "stream_ok (heartbeat_frame (hd_cfg (ap_handler (sy_api (work_step unwrap g ord i s)))))
        (hd_router (ap_handler (sy_api (work_step unwrap g ord i s)))) (sy_handled (work_step unwrap g ord i s))
        (hd_hub (ap_handler (sy_api (work_step unwrap g ord i s)))) k"
      by (simp add: w(1,4) set key built_frame_def split del: if_split cong: if_cong)
  qed
  have "order_ok r (work_step unwrap g ord i s)"
    using ok'(3) l(3) by (auto simp: order_ok_def w lane_buf_def split: if_splits)
  moreover have "built_ok unwrap g cfg (work_step unwrap g ord i s)"
    using ok'(4) by (auto simp: built_ok_def w built_frame_def set split: if_splits sum.splits)
  ultimately show ?thesis using streams l(1) by (simp add: system_ok_def w(2))
qed

lemma system_step_ok:
  assumes step: "system_step unwrap g ord validate s s'" and api: "api_inv ord validate cfg r n (sy_api s)"
    and ord: "range_order ord" "n < 2 ^ 32" and ok: "system_ok unwrap g cfg r s"
  shows "system_ok unwrap g cfg r s'"
  using step
proof cases
  case (request a)
  have "conns_ok validate (sy_api s)" and hub: "hub_reach ord n (cf_Limits cfg) (sy_hub s) (admitted_refs (sy_api s))"
    using api by (simp_all add: api_inv_def)
  then have "streams_ok (sy_handled s) a"
    using request_streams [OF request(2)] ok reach_wf [OF hub ord] by (simp add: system_ok_def)
  then show ?thesis using ok by (simp add: request(1) system_ok_def order_ok_def built_ok_def)
next
  case (consume ev)
  then show ?thesis using consume_ok [OF _ _ ok] api by (simp add: api_inv_def)
next
  case (work i)
  then show ?thesis using work_ok [OF work(2) api ord ok] by simp
next
  case stop_lanes
  then show ?thesis
    using ok close_lanes_ok(1) close_lane_buf(1) by (auto simp: system_ok_def order_ok_def built_ok_def)
next
  case cancel_lanes
  then show ?thesis
    using ok close_lanes_ok(2) close_lane_buf(2) by (auto simp: system_ok_def order_ok_def built_ok_def)
qed

lemma start_lanes_ok:
  assumes "rn_dispatcher g = SetDrainTimeout (NewDispatcher n q) t" "n < 2 ^ 32"
  shows "lanes_ok r (rn_dispatcher g)" "lane_buf (rn_dispatcher g) key = []"
proof -
  show ok: "lanes_ok r (rn_dispatcher g)" for r
    using assms by (auto simp: lanes_ok_def NewDispatcher_def Let_def make_chan_def)
  show "lane_buf (rn_dispatcher g) key = []"
    using lanes_index [OF ok, of key] by (simp add: lane_buf_def assms(1) NewDispatcher_def Let_def make_chan_def)
qed

lemma router_handler:
  assumes "Api_NewRouter mux_ok cfg h r metrics now = Some rt"
  shows "ar_APIHandler rt = ap_handler (start_api cfg r h metrics now)"
  using assms by (auto simp: Api_NewRouter_def Let_def start_api_def)

lemma start_api_conns: "\<lparr>ap_handler = ap_handler (start_api cfg r h m now), ap_conns = []\<rparr> = start_api cfg r h m now"
  by (simp add: start_api_def)

lemma start_system_api:
  assumes "Api_NewRouter mux_ok cfg h r metrics now = Some (rn_router g)"
  shows "sy_api (start_system st g) = start_api cfg r h metrics now"
  by (simp add: start_system_def router_handler [OF assms] start_api_conns)

lemma system_reach_ok:
  assumes start: "start_gateway p e hp = Inr g" and hp: "\<And>c. client_wf (hp c)" and ord: "range_order ord"
    and n: "hb_Shards (cf_Hub (rn_cfg g)) < 2 ^ 32" "hb_EventLanes (cf_Hub (rn_cfg g)) < 2 ^ 32"
    and reach: "system_reach unwrap gcm_open ord validate (start_system st g) s"
  shows "\<exists>r. NewRouter (rt_TopicTemplate (cf_Routing (rn_cfg g))) = Inr r \<and>
    api_inv ord validate (rn_cfg g) r (hb_Shards (cf_Hub (rn_cfg g))) (sy_api s) \<and> system_ok unwrap gcm_open (rn_cfg g) r s"
proof -
  obtain cfg r where c: "rn_cfg g = cfg" "NewRouter (rt_TopicTemplate (cf_Routing cfg)) = Inr r"
    "Api_NewRouter (pf_mux_ok p) cfg (init_hub hp cfg) r (mc_Enabled (cf_Metrics cfg)) (pf_now p) = Some (rn_router g)"
    "rn_dispatcher g = SetDrainTimeout (NewDispatcher (hb_EventLanes (cf_Hub cfg)) (hb_EventLaneQueueSize (cf_Hub cfg))) (drainBudget cfg)"
    using start_Inr [OF start] by metis
  note s0 = start_system_api [OF c(3), of st]
  have api: "api_inv ord validate cfg r (hb_Shards (cf_Hub cfg)) (sy_api s)"
    if "system_reach unwrap gcm_open ord validate (start_system st g) s" for s
    using api_reach_inv [OF system_api [OF that, unfolded s0] init_hub_reach [OF hp] ord] n(1) c(1) by simp
  have "system_ok unwrap gcm_open cfg r s"
    using reach
  proof induction
    case start
    show ?case
      using start_lanes_ok [OF c(4)] n(2) c(1)
      by (simp add: system_ok_def streams_ok_def order_ok_def built_ok_def start_system_def)
  next
    case (step s s')
    then show ?case using system_step_ok [OF step(2) api [OF step(1)] ord] n(1) c(1) by simp
  qed
  with c api [OF reach] show ?thesis by blast
qed

text \<open>The invariant, read off for the streams and the history.\<close>

lemma faithful_streams:
  assumes "start_gateway p e hp = Inr g" and "\<And>c. client_wf (hp c)" and "range_order ord"
    and "hb_Shards (cf_Hub (rn_cfg g)) < 2 ^ 32" "hb_EventLanes (cf_Hub (rn_cfg g)) < 2 ^ 32"
    and "system_reach unwrap gcm_open ord validate (start_system st g) s"
  shows "\<exists>r. NewRouter (rt_TopicTemplate (cf_Routing (rn_cfg g))) = Inr r \<and>
    (\<forall>k \<in> set (ap_conns (sy_api s)). \<forall>c. cn_ref k = Some c \<longrightarrow>
      (\<exists>cap now. cn_cap k = Some cap \<and> validate now (raw_ticket (ap_handler (sy_api s)) (cn_req k)) = Inr cap \<and>
        subseq (data_frames s k c) (frames_for r (set (routing_keys r cap)) (sy_handled s)))) \<and>
    (\<forall>ev f. (ev, Some f) \<in> set (sy_handled s) \<longrightarrow>
      (\<exists>st. snd (DecryptAndBuildFrame unwrap gcm_open (pipeline_cfg (rn_cfg g)) ev st) = Inr (Some f))) \<and>
    (\<forall>key. key \<noteq> [] \<longrightarrow>
      subseq (on_key r key (map fst (sy_handled s))) (on_key r key (map (routed r) (filter IsSchemaSupported (sy_seen s)))))"
proof -
  obtain r where r: "NewRouter (rt_TopicTemplate (cf_Routing (rn_cfg g))) = Inr r"
    and inv: "api_inv ord validate (rn_cfg g) r (hb_Shards (cf_Hub (rn_cfg g))) (sy_api s)" "system_ok unwrap gcm_open (rn_cfg g) r s"
    using system_reach_ok [OF assms] by blast
  have "\<exists>cap now. cn_cap k = Some cap \<and> validate now (raw_ticket (ap_handler (sy_api s)) (cn_req k)) = Inr cap \<and>
      subseq (data_frames s k c) (frames_for r (set (routing_keys r cap)) (sy_handled s))"
    if k: "k \<in> set (ap_conns (sy_api s))" "cn_ref k = Some c" for k c
  proof -
    have "conn_ok validate (ap_handler (sy_api s)) k" using inv(1) k by (simp add: api_inv_def conns_ok_def)
    then obtain cap now where "cn_cap k = Some cap" "validate now (raw_ticket (ap_handler (sy_api s)) (cn_req k)) = Inr cap"
      "cl_Topics (h_heap (sy_hub s) c) = routing_keys r cap"
      using k(2) inv(1) by (auto simp: conn_ok_def client_ok_def granted_def speaks_for_def api_inv_def split: option.splits)
    then show ?thesis
      using inv k by (auto simp: system_ok_def streams_ok_def stream_ok_def data_frames_def api_inv_def)
  qed
  moreover have "subseq (on_key r key (map fst (sy_handled s))) (on_key r key (map (routed r) (filter IsSchemaSupported (sy_seen s))))"
    if "key \<noteq> []" for key
    using inv(2) that by (auto simp: system_ok_def order_ok_def dest: list_emb_appendD intro: subseq_order.trans [rotated])
  ultimately show ?thesis using r inv(2) by (auto simp: system_ok_def built_ok_def)
qed

section \<open>Properties\<close>


text \<open>
  The consumer never panics: in every state the gateway reaches, also during and after its shutdown, it can
  take the next event of the bus, whatever that event is.
\<close>

theorem consumer_never_panics:
  assumes "start_gateway p e hp = Inr g" and "\<And>c. client_wf (hp c)" and "range_order ord"
    and "hb_Shards (cf_Hub (rn_cfg g)) < 2 ^ 32" "hb_EventLanes (cf_Hub (rn_cfg g)) < 2 ^ 32"
    and "system_reach unwrap gcm_open ord validate (start_system st g) s"
  shows "consume_step ord ev s \<noteq> None"
proof -
  obtain r where "system_ok unwrap gcm_open (rn_cfg g) r s" using system_reach_ok [OF assms] by blast
  then have "Dispatch (g_disp (sy_gw s)) ev' \<noteq> None" for ev' using dispatch_total unfolding system_ok_def by blast
  then obtain d b where "Dispatch (g_disp (sy_gw s)) (ev\<lparr>ev_RoutingKey := BuildKey (sy_router s) (ev_TenantID ev) (ev_AppID ev) (ev_TopicID ev)\<rparr>) =
      Some (d, b)"
    by fastforce
  then show ?thesis
    by (auto simp: consume_step_def ConsumeEvent_def gw_view_def Let_def split: bool.split)
qed

section \<open>A run of a production gateway\<close>

text \<open>One request with a valid ticket, from its arrival to its registration, then an event for its topic.\<close>

definition sys0 :: "nat system" where
  "sys0 = (case (start_gateway demo_platform prod_env server_heap :: startup_error + unit running) of
     Inr g \<Rightarrow> start_system demo_state g
   | Inl _ \<Rightarrow> \<lparr>sy_api = run0, sy_gw = demo_gateway, sy_pipe = demo_state, sy_seen = [], sy_handled = []\<rparr>)"

definition on_api :: "(api \<Rightarrow> api) \<Rightarrow> 'u system \<Rightarrow> 'u system" where
  "on_api f s = s\<lparr>sy_api := f (sy_api s)\<rparr>"

definition sys1 :: "nat system" where
  "sys1 = on_api (\<lambda>a. a\<lparr>ap_conns := ap_conns a @ [arriving api_request (endpoint_writer ''f'' api_request)]\<rparr>) sys0"

definition sys2 :: "nat system" where
  "sys2 = on_api (advance enter_step) sys1"

definition sys3 :: "nat system" where
  "sys3 = on_api (advance (check_phase demo_check 5)) sys2"

definition sys4 :: "nat system" where
  "sys4 = on_api (advance (register_phase 0 ''c1'' (to_capability demo_claims))) sys3"

definition live_event :: encrypted_event where
  "live_event = demo_event\<lparr>ev_TenantID := ''t'', ev_AppID := ''a'', ev_TopicID := ''x''\<rparr>"

definition sys5 :: "nat system" where
  "sys5 = (case consume_step (\<lambda>xs. xs) live_event sys4 of Some s \<Rightarrow> s | None \<Rightarrow> sys4)"

definition sys6 :: "nat system" where
  "sys6 = work_step demo_unwrap demo_gcm (\<lambda>xs. xs) 0 sys5"

lemma sys_eval1: "run_facts (sy_api sys1) = (Arrived, None, None) \<and> length (ap_conns (sy_api sys1)) = 1"
  by code_simp

lemma sys_eval2: "run_facts (sy_api sys2) = (Admitting, None, None)"
  by code_simp

lemma sys_eval3: "run_facts (sy_api sys3) = (Registering, Some (to_capability demo_claims), None)"
  by code_simp

lemma sys_eval5: "consume_step (\<lambda>xs. xs) live_event sys4 \<noteq> None \<and> length (d_lanes (g_disp (sy_gw sys5))) = 1"
  by code_simp

lemma sys_eval6:
  "case worker_take (g_disp (sy_gw sys5)) 0 of
     Some (ev, _) \<Rightarrow> ev_EventID ev = ''e1'' \<and> built_frame demo_unwrap demo_gcm (\<lambda>xs. xs) ev sys5 \<noteq> None | None \<Rightarrow> False"
  by code_simp

lemma sys_recipients: "hub_recipients (\<lambda>xs. xs) (sy_hub sys4) ''tenant:t:app:a:topic:x'' = [0]"
  by code_simp

lemma sys_start:
  "case (start_gateway demo_platform prod_env server_heap :: startup_error + unit running) of
     Inr g \<Rightarrow> (case rn_validator g of JWT_Impl v \<Rightarrow> v = demo_jv | Mock_Validator_Impl _ \<Rightarrow> False) \<and>
       hb_Shards (cf_Hub (rn_cfg g)) < 2 ^ 32 \<and> hb_EventLanes (cf_Hub (rn_cfg g)) < 2 ^ 32
   | Inl _ \<Rightarrow> False"
  by code_simp

lemma sys_started:
  obtains g where "(start_gateway demo_platform prod_env server_heap :: startup_error + unit running) = Inr g"
    "rn_validator g = JWT_Impl demo_jv" "hb_Shards (cf_Hub (rn_cfg g)) < 2 ^ 32" "hb_EventLanes (cf_Hub (rn_cfg g)) < 2 ^ 32"
    "sys0 = start_system demo_state g"
  using sys_start by (auto simp: sys0_def split: sum.splits ticket_validator_impl.splits)

abbreviation sys_reach :: "nat system \<Rightarrow> bool" where
  "sys_reach \<equiv> system_reach demo_unwrap demo_gcm (\<lambda>xs. xs) demo_check sys0"

lemma sys_request: "sys_reach s \<Longrightarrow> request_step (\<lambda>xs. xs) demo_check (sy_api s) (f (sy_api s)) \<Longrightarrow> sys_reach (on_api f s)"
  unfolding on_api_def by (erule system_reach.step, erule system_step.request)

lemma sys4_reach: "sys_reach sys4"
proof -
  have len: "length (ap_conns (sy_api sys1)) = 1" "length (ap_conns (sy_api sys2)) = 1" "length (ap_conns (sy_api sys3)) = 1"
    using sys_eval1 by (simp_all add: sys2_def sys3_def on_api_def advance_def put_def)
  note ev = sys_eval1 sys_eval2 sys_eval3
  note ev = ev [unfolded run_facts_def prod.inject]
  have "sys_reach sys1"
    unfolding sys1_def by (rule sys_request [OF system_reach.start]) (rule request_step.arrive)
  then have "sys_reach sys2"
    unfolding sys2_def by (rule sys_request) (unfold advance_def, rule request_step.serve, rule serve_step.enter; simp add: ev)
  then have "sys_reach sys3"
    unfolding sys3_def by (rule sys_request) (unfold advance_def, rule request_step.serve, rule serve_step.check; simp add: ev len)
  moreover have "admitted_refs (sy_api sys3) = {}" using ev len by (auto simp: admitted_refs_nth)
  moreover have "client_wf (new_connection h cap i)" "\<not> cl_unregistered (new_connection h cap i)" for h cap i
    unfolding new_connection_def by (rule NewClient_wf) (simp add: NewClient_def Let_def)
  ultimately show ?thesis
    unfolding sys4_def
    by (elim sys_request, unfold advance_def, intro request_step.serve serve_step.register)
      (simp_all add: ev len fresh_client_def routing_keys_def demo_claims_def to_capability_def)
qed

lemma sys6_reach: "sys_reach sys6"
proof -
  obtain s where "consume_step (\<lambda>xs. xs) live_event sys4 = Some s" using sys_eval5 by blast
  then have "sys_reach sys5"
    by (simp add: sys5_def) (rule system_reach.step [OF sys4_reach], rule system_step.consume)
  then show ?thesis
    unfolding sys6_def by (rule system_reach.step) (rule system_step.work, use sys_eval5 in simp)
qed

lemma server_heap_wf: "client_wf (server_heap c)"
  by (simp add: server_heap_def NewClient_wf)


theorem consumer_never_panics_witness: "consume_step (\<lambda>xs. xs) live_event sys6 \<noteq> None"
proof -
  obtain g where g: "(start_gateway demo_platform prod_env server_heap :: startup_error + unit running) = Inr g"
    "hb_Shards (cf_Hub (rn_cfg g)) < 2 ^ 32" "hb_EventLanes (cf_Hub (rn_cfg g)) < 2 ^ 32" "sys0 = start_system demo_state g"
    using sys_started by metis
  show ?thesis by (rule consumer_never_panics [OF g(1) server_heap_wf range_order_id g(2,3) sys6_reach [unfolded g(4)]])
qed

end
