(* ===== verification/Process.thy ===== *)
theory Process
  imports System
begin

text \<open>
  The gateway as a process: \<^verbatim>\<open>main\<close> of \<^verbatim>\<open>cmd/server/main.go\<close> from its command line to its exit, the process
  hardening (\<^verbatim>\<open>internal/crypto/harden_linux.go\<close>, \<^verbatim>\<open>harden_other.go\<close>) and the constructor of the pipeline's processor.
  After the start (theory \<open>Server\<close>) the main goroutine waits for a signal and then takes the steps of the shutdown one
  after the other, while the goroutines of the running gateway (theory \<open>System\<close>) go on: requests, the consumer, the
  lane workers, the sampler of the queue depth, the bus. \<open>pr_stage\<close> is where the main goroutine is. The calls of the
  operating system are parameters; timers are choices of the step relation.
\<close>

section \<open>Definitions\<close>

subsection \<open>The command line\<close>

record build =
  bd_version :: string
  bd_commit :: string
  bd_buildDate :: string

definition local_build :: build where
  "local_build = \<lparr>bd_version = ''dev'', bd_commit = ''unknown'', bd_buildDate = ''unknown''\<rparr>"

definition version_text :: "build \<Rightarrow> string" where
  "version_text b =
     ''SSE Gateway v'' @ bd_version b @ '' (commit: '' @ bd_commit b @ '', date: '' @ bd_buildDate b @ '')'' @ [LF]"

record main_flags =
  healthcheckFlag :: bool
  versionFlag :: bool

definition set_flag :: "string \<Rightarrow> bool \<Rightarrow> main_flags \<Rightarrow> main_flags" where
  "set_flag name b fl = (if name = ''healthcheck'' then fl\<lparr>healthcheckFlag := b\<rparr> else fl\<lparr>versionFlag := b\<rparr>)"

text \<open>
  \<^verbatim>\<open>flag.Parse\<close> on the two boolean flags: one or two dashes, an optional value after \<^verbatim>\<open>=\<close>, and nothing after the first
  argument that is not a flag is read. The left value is the exit code: 0 for a request for help, 2 for an error.
\<close>

fun flag_Parse :: "main_flags \<Rightarrow> string list \<Rightarrow> nat + main_flags" where
  "flag_Parse fl [] = Inr fl"
| "flag_Parse fl (s # args) =
     (if length s < 2 \<or> hd s \<noteq> CHR ''-'' \<or> s = ''--'' then Inr fl
      else
        (let full = (if s ! 1 = CHR ''-'' then drop 2 s else drop 1 s);
             name = takeWhile (\<lambda>c. c \<noteq> CHR ''='') full;
             rest = drop (length name) full
         in if full = [] \<or> hd full = CHR ''-'' \<or> hd full = CHR ''='' then Inl 2
            else if name \<noteq> ''healthcheck'' \<and> name \<noteq> ''version'' then Inl (if name = ''help'' \<or> name = ''h'' then 0 else 2)
            else case (if rest = [] then Some True else ParseBool (tl rest)) of
                   None \<Rightarrow> Inl 2
                 | Some b \<Rightarrow> flag_Parse (set_flag name b fl) args))"

subsection \<open>Process hardening\<close>

record rlimit =
  lim_Cur :: nat
  lim_Max :: nat

text \<open>The two system calls, on the state the kernel keeps of the process; the flag says whether the call succeeded.\<close>

record 'k syscalls =
  unix_Prctl :: "'k \<Rightarrow> int \<Rightarrow> int list \<Rightarrow> 'k \<times> bool"
  unix_Setrlimit :: "'k \<Rightarrow> int \<Rightarrow> rlimit \<Rightarrow> 'k \<times> bool"

definition PR_SET_DUMPABLE :: int where
  "PR_SET_DUMPABLE = 4"

definition RLIMIT_CORE :: int where
  "RLIMIT_CORE = 4"

datatype harden_warning = Dumpable_Warning | Core_Warning

text \<open>The two build variants; a call that fails is logged, and the process goes on.\<close>

definition HardenProcess :: "bool \<Rightarrow> 'k syscalls \<Rightarrow> 'k \<Rightarrow> 'k \<times> harden_warning list" where
  "HardenProcess linux os k =
     (if \<not> linux then (k, [])
      else
        (let (k1, ok1) = unix_Prctl os k PR_SET_DUMPABLE [0, 0, 0, 0];
             (k2, ok2) = unix_Setrlimit os k1 RLIMIT_CORE \<lparr>lim_Cur = 0, lim_Max = 0\<rparr>
         in (k2, (if ok1 then [] else [Dumpable_Warning]) @ (if ok2 then [] else [Core_Warning]))))"

subsection \<open>The start of the process\<close>

text \<open>What the process finds around it: the build, the system, and the answers to an HTTP request of its own.\<close>

record 'k host =
  ho_build :: build
  ho_linux :: bool
  ho_os :: "'k syscalls"
  ho_get :: "string \<Rightarrow> nat option"

datatype ('k, 'l) main_result =
    Exits nat 'k string
  | Serves 'k "harden_warning list" "'l running"

text \<open>\<^verbatim>\<open>main\<close> up to the components running: it exits with what it printed, or serves. A panic exits with 2.\<close>

definition main_start :: "'k host \<Rightarrow> platform \<Rightarrow> load_env \<Rightarrow> heap \<Rightarrow> string list \<Rightarrow> 'k \<Rightarrow> ('k, 'l) main_result" where
  "main_start ho p e hp args k =
     (case flag_Parse \<lparr>healthcheckFlag = False, versionFlag = False\<rparr> args of
        Inl code \<Rightarrow> Exits code k []
      | Inr fl \<Rightarrow>
          if versionFlag fl then Exits 0 k (version_text (ho_build ho))
          else if healthcheckFlag fl then Exits (healthcheck_exit (ho_get ho (healthcheck_url e))) k []
          else
            (case HardenProcess (ho_linux ho) (ho_os ho) k of
               (k1, warnings) \<Rightarrow>
                 (case start_gateway p e hp of
                    Inl err \<Rightarrow> Exits (if err = PatternPanic then 2 else 1) k1 []
                  | Inr g \<Rightarrow> Serves k1 warnings g)))"

record processor =
  ps_unwrapper :: unwrapper_impl
  ps_hub :: hub
  ps_router :: router
  ps_cfg :: config
  ps_logger :: slog_logger
  ps_metrics :: bool

definition NewProcessor ::
  "slog_logger \<Rightarrow> unwrapper_impl \<Rightarrow> hub \<Rightarrow> router \<Rightarrow> config \<Rightarrow> slog_logger option \<Rightarrow> bool \<Rightarrow> processor" where
  "NewProcessor slogDefault unwrapper sseHub router cfg logger m =
     (let lg = (case logger of None \<Rightarrow> slogDefault | Some l \<Rightarrow> l)
      in \<lparr>ps_unwrapper = unwrapper, ps_hub = sseHub, ps_router = router, ps_cfg = cfg,
          ps_logger = lg\<lparr>lg_attrs := lg_attrs lg @ [(''component'', AString ''pipeline_processor'')]\<rparr>, ps_metrics = m\<rparr>)"

text \<open>The state the processor's operations run on, before the first event.\<close>

definition processor_state :: "'u \<Rightarrow> processor \<Rightarrow> 'u pipe_state" where
  "processor_state svc ps =
     \<lparr>pi_svc = svc, pi_mem = [],
      pi_metrics = (if ps_metrics ps then Some \<lparr>DecryptErrorsTotal = 0, EventsDecryptedTotal = 0, CryptoDurations = 0,
        EventProcessingDurations = 0, FanoutTotal = 0, FanoutRecipientsTotal = 0, EventsNoSubscriberTotal = 0\<rparr> else None)\<rparr>"

record http_server =
  sv_Addr :: string
  sv_ReadHeaderTimeout :: int
  sv_IdleTimeout :: int
  sv_MaxHeaderBytes :: int
  sv_WriteTimeout :: int

definition new_server :: "config \<Rightarrow> http_server" where
  "new_server cfg =
     \<lparr>sv_Addr = Address (cf_HTTP cfg), sv_ReadHeaderTimeout = hc_ReadHeaderTimeout (cf_HTTP cfg),
      sv_IdleTimeout = hc_IdleTimeout (cf_HTTP cfg), sv_MaxHeaderBytes = hc_MaxHeaderBytes (cf_HTTP cfg),
      sv_WriteTimeout = hc_WriteTimeout (cf_HTTP cfg)\<rparr>"

subsection \<open>The running process\<close>

datatype stage =
    Serving | Signalled | HTTP_Stopping | HTTP_Stopped | Joining | Lanes_Closing | Lanes_Draining
  | Bus_Closing | Unwrapper_Closing | Hub_Closing | Returning | Exited nat

record ('u, 'l) process =
  pr_stage :: stage
  pr_sys :: "'u system"
  pr_server :: http_server
  pr_limiter :: "'l ip_rate_limiter option"
  pr_bus :: bus_impl
  pr_unwrapper :: unwrapper_impl
  pr_busCancelled :: bool
  pr_consumer :: bool
  pr_sampler :: bool
  pr_queueDepth :: int
  pr_forced :: bool
  pr_undrained :: bool

definition start_process :: "slog_logger \<Rightarrow> 'u \<Rightarrow> 'l running \<Rightarrow> ('u, 'l) process" where
  "start_process slogDefault svc g =
     (let handler = ar_APIHandler (rn_router g);
          proc = NewProcessor slogDefault (rn_unwrapper g) (hd_hub handler) (hd_router handler) (rn_cfg g) (Some (rn_logger g))
                   (mc_Enabled (cf_Metrics (rn_cfg g)))
      in \<lparr>pr_stage = Serving, pr_sys = start_system (processor_state svc proc) g, pr_server = new_server (rn_cfg g),
          pr_limiter = ar_limiter (rn_router g), pr_bus = rn_bus g, pr_unwrapper = rn_unwrapper g,
          pr_busCancelled = False, pr_consumer = True, pr_sampler = mc_Enabled (cf_Metrics (rn_cfg g)),
          pr_queueDepth = 0, pr_forced = False, pr_undrained = False\<rparr>)"

definition on_sys :: "('u system \<Rightarrow> 'u system) \<Rightarrow> ('u, 'l) process \<Rightarrow> ('u, 'l) process" where
  "on_sys f p = p\<lparr>pr_sys := f (pr_sys p)\<rparr>"

definition on_lanes :: "(dispatcher \<Rightarrow> dispatcher) \<Rightarrow> 'u system \<Rightarrow> 'u system" where
  "on_lanes f s = s\<lparr>sy_gw := (sy_gw s)\<lparr>g_disp := f (g_disp (sy_gw s))\<rparr>\<rparr>"

abbreviation pr_conns :: "('u, 'l) process \<Rightarrow> conn list" where
  "pr_conns p \<equiv> ap_conns (sy_api (pr_sys p))"

abbreviation pr_lanes :: "('u, 'l) process \<Rightarrow> dispatcher" where
  "pr_lanes p \<equiv> g_disp (sy_gw (pr_sys p))"

definition workers_ended :: "dispatcher \<Rightarrow> bool" where
  "workers_ended d \<longleftrightarrow> (\<forall>i < length (d_lanes d). worker_ends d i)"

text \<open>
  The main goroutine after the start. The HTTP server's shutdown returns once no request is being served, or its
  context expires and the connections are cut. The drain of the lanes ends once every worker has, or its timer fires.
\<close>

inductive main_step :: "client_order \<Rightarrow> ('u, 'l) process \<Rightarrow> ('u, 'l) process \<Rightarrow> bool" for ord :: client_order where
  signal: "pr_stage p = Serving \<Longrightarrow> main_step ord p (p\<lparr>pr_stage := Signalled\<rparr>)"
| refuse: "pr_stage p = Signalled \<Longrightarrow> main_step ord p
    ((if sd_StopAcceptingFirst (cf_Shutdown (sy_cfg (pr_sys p)))
      then on_sys (on_api (\<lambda>a. a\<lparr>ap_handler := SetShuttingDown (ap_handler a) True\<rparr>)) p else p)\<lparr>pr_stage := HTTP_Stopping\<rparr>)"
| http_graceful: "pr_stage p = HTTP_Stopping \<Longrightarrow> \<forall>k \<in> set (pr_conns p). cn_phase k = Finished \<Longrightarrow>
    main_step ord p (p\<lparr>pr_stage := HTTP_Stopped\<rparr>)"
| http_forced: "pr_stage p = HTTP_Stopping \<Longrightarrow> main_step ord p (p\<lparr>pr_stage := HTTP_Stopped, pr_forced := True\<rparr>)"
| cancel_bus: "pr_stage p = HTTP_Stopped \<Longrightarrow> main_step ord p (p\<lparr>pr_stage := Joining, pr_busCancelled := True\<rparr>)"
| join_consumer: "pr_stage p = Joining \<Longrightarrow> \<not> pr_consumer p \<Longrightarrow> main_step ord p (p\<lparr>pr_stage := Lanes_Closing\<rparr>)"
| close_lanes: "pr_stage p = Lanes_Closing \<Longrightarrow>
    main_step ord p ((on_sys (on_lanes lanes_Shut) p)\<lparr>pr_stage := Lanes_Draining\<rparr>)"
| drained: "pr_stage p = Lanes_Draining \<Longrightarrow> workers_ended (pr_lanes p) \<Longrightarrow>
    main_step ord p ((on_sys (on_lanes (\<lambda>d. d\<lparr>d_cancelled := True\<rparr>)) p)\<lparr>pr_stage := Bus_Closing\<rparr>)"
| drain_timeout: "pr_stage p = Lanes_Draining \<Longrightarrow>
    main_step ord p ((on_sys (on_lanes (\<lambda>d. d\<lparr>d_cancelled := True\<rparr>)) p)\<lparr>pr_stage := Bus_Closing, pr_undrained := True\<rparr>)"
| close_bus: "pr_stage p = Bus_Closing \<Longrightarrow> bus_Close_impl (pr_bus p) = Some b \<Longrightarrow>
    main_step ord p (p\<lparr>pr_stage := Unwrapper_Closing, pr_bus := b\<rparr>)"
| close_bus_panic: "pr_stage p = Bus_Closing \<Longrightarrow> bus_Close_impl (pr_bus p) = None \<Longrightarrow>
    main_step ord p (p\<lparr>pr_stage := Exited 2\<rparr>)"
| close_unwrapper: "pr_stage p = Unwrapper_Closing \<Longrightarrow>
    main_step ord p (p\<lparr>pr_stage := Hub_Closing, pr_unwrapper := unwrapper_Close_impl (pr_unwrapper p)\<rparr>)"
| close_hub: "pr_stage p = Hub_Closing \<Longrightarrow>
    main_step ord p ((on_sys (on_api (\<lambda>a. set_hub a (Hub_Close ord (hd_hub (ap_handler a))))) p)\<lparr>pr_stage := Returning\<rparr>)"
| return: "pr_stage p = Returning \<Longrightarrow>
    main_step ord p (p\<lparr>pr_stage := Exited 0, pr_limiter := map_option limiter_Stop (pr_limiter p)\<rparr>)"

text \<open>The other goroutines: they run until the process exits. A panic of the consumer or the bus ends the process.\<close>

inductive background_step ::
  "'u unwrap \<Rightarrow> gcm \<Rightarrow> client_order \<Rightarrow> ticket_check \<Rightarrow> ('u, 'l) process \<Rightarrow> ('u, 'l) process \<Rightarrow> bool"
  for unwrap :: "'u unwrap" and gcm_open :: gcm and ord :: client_order and validate :: ticket_check where
  listen_failed: "pr_stage p \<in> {Serving, Signalled} \<Longrightarrow>
    background_step unwrap gcm_open ord validate p (p\<lparr>pr_stage := Exited 1\<rparr>)"
| arrive: "pr_stage p \<in> {Serving, Signalled, HTTP_Stopping} \<Longrightarrow>
    background_step unwrap gcm_open ord validate p
      (on_sys (on_api (\<lambda>a. a\<lparr>ap_conns := ap_conns a @ [arriving r (endpoint_writer fresh r)]\<rparr>)) p)"
| serve: "serve_step ord validate (sy_api (pr_sys p)) a \<Longrightarrow>
    background_step unwrap gcm_open ord validate p (on_sys (\<lambda>s. s\<lparr>sy_api := a\<rparr>) p)"
| consume: "pr_consumer p \<Longrightarrow> consume_step ord ev (pr_sys p) = Some s \<Longrightarrow>
    background_step unwrap gcm_open ord validate p (p\<lparr>pr_sys := s\<rparr>)"
| consume_panic: "pr_consumer p \<Longrightarrow> consume_step ord ev (pr_sys p) = None \<Longrightarrow>
    background_step unwrap gcm_open ord validate p (p\<lparr>pr_stage := Exited 2\<rparr>)"
| consumer_end: "pr_consumer p \<Longrightarrow> pr_busCancelled p \<Longrightarrow>
    background_step unwrap gcm_open ord validate p (p\<lparr>pr_consumer := False\<rparr>)"
| work: "i < length (d_lanes (pr_lanes p)) \<Longrightarrow>
    background_step unwrap gcm_open ord validate p (on_sys (work_step unwrap gcm_open ord i) p)"
| sample: "pr_sampler p \<Longrightarrow>
    background_step unwrap gcm_open ord validate p (p\<lparr>pr_queueDepth := QueueDepth (pr_lanes p)\<rparr>)"
| sampler_end: "pr_sampler p \<Longrightarrow> pr_busCancelled p \<Longrightarrow>
    background_step unwrap gcm_open ord validate p (p\<lparr>pr_sampler := False\<rparr>)"
| bus_cancelled: "pr_bus p = Memory_Impl m \<Longrightarrow> pr_busCancelled p \<Longrightarrow> cancel_sub m ch = Some m' \<Longrightarrow>
    background_step unwrap gcm_open ord validate p (p\<lparr>pr_bus := Memory_Impl m'\<rparr>)"
| bus_panic: "pr_bus p = Memory_Impl m \<Longrightarrow> pr_busCancelled p \<Longrightarrow> cancel_sub m ch = None \<Longrightarrow>
    background_step unwrap gcm_open ord validate p (p\<lparr>pr_stage := Exited 2\<rparr>)"

definition alive :: "stage \<Rightarrow> bool" where
  "alive g \<longleftrightarrow> (\<forall>code. g \<noteq> Exited code)"

inductive process_step ::
  "'u unwrap \<Rightarrow> gcm \<Rightarrow> client_order \<Rightarrow> ticket_check \<Rightarrow> ('u, 'l) process \<Rightarrow> ('u, 'l) process \<Rightarrow> bool"
  for unwrap :: "'u unwrap" and gcm_open :: gcm and ord :: client_order and validate :: ticket_check where
  main: "main_step ord p p' \<Longrightarrow> process_step unwrap gcm_open ord validate p p'"
| background: "alive (pr_stage p) \<Longrightarrow> background_step unwrap gcm_open ord validate p p' \<Longrightarrow>
    process_step unwrap gcm_open ord validate p p'"

inductive process_reach ::
  "'u unwrap \<Rightarrow> gcm \<Rightarrow> client_order \<Rightarrow> ticket_check \<Rightarrow> ('u, 'l) process \<Rightarrow> ('u, 'l) process \<Rightarrow> bool"
  for unwrap :: "'u unwrap" and gcm_open :: gcm and ord :: client_order and validate :: ticket_check and p0 :: "('u, 'l) process" where
  start: "process_reach unwrap gcm_open ord validate p0 p0"
| step: "process_reach unwrap gcm_open ord validate p0 p \<Longrightarrow> process_step unwrap gcm_open ord validate p p' \<Longrightarrow>
    process_reach unwrap gcm_open ord validate p0 p'"

subsection \<open>The order of the shutdown\<close>

text \<open>How far the main goroutine has come; a failed listener ends the process before the shutdown.\<close>

primrec stage_no :: "stage \<Rightarrow> nat" where
  "stage_no Serving = 0"
| "stage_no Signalled = 1"
| "stage_no HTTP_Stopping = 2"
| "stage_no HTTP_Stopped = 3"
| "stage_no Joining = 4"
| "stage_no Lanes_Closing = 5"
| "stage_no Lanes_Draining = 6"
| "stage_no Bus_Closing = 7"
| "stage_no Unwrapper_Closing = 8"
| "stage_no Hub_Closing = 9"
| "stage_no Returning = 10"
| "stage_no (Exited code) = (if code = 0 then 11 else 0)"

definition bus_shut :: "bus_impl \<Rightarrow> bool" where
  "bus_shut b \<longleftrightarrow> (case b of Valkey_Impl v \<Rightarrow> vb_closed v | Memory_Impl m \<Rightarrow> mb_closed m)"

definition all_finished :: "api \<Rightarrow> bool" where
  "all_finished a \<longleftrightarrow> (\<forall>k \<in> set (ap_conns a). cn_phase k = Finished)"

definition process_ok :: "config \<Rightarrow> unwrapper_impl \<Rightarrow> ('u, 'l) process \<Rightarrow> bool" where
  "process_ok cfg u p \<longleftrightarrow>
     (let n = stage_no (pr_stage p); s = pr_sys p in
       (\<forall>code. pr_stage p = Exited code \<longrightarrow> code \<le> 1) \<and>
       (2 \<le> n \<longrightarrow> sd_StopAcceptingFirst (cf_Shutdown cfg) \<longrightarrow> hd_isShuttingDown (ap_handler (sy_api s))) \<and>
       (3 \<le> n \<longrightarrow> pr_forced p \<or> all_finished (sy_api s)) \<and>
       (pr_busCancelled p \<longleftrightarrow> 4 \<le> n) \<and>
       (5 \<le> n \<longrightarrow> \<not> pr_consumer p) \<and>
       (d_closed (pr_lanes p) \<longleftrightarrow> 6 \<le> n) \<and>
       (7 \<le> n \<longrightarrow> d_cancelled (pr_lanes p) \<and> (pr_undrained p \<or> workers_ended (pr_lanes p))) \<and>
       bus_good (pr_bus p) \<and> (8 \<le> n \<longrightarrow> bus_shut (pr_bus p)) \<and>
       pr_unwrapper p = (if 9 \<le> n then unwrapper_Close_impl u else u) \<and>
       (h_closed (sy_hub s) \<longleftrightarrow> 10 \<le> n) \<and>
       (11 \<le> n \<longrightarrow> (\<forall>l. pr_limiter p = Some l \<longrightarrow> rl_stopped l)))"

section \<open>Lemmas\<close>

subsection \<open>The process runs the gateway\<close>

lemma main_sys:
  assumes "main_step ord p p'"
  shows "pr_sys p' = pr_sys p \<or> system_step unwrap g ord validate (pr_sys p) (pr_sys p')"
  using assms
proof cases
  case refuse
  then show ?thesis by (auto simp: on_sys_def on_api_def intro: system_step.request request_step.shut_down)
next
  case close_lanes
  then show ?thesis by (auto simp: on_sys_def on_lanes_def intro: system_step.stop_lanes)
next
  case drained
  then show ?thesis by (auto simp: on_sys_def on_lanes_def intro: system_step.cancel_lanes)
next
  case drain_timeout
  then show ?thesis by (auto simp: on_sys_def on_lanes_def intro: system_step.cancel_lanes)
next
  case close_hub
  then show ?thesis by (auto simp: on_sys_def on_api_def intro: system_step.request request_step.close_hub)
qed simp_all

lemma background_sys:
  assumes "background_step unwrap g ord validate p p'"
  shows "pr_sys p' = pr_sys p \<or> system_step unwrap g ord validate (pr_sys p) (pr_sys p')"
  using assms
proof cases
  case (arrive r fresh)
  then show ?thesis by (auto simp: on_sys_def on_api_def intro: system_step.request request_step.arrive)
next
  case (serve a)
  then show ?thesis by (auto simp: on_sys_def intro: system_step.request request_step.serve)
next
  case (consume ev s)
  then show ?thesis by (auto intro: system_step.consume)
next
  case (work i)
  then show ?thesis by (auto simp: on_sys_def intro: system_step.work)
qed simp_all

lemma process_sys:
  assumes "process_reach unwrap g ord validate p0 p"
  shows "system_reach unwrap g ord validate (pr_sys p0) (pr_sys p)"
  using assms
proof induction
  case (step p p')
  from step(2) have "pr_sys p' = pr_sys p \<or> system_step unwrap g ord validate (pr_sys p) (pr_sys p')"
    by cases (auto dest: main_sys background_sys)
  with step(3) show ?case by (metis system_reach.step)
qed (rule system_reach.start)

subsection \<open>What the goroutines leave alone\<close>

text \<open>The part of the gateway that only the shutdown changes.\<close>

definition undisturbed :: "'u system \<Rightarrow> 'u system \<Rightarrow> bool" where
  "undisturbed s s' \<longleftrightarrow>
     hd_isShuttingDown (ap_handler (sy_api s')) = hd_isShuttingDown (ap_handler (sy_api s)) \<and>
     h_closed (sy_hub s') = h_closed (sy_hub s) \<and> (all_finished (sy_api s) \<longrightarrow> all_finished (sy_api s')) \<and>
     d_closed (g_disp (sy_gw s')) = d_closed (g_disp (sy_gw s)) \<and>
     d_cancelled (g_disp (sy_gw s')) = d_cancelled (g_disp (sy_gw s)) \<and>
     (workers_ended (g_disp (sy_gw s)) \<longrightarrow> workers_ended (g_disp (sy_gw s')))"

definition same_flags :: "handler \<Rightarrow> handler \<Rightarrow> bool" where
  "same_flags h h' \<longleftrightarrow> hd_isShuttingDown h' = hd_isShuttingDown h \<and> h_closed (hd_hub h') = h_closed (hd_hub h)"

lemma handler_flags [simp]:
  "hd_isShuttingDown (release_handshake h) = hd_isShuttingDown h" "hd_isShuttingDown (open_metrics h) = hd_isShuttingDown h"
  "hd_isShuttingDown (close_metrics h) = hd_isShuttingDown h"
  by (simp_all add: release_handshake_def open_metrics_def close_metrics_def split: recv_result.split)

lemma enter_flags: "same_flags h (fst (enter_step h k))"
  by (cases "events_guard h (cn_req k) (cn_writer k)"; cases "try_send (hd_handshakeSem h) ()";
      simp add: enter_step_def acquire_handshake_def same_flags_def)

lemma check_flags: "same_flags h (fst (check_phase validate now h k))"
  by (simp add: check_phase_def case_prod_unfold same_flags_def split: sum.split)

lemma register_flags: "same_flags h (fst (register_phase c i cap h k))"
  by (auto simp: register_phase_def admit_register_def same_flags_def Let_def dest: Register_heap split: sum.split)

lemma leave_flags: "same_flags h (stream_leave h c)"
  by (simp add: stream_leave_def unregister_conn_def same_flags_def)

lemma open_flags: "same_flags h (fst (open_phase now ok c h k))"
  by (simp add: open_phase_def stream_open_def unregister_conn_def same_flags_def)

lemma frame_flags: "same_flags h (fst (frame_phase now ok c f h k))"
  using leave_flags [of "h\<lparr>hd_hub := drain_one (hd_hub h) c\<rparr>" c]
  by (simp add: frame_phase_def stream_frame_def same_flags_def drain_one_fields Let_def)

lemmas phase_flags = enter_flags check_flags register_flags leave_flags open_flags frame_flags

lemma heartbeat_closed: "h_closed (BroadcastHeartbeat ord h f) = h_closed h"
  by (simp add: BroadcastHeartbeat_eq)

lemma serve_undisturbed:
  assumes "serve_step ord validate (sy_api s) a"
  shows "undisturbed s (s\<lparr>sy_api := a\<rparr>)"
proof -
  have "same_flags (ap_handler (sy_api s)) (ap_handler a)"
    using assms
    by cases (auto simp: put_def phase_flags set_hub_def heartbeat_closed, simp_all add: same_flags_def heartbeat_closed)
  moreover have "all_finished a" if "all_finished (sy_api s)"
  proof -
    have "cn_phase (ap_conns (sy_api s) ! i) = Finished" if "i < length (ap_conns (sy_api s))" for i
      using \<open>all_finished (sy_api s)\<close> that by (simp add: all_finished_def)
    with assms that show ?thesis by cases (auto simp: set_hub_def all_finished_def)
  qed
  ultimately show ?thesis by (simp add: undisturbed_def same_flags_def)
qed

lemma Dispatch_flags: "Dispatch d ev = Some (d', b) \<Longrightarrow> d_closed d' = d_closed d \<and> d_cancelled d' = d_cancelled d"
  by (auto simp: Dispatch_def lane_send_def add_depth_def Let_def split: if_splits send_result.splits bool.splits)

lemma consume_undisturbed:
  assumes "consume_step ord ev s = Some s'" "\<not> d_closed (g_disp (sy_gw s))" "\<not> workers_ended (g_disp (sy_gw s))"
  shows "undisturbed s s'"
  using assms
  by (cases rule: consume_cases)
    (auto simp: undisturbed_def set_hub_def all_finished_def dest: Dispatch_flags)

lemma work_undisturbed: "i < length (d_lanes (g_disp (sy_gw s))) \<Longrightarrow> undisturbed s (work_step unwrap g ord i s)"
proof (cases "worker_take (g_disp (sy_gw s)) i")
  case (Some t)
  moreover assume i: "i < length (d_lanes (g_disp (sy_gw s)))"
  ultimately obtain ev d where t: "worker_take (g_disp (sy_gw s)) i = Some (ev, d)" by (cases t) simp
  then have "\<not> workers_ended (g_disp (sy_gw s))" using i by (auto simp: workers_ended_def worker_ends_iff worker_take_Some)
  moreover have "d_closed d = d_closed (g_disp (sy_gw s))" "d_cancelled d = d_cancelled (g_disp (sy_gw s))"
    using t by (auto simp: worker_take_Some)
  ultimately show ?thesis
    by (simp add: undisturbed_def work_step_Some [OF t] set_hub_def all_finished_def add_depth_def)
qed (simp add: undisturbed_def work_step_None)

subsection \<open>The invariant\<close>

lemma undisturbed_ok:
  assumes "process_ok cfg u p" "undisturbed (pr_sys p) s"
  shows "process_ok cfg u (p\<lparr>pr_sys := s\<rparr>)"
  using assms by (auto simp: process_ok_def undisturbed_def Let_def)

lemma bus_closed_shut:
  assumes "bus_good b" "bus_Close_impl b = Some b'"
  shows "bus_good b'" "bus_shut b'"
proof -
  have "bus_good b' \<and> bus_shut b'"
  proof (cases b)
    case (Valkey_Impl v)
    with assms show ?thesis by (auto simp: bus_Close_impl_def bus_good_def bus_shut_def Valkey_Close_def)
  next
    case (Memory_Impl m)
    with assms Bus_Close_final [of m] show ?thesis by (auto simp: bus_Close_impl_def bus_good_def bus_shut_def)
  qed
  then show "bus_good b'" "bus_shut b'" by simp_all
qed

lemma bus_cancel_good:
  assumes "bus_good (Memory_Impl m)"
  obtains m' where "cancel_sub m ch = Some m'" "bus_good (Memory_Impl m')" "mb_closed m' = mb_closed m"
proof -
  obtain m' where m': "cancel_sub m ch = Some m'" "bus_wf m'"
    using bus_step_wf [of m "OpCancel ch"] assms by (auto simp: bus_good_def)
  then have "mb_closed m' = mb_closed m" by (auto simp: cancel_sub_def close_ref_def split: if_splits)
  with that m' show thesis by (simp add: bus_good_def)
qed

lemma main_ok:
  fixes p :: "('u, 'l) process"
  assumes "main_step ord p p'" and ok: "process_ok cfg u p" and cfg: "sy_cfg (pr_sys p) = cfg"
  shows "process_ok cfg u p'"
  using assms(1)
proof cases
  case refuse
  then show ?thesis
    using ok cfg by (simp add: process_ok_def on_sys_def on_api_def SetShuttingDown_def Let_def all_finished_def)
next
  case http_graceful
  then show ?thesis using ok by (simp add: process_ok_def all_finished_def Let_def)
next
  case close_lanes
  then show ?thesis
    using ok by (simp add: process_ok_def on_sys_def on_lanes_def lanes_Shut_def close_lanes_def Let_def)
next
  case drained
  then show ?thesis
    using ok by (simp add: process_ok_def on_sys_def on_lanes_def workers_ended_def worker_ends_def Let_def)
next
  case drain_timeout
  then show ?thesis using ok by (simp add: process_ok_def on_sys_def on_lanes_def Let_def)
next
  case (close_bus b)
  then show ?thesis using ok bus_closed_shut [of "pr_bus p" b] by (simp add: process_ok_def Let_def)
next
  case close_bus_panic
  then show ?thesis using ok bus_close_final [of "pr_bus p"] by (fastforce simp: process_ok_def Let_def)
next
  case close_hub
  then show ?thesis using ok by (simp add: process_ok_def on_sys_def on_api_def set_hub_def all_finished_def Let_def)
next
  case return
  moreover have "rl_stopped (limiter_Stop l)" for l :: "'l ip_rate_limiter" by (simp add: limiter_Stop_def)
  ultimately show ?thesis using ok by (auto simp: process_ok_def Let_def)
qed (use ok in \<open>simp_all add: process_ok_def Let_def\<close>)

lemma background_ok:
  assumes "background_step unwrap g ord validate p p'" and ok: "process_ok cfg u p" and alive: "alive (pr_stage p)"
    and consume: "\<And>ev. consume_step ord ev (pr_sys p) \<noteq> None"
    and lanes: "lanes_ok r (pr_lanes p)"
  shows "process_ok cfg u p'"
  using assms(1)
proof cases
  case listen_failed
  then have "stage_no (pr_stage p) \<le> 1" by auto
  with listen_failed(1) ok show ?thesis by (simp add: process_ok_def Let_def)
next
  case (arrive r fresh)
  then have "stage_no (pr_stage p) \<le> 2" by auto
  with arrive(1) ok show ?thesis by (simp add: process_ok_def on_sys_def on_api_def Let_def)
next
  case (serve a)
  then show ?thesis using undisturbed_ok [OF ok serve_undisturbed [OF serve(2)]] by (simp add: on_sys_def)
next
  case (consume ev s)
  then have "\<not> d_closed (pr_lanes p)" using ok by (auto simp: process_ok_def Let_def)
  moreover from this have "\<not> workers_ended (pr_lanes p)"
    using lanes by (auto simp: lanes_ok_def workers_ended_def worker_ends_iff)
  ultimately show ?thesis using undisturbed_ok [OF ok consume_undisturbed [OF consume(3)]] consume(1) by simp
next
  case (consume_panic ev)
  then show ?thesis using consume by blast
next
  case (work i)
  then show ?thesis using undisturbed_ok [OF ok work_undisturbed [OF work(2)]] by (simp add: on_sys_def)
next
  case (bus_cancelled m ch m')
  then have "bus_good (Memory_Impl m)" using ok by (simp add: process_ok_def Let_def)
  then have "bus_good (Memory_Impl m')" "mb_closed m' = mb_closed m"
    using bus_cancelled(4) by (auto elim!: bus_cancel_good [of m ch])
  then show ?thesis using ok bus_cancelled(1-3) by (simp add: process_ok_def bus_shut_def Let_def)
next
  case (bus_panic m ch)
  then have "bus_good (Memory_Impl m)" using ok by (simp add: process_ok_def Let_def)
  then show ?thesis using bus_panic(4) by (auto elim!: bus_cancel_good [of m ch])
qed (use ok in \<open>auto simp: process_ok_def Let_def\<close>)

lemma start_bus_good:
  assumes "start_gateway pf e hp = Inr g"
  shows "bus_good (rn_bus g)"
proof -
  obtain cfg b0 where "bus_Subscribe_impl b0 [vc_ChannelPattern (ec_Valkey (cf_EventBus cfg))] = Inr (rn_bus g)"
    "init_bus pf (le_files e) cfg = Inr b0"
    using start_Inr [OF assms] by metis
  then show ?thesis
    using NewBus_wf
    by (auto simp: bus_good_def bus_Subscribe_impl_def init_bus_def Bus_Subscribe_def bus_wf_def Let_def NewBus_def chan_open_def
        make_chan_def chan_wf_def split: bus_impl.splits sum.splits if_splits)
qed

lemma process_reach_ok:
  assumes start: "start_gateway pf e hp = Inr g" and hp: "\<And>c. client_wf (hp c)" and ord: "range_order ord"
    and n: "hb_Shards (cf_Hub (rn_cfg g)) < 2 ^ 32" "hb_EventLanes (cf_Hub (rn_cfg g)) < 2 ^ 32"
    and reach: "process_reach unwrap gcm_open ord validate (start_process lg svc g) p"
  shows "process_ok (rn_cfg g) (rn_unwrapper g) p"
  using reach
proof induction
  case start
  obtain cfg where "rn_cfg g = cfg" "hd_hub (ar_APIHandler (rn_router g)) = init_hub hp cfg"
    "rn_dispatcher g = SetDrainTimeout (NewDispatcher (hb_EventLanes (cf_Hub cfg)) (hb_EventLaneQueueSize (cf_Hub cfg))) (drainBudget cfg)"
    using start_Inr [OF assms(1)] by metis
  moreover have "\<not> h_closed (init_hub hp cfg)" by (simp add: init_hub_def NewHub_def Let_def)
  ultimately show ?case
    using start_bus_good [OF assms(1)]
    by (simp add: process_ok_def start_process_def start_system_def SetDrainTimeout_def NewDispatcher_def Let_def)
next
  case (step p p')
  have "\<exists>st. system_reach unwrap gcm_open ord validate (start_system st g) (pr_sys p)"
    using process_sys [OF step(1)] by (auto simp: start_process_def Let_def)
  then obtain st where sys: "system_reach unwrap gcm_open ord validate (start_system st g) (pr_sys p)" by blast
  obtain r where r: "api_inv ord validate (rn_cfg g) r (hb_Shards (cf_Hub (rn_cfg g))) (sy_api (pr_sys p))"
    "system_ok unwrap gcm_open (rn_cfg g) r (pr_sys p)"
    using system_reach_ok [OF assms(1-5) sys] by blast
  from step(2) show ?case
  proof cases
    case main
    then show ?thesis using main_ok [OF main step(3)] r(1) by (simp add: api_inv_def)
  next
    case background
    show ?thesis
      using background_ok [OF background(2) step(3) background(1) consumer_never_panics [OF assms(1-5) sys], of r] r(2)
      by (simp add: system_ok_def)
  qed
qed

subsection \<open>The way out\<close>

text \<open>What is left to do: the stages to come, and the consumer to wait for.\<close>

definition remaining :: "('u, 'l) process \<Rightarrow> nat" where
  "remaining p = 11 - stage_no (pr_stage p) + (if pr_consumer p then 1 else 0)"

definition same_history :: "('u, 'l) process \<Rightarrow> ('u, 'l) process \<Rightarrow> bool" where
  "same_history p p' \<longleftrightarrow> pr_conns p' = pr_conns p \<and> sy_seen (pr_sys p') = sy_seen (pr_sys p) \<and> sy_handled (pr_sys p') = sy_handled (pr_sys p)"

definition progress :: "('u, 'l) process \<Rightarrow> ('u, 'l) process \<Rightarrow> bool" where
  "progress p p' \<longleftrightarrow> remaining p' < remaining p \<and> same_history p p' \<and> pr_stage p' \<noteq> Serving \<and>
     (\<forall>code. pr_stage p' = Exited code \<longrightarrow> code = 0)"

lemmas progress_defs = progress_def remaining_def same_history_def on_sys_def on_api_def on_lanes_def

lemma progressI: "main_step ord p p' \<Longrightarrow> progress p p' \<Longrightarrow> \<exists>p'. main_step ord p p' \<and> progress p p'"
  by blast

lemma main_progress:
  assumes "process_ok cfg u p" "alive (pr_stage p)" "pr_stage p \<noteq> Serving" "\<not> (pr_stage p = Joining \<and> pr_consumer p)"
  shows "\<exists>p'. main_step ord p p' \<and> progress p p'"
proof (cases "pr_stage p")
  case Signalled
  then show ?thesis by - (rule progressI, rule main_step.refuse, auto simp: progress_defs)
next
  case HTTP_Stopping
  then show ?thesis by - (rule progressI, rule main_step.http_forced, auto simp: progress_defs)
next
  case HTTP_Stopped
  then show ?thesis by - (rule progressI, rule main_step.cancel_bus, auto simp: progress_defs)
next
  case Joining
  then have "\<not> pr_consumer p" using assms(4) by simp
  from main_step.join_consumer [OF Joining this] show ?thesis
    by (rule progressI) (use Joining in \<open>auto simp: progress_defs\<close>)
next
  case Lanes_Closing
  then show ?thesis by - (rule progressI, rule main_step.close_lanes, auto simp: progress_defs)
next
  case Lanes_Draining
  then show ?thesis by - (rule progressI, rule main_step.drain_timeout, auto simp: progress_defs)
next
  case Bus_Closing
  have "bus_good (pr_bus p)" using assms(1) by (simp add: process_ok_def Let_def)
  then obtain b where "bus_Close_impl (pr_bus p) = Some b" using bus_close_final by blast
  from main_step.close_bus [OF Bus_Closing this] show ?thesis
    by (rule progressI) (use Bus_Closing in \<open>auto simp: progress_defs\<close>)
next
  case Unwrapper_Closing
  then show ?thesis by - (rule progressI, rule main_step.close_unwrapper, auto simp: progress_defs)
next
  case Hub_Closing
  then show ?thesis by - (rule progressI, rule main_step.close_hub, auto simp: progress_defs)
next
  case Returning
  then show ?thesis by - (rule progressI, rule main_step.return, auto simp: progress_defs)
qed (use assms in \<open>auto simp: alive_def\<close>)

lemma shutdown_progress:
  assumes ok: "process_ok cfg u p" and p: "alive (pr_stage p)" "pr_stage p \<noteq> Serving"
  shows "\<exists>p'. process_step unwrap g ord validate p p' \<and> progress p p'"
proof (cases "pr_stage p = Joining \<and> pr_consumer p")
  case True
  then have "pr_busCancelled p" using ok by (simp add: process_ok_def Let_def)
  then have "process_step unwrap g ord validate p (p\<lparr>pr_consumer := False\<rparr>)"
    using True p(1) by (intro process_step.background background_step.consumer_end) simp_all
  moreover have "progress p (p\<lparr>pr_consumer := False\<rparr>)" using True by (simp add: progress_defs)
  ultimately show ?thesis by blast
next
  case False
  from main_progress [OF ok p this] show ?thesis by (blast intro: process_step.main)
qed

lemma shutdown_path:
  assumes start: "start_gateway pf e hp = Inr g" "\<And>c. client_wf (hp c)" "range_order ord"
    "hb_Shards (cf_Hub (rn_cfg g)) < 2 ^ 32" "hb_EventLanes (cf_Hub (rn_cfg g)) < 2 ^ 32"
    and "process_reach unwrap gcm_open ord validate (start_process lg svc g) p"
    and "pr_stage p \<noteq> Serving" "\<forall>code. pr_stage p = Exited code \<longrightarrow> code = 0"
  shows "\<exists>n p'. n \<le> remaining p \<and> (process_step unwrap gcm_open ord validate ^^ n) p p' \<and> pr_stage p' = Exited 0 \<and>
    same_history p p' \<and> process_reach unwrap gcm_open ord validate (start_process lg svc g) p'"
  using assms(6-8)
proof (induction "remaining p" arbitrary: p rule: less_induct)
  case less
  show ?case
  proof (cases "alive (pr_stage p)")
    case False
    then have "pr_stage p = Exited 0" using less.prems(3) by (auto simp: alive_def)
    with less.prems(1) show ?thesis by (intro exI [of _ 0] exI [of _ p]) (simp add: same_history_def)
  next
    case True
    obtain p1 where p1: "process_step unwrap gcm_open ord validate p p1" "remaining p1 < remaining p" "same_history p p1"
      "pr_stage p1 \<noteq> Serving" "\<forall>code. pr_stage p1 = Exited code \<longrightarrow> code = 0"
      using shutdown_progress [OF process_reach_ok [OF start less.prems(1)] True less.prems(2)] unfolding progress_def by blast
    from less.hyps [OF p1(2) process_reach.step [OF less.prems(1) p1(1)] p1(4,5)]
    obtain n p' where n: "n \<le> remaining p1" "(process_step unwrap gcm_open ord validate ^^ n) p1 p'" "pr_stage p' = Exited 0"
      "same_history p1 p'" "process_reach unwrap gcm_open ord validate (start_process lg svc g) p'" by blast
    have "(process_step unwrap gcm_open ord validate ^^ Suc n) p p'" using relpowp_Suc_I2 [OF p1(1) n(2)] .
    with n p1(2,3) show ?thesis by (intro exI [of _ "Suc n"] exI [of _ p']) (auto simp: same_history_def)
  qed
qed

subsection \<open>What is closed stays idle\<close>

lemma bus_shut_refuses: "bus_shut b \<Longrightarrow> bus_Subscribe_impl b ps = Inl ErrBusClosed"
  by (auto simp: bus_shut_def bus_Subscribe_impl_def Valkey_Subscribe_def Bus_Subscribe_def split: bus_impl.splits)

lemma ended_idle:
  assumes "workers_ended (g_disp (sy_gw s))" "i < length (d_lanes (g_disp (sy_gw s)))"
  shows "work_step unwrap gcm_open ord i s = s"
  using assms
  by (intro work_step_None) (auto simp: workers_ended_def worker_ends_def worker_take_def split: recv_result.splits)

lemma closed_hub_told:
  assumes "hub_reach ord n lm h R" "range_order ord" "n < 2 ^ 32" and "h_closed h" "c \<in> live h R"
  shows "Done (h_heap h c)"
  using hub_reach_inv [OF assms(1-3)] reach_parts(6) [OF assms(1-3), of c] assms(4,5)
  by (auto simp: reach_inv_def client_wf_def Done_def)

lemma main_serves:
  assumes "main_start ho pf e hp args k = Serves k' ws g"
  shows "start_gateway pf e hp = Inr g" "HardenProcess (ho_linux ho) (ho_os ho) k = (k', ws)"
  using assms by (auto simp: main_start_def split: sum.splits if_splits prod.splits)

section \<open>Properties\<close>


text \<open>
  C13. The shutdown ends. From every state after the signal the process can exit with success within twelve steps
  of the main goroutine and the consumer alone: no client has to leave, no worker has to finish, no event has to
  arrive and the key service has not to answer. And no step of any goroutine ever takes the shutdown back.
\<close>

theorem shutdown_completes:
  fixes g :: "'l running"
  assumes "main_start ho pf e hp args k = Serves k' ws g" and "\<And>c. client_wf (hp c)" and "range_order ord"
    and "hb_Shards (cf_Hub (rn_cfg g)) < 2 ^ 32" "hb_EventLanes (cf_Hub (rn_cfg g)) < 2 ^ 32"
    and "process_reach unwrap gcm_open ord validate (start_process lg svc g) p" and "pr_stage p \<noteq> Serving" "alive (pr_stage p)"
  shows "(\<exists>n p'. n \<le> 12 \<and> (process_step unwrap gcm_open ord validate ^^ n) p p' \<and> pr_stage p' = Exited 0 \<and>
      pr_conns p' = pr_conns p \<and> sy_seen (pr_sys p') = sy_seen (pr_sys p) \<and> sy_handled (pr_sys p') = sy_handled (pr_sys p)) \<and>
    (\<forall>p'. process_step unwrap gcm_open ord validate p p' \<longrightarrow>
      stage_no (pr_stage p) \<le> stage_no (pr_stage p') \<or> pr_stage p' = Exited 1)"
proof -
  note start = main_serves(1) [OF assms(1)] assms(2-5)
  have "\<forall>code. pr_stage p = Exited code \<longrightarrow> code = 0" using assms(8) by (simp add: alive_def)
  from shutdown_path [OF start assms(6,7) this]
  obtain n p' where n: "n \<le> remaining p" "(process_step unwrap gcm_open ord validate ^^ n) p p'" "pr_stage p' = Exited 0"
    "same_history p p'" by blast
  moreover have "remaining p \<le> 12" by (simp add: remaining_def le_diff_conv)
  moreover have "stage_no (pr_stage p) \<le> stage_no (pr_stage q) \<or> pr_stage q = Exited 1"
    if "process_step unwrap gcm_open ord validate p q" for q
  proof -
    have "process_ok (rn_cfg g) (rn_unwrapper g) q" using process_reach_ok [OF start process_reach.step [OF assms(6) that]] .
    then have code: "code \<le> 1" if "pr_stage q = Exited code" for code using that by (simp add: process_ok_def Let_def)
    show ?thesis using that
    proof cases
      case main
      then show ?thesis by cases (use code in \<open>auto simp: on_sys_def\<close>)
    next
      case background
      from background(2) show ?thesis by cases (use code in \<open>auto simp: on_sys_def\<close>)
    qed
  qed
  ultimately show ?thesis unfolding same_history_def by (meson le_trans)
qed

text \<open>
  One stream that its client keeps open forces the close: the HTTP server's shutdown cannot end gracefully while it
  lasts, and the hub, whose closing would end it, is closed only after the server.
\<close>

theorem open_stream_forces_the_close:
  assumes "pr_stage p = HTTP_Stopping" "k \<in> set (pr_conns p)" "cn_phase k = Streaming" and "main_step ord p p'"
  shows "pr_forced p' \<and> pr_stage p' = HTTP_Stopped \<and> sy_hub (pr_sys p') = sy_hub (pr_sys p)"
  using assms(4) by cases (use assms(1-3) in auto)

section \<open>Hardening\<close>

text \<open>
  The process is hardened before it reads a secret. Assume of the kernel that a successful \<^verbatim>\<open>prctl\<close> makes the process not
  dumpable, that a successful \<^verbatim>\<open>setrlimit\<close> sets the limit of core files, and that the latter leaves the former alone.
  Then a process that goes on to serve on Linux is not dumpable and writes no core file, except for what it has warned of.
\<close>

theorem process_is_hardened:
  assumes "main_start ho pf e hp args k = Serves k' ws g" and "ho_linux ho"
    and prctl: "\<And>k k1. unix_Prctl (ho_os ho) k PR_SET_DUMPABLE [0, 0, 0, 0] = (k1, True) \<Longrightarrow> \<not> dumpable k1"
    and setrlimit: "\<And>k k1 l. unix_Setrlimit (ho_os ho) k RLIMIT_CORE l = (k1, True) \<Longrightarrow> core_limit k1 = l"
    and keeps: "\<And>k k1 l b. unix_Setrlimit (ho_os ho) k RLIMIT_CORE l = (k1, b) \<Longrightarrow> dumpable k1 = dumpable k"
  shows "(Dumpable_Warning \<in> set ws \<or> \<not> dumpable k') \<and> (Core_Warning \<in> set ws \<or> core_limit k' = \<lparr>lim_Cur = 0, lim_Max = 0\<rparr>)"
proof -
  obtain k1 b1 where 1: "unix_Prctl (ho_os ho) k PR_SET_DUMPABLE [0, 0, 0, 0] = (k1, b1)" by fastforce
  obtain k2 b2 where 2: "unix_Setrlimit (ho_os ho) k1 RLIMIT_CORE \<lparr>lim_Cur = 0, lim_Max = 0\<rparr> = (k2, b2)" by fastforce
  have "k' = k2" "ws = (if b1 then [] else [Dumpable_Warning]) @ (if b2 then [] else [Core_Warning])"
    using main_serves(2) [OF assms(1)] assms(2) 1 2 by (simp_all add: HardenProcess_def)
  then show ?thesis using 1 2 prctl setrlimit keeps [OF 2] by auto
qed

section \<open>A run of the process\<close>

text \<open>A host whose kernel keeps the two settings, and the production gateway of theory \<open>System\<close> on it.\<close>

definition demo_os :: "(bool \<times> rlimit) syscalls" where
  "demo_os = \<lparr>unix_Prctl = (\<lambda>(d, l) op xs. if op = PR_SET_DUMPABLE then ((hd xs \<noteq> 0, l), True) else ((d, l), False)),
     unix_Setrlimit = (\<lambda>(d, _) res l. ((d, l), True))\<rparr>"

definition demo_host :: "(bool \<times> rlimit) host" where
  "demo_host = \<lparr>ho_build = local_build, ho_linux = True, ho_os = demo_os, ho_get = (\<lambda>_. None)\<rparr>"

definition demo_kernel :: "bool \<times> rlimit" where
  "demo_kernel = (True, \<lparr>lim_Cur = 100, lim_Max = 100\<rparr>)"

definition demo_main :: "string list \<Rightarrow> (bool \<times> rlimit, unit) main_result" where
  "demo_main args = main_start demo_host demo_platform prod_env server_heap args demo_kernel"

lemma demo_flags:
  "flag_Parse fl [''--version'', ''x''] = Inr (fl\<lparr>versionFlag := True\<rparr>)" "flag_Parse fl [''-h''] = Inl 0"
  "flag_Parse fl [''-version=no''] = Inl 2" "flag_Parse fl [''-healthcheck=T'', ''-'', ''-version''] = Inr (fl\<lparr>healthcheckFlag := True\<rparr>)"
  by (simp_all add: set_flag_def ParseBool_def)

lemma demo_serves:
  obtains g k ws where "demo_main [] = Serves k ws g" "hb_Shards (cf_Hub (rn_cfg g)) < 2 ^ 32"
    "hb_EventLanes (cf_Hub (rn_cfg g)) < 2 ^ 32"
proof -
  obtain g where g: "(start_gateway demo_platform prod_env server_heap :: startup_error + unit running) = Inr g"
    "hb_Shards (cf_Hub (rn_cfg g)) < 2 ^ 32" "hb_EventLanes (cf_Hub (rn_cfg g)) < 2 ^ 32"
    using sys_started by metis
  obtain k ws where "HardenProcess (ho_linux demo_host) (ho_os demo_host) demo_kernel = (k, ws)" by fastforce
  with g(1) have "demo_main [] = Serves k ws g" by (simp add: demo_main_def main_start_def)
  with that g(2,3) show thesis by blast
qed

abbreviation demo_reach :: "unit running \<Rightarrow> (nat, unit) process \<Rightarrow> bool" where
  "demo_reach g \<equiv> process_reach demo_unwrap demo_gcm (\<lambda>xs. xs) demo_check (start_process (rn_logger g) 0 g)"

lemma demo_signalled: "demo_reach g ((start_process (rn_logger g) 0 g)\<lparr>pr_stage := Signalled\<rparr>)"
  by (rule process_reach.step [OF process_reach.start], rule process_step.main, rule main_step.signal)
    (simp add: start_process_def Let_def)

theorem shutdown_completes_witness:
  "\<exists>g p'. demo_reach g p' \<and> pr_stage p' = Exited 0"
proof -
  obtain g k ws where g: "demo_main [] = Serves k ws g" "hb_Shards (cf_Hub (rn_cfg g)) < 2 ^ 32"
    "hb_EventLanes (cf_Hub (rn_cfg g)) < 2 ^ 32" by (rule demo_serves)
  let ?p = "(start_process (rn_logger g) 0 g)\<lparr>pr_stage := Signalled\<rparr>"
  obtain n p' where n: "(process_step demo_unwrap demo_gcm (\<lambda>xs. xs) demo_check ^^ n) ?p p'" "pr_stage p' = Exited 0"
    using shutdown_completes [OF g(1) [unfolded demo_main_def] server_heap_wf range_order_id g(2,3) demo_signalled]
    by (auto simp: alive_def)
  have "demo_reach g q" if "(process_step demo_unwrap demo_gcm (\<lambda>xs. xs) demo_check ^^ n) ?p q" for n q
    using that by (induction n arbitrary: q) (auto simp: demo_signalled intro: process_reach.step)
  with n show ?thesis by blast
qed


theorem process_is_hardened_witness:
  "\<exists>g k ws. demo_main [] = Serves k ws g \<and> (Dumpable_Warning \<in> set ws \<or> \<not> fst k)"
proof -
  obtain g k ws where g: "demo_main [] = Serves k ws g" by (rule demo_serves)
  have "(Dumpable_Warning \<in> set ws \<or> \<not> fst k) \<and> (Core_Warning \<in> set ws \<or> snd k = \<lparr>lim_Cur = 0, lim_Max = 0\<rparr>)"
    by (rule process_is_hardened [OF g [unfolded demo_main_def]]) (auto simp: demo_host_def demo_os_def)
  with g show ?thesis by blast
qed

end
