(* ===== verification/Bus_System.thy ===== *)
theory Bus_System
  imports System
begin

text \<open>
  The gateway on its event bus: the subscription loop of the Valkey bus (\<^verbatim>\<open>internal/bus/valkey/valkey.go\<close>, theory
  \<open>Valkey_Bus\<close>) and the running gateway (theory \<open>System\<close>) joined by the channel \<^verbatim>\<open>eventsCh\<close> of \<^verbatim>\<open>cmd/server/main.go\<close>. In
  \<open>System\<close> the consumer may take any event; here it takes what the loop has put into the channel, and the loop puts
  what it decodes from the messages of the Valkey server. \<open>li_messages\<close> is the history of these messages.
\<close>

section \<open>Definitions\<close>

record 'u live_gateway =
  li_loop :: valkey_loop
  li_sys :: "'u system"
  li_messages :: "(string \<times> string) list"

definition start_live :: "valkey_bus \<Rightarrow> 'u pipe_state \<Rightarrow> 'l running \<Rightarrow> 'u live_gateway" where
  "start_live b st g = \<lparr>li_loop = start_loop b, li_sys = start_system st g, li_messages = []\<rparr>"

text \<open>
  A round of the consumer: \<^verbatim>\<open>case ev, ok := <-eventsCh\<close> and its body. The Valkey bus never closes the channel, and on an
  empty one the consumer waits.
\<close>

definition take_event :: "client_order \<Rightarrow> 'u live_gateway \<Rightarrow> 'u live_gateway option" where
  "take_event ord v =
     (case try_recv (vb_subCh (vl_bus (li_loop v))) of
        Recv ev ch \<Rightarrow>
          map_option (\<lambda>s. v\<lparr>li_loop := (li_loop v)\<lparr>vl_bus := (vl_bus (li_loop v))\<lparr>vb_subCh := ch\<rparr>,
                                                     vl_taken := vl_taken (li_loop v) @ [ev]\<rparr>, li_sys := s\<rparr>)
            (consume_step ord ev (li_sys v))
      | _ \<Rightarrow> Some v)"

inductive live_step ::
  "(string \<Rightarrow> go_time option) \<Rightarrow> 'u unwrap \<Rightarrow> gcm \<Rightarrow> client_order \<Rightarrow> ticket_check \<Rightarrow> 'u live_gateway \<Rightarrow> 'u live_gateway \<Rightarrow> bool"
  for parse_time :: "string \<Rightarrow> go_time option" and unwrap :: "'u unwrap" and gcm_open :: gcm and ord :: client_order
    and validate :: ticket_check where
  message: "vl_pc (li_loop v) = Receiving \<Longrightarrow>
    live_step parse_time unwrap gcm_open ord validate v
      (v\<lparr>li_loop := on_message parse_time pickDone channel msg (li_loop v), li_messages := li_messages v @ [(channel, msg)]\<rparr>)"
| loop: "valkey_step parse_time (li_loop v) l \<Longrightarrow> vl_got l = vl_got (li_loop v) \<Longrightarrow> vl_taken l = vl_taken (li_loop v) \<Longrightarrow>
    live_step parse_time unwrap gcm_open ord validate v (v\<lparr>li_loop := l\<rparr>)"
| consumer: "take_event ord v = Some v' \<Longrightarrow> live_step parse_time unwrap gcm_open ord validate v v'"
| gateway: "system_step unwrap gcm_open ord validate (li_sys v) s \<Longrightarrow> sy_seen s = sy_seen (li_sys v) \<Longrightarrow>
    live_step parse_time unwrap gcm_open ord validate v (v\<lparr>li_sys := s\<rparr>)"

inductive live_reach ::
  "(string \<Rightarrow> go_time option) \<Rightarrow> 'u unwrap \<Rightarrow> gcm \<Rightarrow> client_order \<Rightarrow> ticket_check \<Rightarrow> 'u live_gateway \<Rightarrow> 'u live_gateway \<Rightarrow> bool"
  for parse_time :: "string \<Rightarrow> go_time option" and unwrap :: "'u unwrap" and gcm_open :: gcm and ord :: client_order
    and validate :: ticket_check and v0 :: "'u live_gateway" where
  start: "live_reach parse_time unwrap gcm_open ord validate v0 v0"
| step: "live_reach parse_time unwrap gcm_open ord validate v0 v \<Longrightarrow> live_step parse_time unwrap gcm_open ord validate v v' \<Longrightarrow>
    live_reach parse_time unwrap gcm_open ord validate v0 v'"

text \<open>The event of a message, if it is one.\<close>

definition message_event :: "(string \<Rightarrow> go_time option) \<Rightarrow> string \<times> string \<Rightarrow> encrypted_event option" where
  "message_event parse_time m = map_option (\<lambda>e. e\<lparr>ev_RawChannel := fst m\<rparr>) (unmarshal_event parse_time (snd m))"

definition message_events :: "(string \<Rightarrow> go_time option) \<Rightarrow> (string \<times> string) list \<Rightarrow> encrypted_event list" where
  "message_events parse_time ms = List.map_filter (message_event parse_time) ms"

section \<open>Lemmas\<close>

text \<open>Both parts run as they do alone, and their histories meet in the channel.\<close>

definition live_ok ::
  "(string \<Rightarrow> go_time option) \<Rightarrow> 'u unwrap \<Rightarrow> gcm \<Rightarrow> client_order \<Rightarrow> ticket_check \<Rightarrow> 'u live_gateway \<Rightarrow> 'u live_gateway \<Rightarrow> bool" where
  "live_ok pt unwrap gcm_open ord validate v0 v \<longleftrightarrow>
     valkey_reach pt (vl_bus (li_loop v0)) (li_loop v) \<and>
     system_reach unwrap gcm_open ord validate (li_sys v0) (li_sys v) \<and>
     vl_taken (li_loop v) = sy_seen (li_sys v) \<and> subseq (vl_got (li_loop v)) (message_events pt (li_messages v))"

lemma message_got:
  "vl_got (on_message pt pick channel msg l) =
     vl_got l @ (if vb_closed (vl_bus l) then [] else message_events pt [(channel, msg)])"
  "vl_taken (on_message pt pick channel msg l) = vl_taken l"
  by (simp_all add: on_message_def message_events_def message_event_def List.map_filter_def Let_def
      split: option.split send_result.split)

lemma message_events_snoc: "message_events pt (ms @ [m]) = message_events pt ms @ message_events pt [m]"
  by (simp add: message_events_def List.map_filter_def)

lemma live_step_ok:
  assumes "live_step pt unwrap g ord validate v v'" and ok: "live_ok pt unwrap g ord validate v0 v"
  shows "live_ok pt unwrap g ord validate v0 v'"
  using assms(1)
proof cases
  case (message channel msg pick)
  have "valkey_reach pt (vl_bus (li_loop v0)) (on_message pt pick channel msg (li_loop v))"
    using ok message(2) by (auto simp: live_ok_def intro: valkey_reach.step valkey_step.message)
  with ok message(1) show ?thesis
    by (auto simp: live_ok_def message_got message_events_snoc intro: list_emb_append_mono subseq_drop_snoc)
next
  case (loop l)
  then show ?thesis using ok by (auto simp: live_ok_def intro: valkey_reach.step)
next
  case consumer
  show ?thesis
  proof (cases "try_recv (vb_subCh (vl_bus (li_loop v)))")
    case (Recv ev ch)
    then obtain s where s: "consume_step ord ev (li_sys v) = Some s" "v' = v\<lparr>li_loop := (li_loop v)\<lparr>vl_bus :=
        (vl_bus (li_loop v))\<lparr>vb_subCh := ch\<rparr>, vl_taken := vl_taken (li_loop v) @ [ev]\<rparr>, li_sys := s\<rparr>"
      using consumer by (auto simp: take_event_def)
    moreover have "valkey_reach pt (vl_bus (li_loop v0)) (li_loop v')"
      using ok valkey_step.consume [OF Recv, of pt] by (auto simp: live_ok_def s(2) intro: valkey_reach.step)
    moreover have "system_reach unwrap g ord validate (li_sys v0) s"
      using ok system_step.consume [OF s(1)] by (auto simp: live_ok_def intro: system_reach.step)
    ultimately show ?thesis using ok consume_ghosts(1) [OF s(1)] by (simp add: live_ok_def)
  qed (use consumer ok in \<open>auto simp: take_event_def\<close>)
next
  case (gateway s)
  then show ?thesis using ok by (auto simp: live_ok_def intro: system_reach.step)
qed

lemma live_reach_ok:
  assumes "live_reach pt unwrap g ord validate (start_live b st r) v"
  shows "live_ok pt unwrap g ord validate (start_live b st r) v"
  using assms
proof induction
  case start
  have "valkey_reach pt b (start_loop b)" by (rule valkey_reach.start)
  then show ?case
    by (simp add: live_ok_def start_live_def start_system_def start_loop_def message_events_def List.map_filter_def system_reach.start)
next
  case (step v v')
  then show ?case by (blast intro: live_step_ok)
qed

text \<open>The channel a gateway subscribes to is empty and open.\<close>

lemma Valkey_NewBus_channel: "Valkey_NewBus tls_ok ok cfg = Inr b \<Longrightarrow> \<exists>n. vb_subCh b = make_chan n"
  by (auto simp: Valkey_NewBus_def Let_def split: if_splits)

lemma init_bus_channel: "init_bus p files cfg = Inr (Valkey_Impl b) \<Longrightarrow> \<exists>n. vb_subCh b = make_chan n"
  by (auto simp: init_bus_def SetOnReconnect_def dest!: Valkey_NewBus_channel split: if_splits sum.splits)

lemma start_channel:
  assumes "start_gateway p e hp = Inr g" "rn_bus g = Valkey_Impl b"
  shows "chan_open (vb_subCh b)" "ch_buf (vb_subCh b) = []"
proof -
  obtain cfg b0 where b0: "bus_Subscribe_impl b0 [vc_ChannelPattern (ec_Valkey (cf_EventBus cfg))] = Inr (rn_bus g)"
    "init_bus p (le_files e) cfg = Inr b0"
    using start_Inr [OF assms(1)] by metis
  then obtain v where "b0 = Valkey_Impl v" "vb_subCh b = vb_subCh v"
    using assms(2) by (cases b0) (auto simp: bus_Subscribe_impl_def Valkey_Subscribe_def split: sum.splits if_splits)
  with b0(2) obtain n where "vb_subCh b = make_chan n" using init_bus_channel by metis
  then show "chan_open (vb_subCh b)" "ch_buf (vb_subCh b) = []" by (simp_all add: chan_open_def chan_wf_def make_chan_def)
qed

lemma on_key_mono: "subseq xs ys \<Longrightarrow> subseq (on_key r key (map f (filter P xs))) (on_key r key (map f (filter P ys)))"
  by (intro subseq_filter subseq_map)

section \<open>Properties\<close>


text \<open>The production gateway of theory \<open>System\<close>, after its bus has handed it one message.\<close>

lemma live_start:
  "case (start_gateway demo_platform prod_env server_heap :: startup_error + unit running) of
     Inr g \<Rightarrow> (case rn_bus g of Valkey_Impl b \<Rightarrow> \<not> vb_closed b \<and> 0 < ch_cap (vb_subCh b) | Memory_Impl _ \<Rightarrow> False)
   | Inl _ \<Rightarrow> False"
  by code_simp

definition live_message :: "unit running \<Rightarrow> valkey_bus \<Rightarrow> nat live_gateway" where
  "live_message g b = (start_live b demo_state g)\<lparr>
     li_loop := on_message (\<lambda>_. None) False ''realtime.a'' ''{}'' (check_step (start_loop b)), li_messages := [(''realtime.a'', ''{}'')]\<rparr>"

lemma empty_message: "unmarshal_event (\<lambda>_. None) ''{}'' = Some zero_event"
  by code_simp

lemma live_message_reach:
  assumes "\<not> vb_closed b"
  shows "live_reach (\<lambda>_. None) demo_unwrap demo_gcm (\<lambda>xs. xs) demo_check (start_live b demo_state g) (live_message g b)"
proof -
  let ?v1 = "(start_live b demo_state g)\<lparr>li_loop := check_step (start_loop b)\<rparr>"
  have "live_step (\<lambda>_. None) demo_unwrap demo_gcm (\<lambda>xs. xs) demo_check (start_live b demo_state g) ?v1"
    using valkey_step.check [of "start_loop b" "\<lambda>_. None"]
    by (intro live_step.loop) (simp_all add: start_live_def start_loop_def check_step_def)
  moreover have "live_step (\<lambda>_. None) demo_unwrap demo_gcm (\<lambda>xs. xs) demo_check ?v1 (live_message g b)"
    using live_step.message [where v = ?v1 and parse_time = "\<lambda>_. None" and pickDone = False and channel = "''realtime.a''" and msg = "''{}''"] assms
    by (simp add: live_message_def start_live_def start_loop_def check_step_def)
  ultimately show ?thesis by (blast intro: live_reach.intros)
qed


end
