(* ===== verification/Hub_Concurrent.thy ===== *)
theory Hub_Concurrent
  imports Hub_Props
begin

text \<open>
  Interleavings inside \<^verbatim>\<open>Hub.Register\<close>. It is not atomic: it takes the quota mutex once, then
  the lock of one shard after the other. \<open>register_admit\<close> is the part up to and including the
  quota, \<open>register_key\<close> one round of the loop; run without interruption they are \<^verbatim>\<open>Register\<close>
  (\<open>Register_sections\<close>). The properties show what other calls in between can lead to.
\<close>

section \<open>Definitions\<close>

definition register_admit :: "hub \<Rightarrow> ref \<Rightarrow> string list \<Rightarrow> hub_error + hub" where
  "register_admit h client routingKeys =
     (if h_closed h then Inl ErrHubClosed
      else if MaxTopicsPerConnection (h_limits h) > 0 \<and>
              int (length routingKeys) > MaxTopicsPerConnection (h_limits h)
      then Inl ErrMaxTopicsExceeded
      else case Acquire (h_quotas h) (cl_TenantID (h_heap h client)) (cl_UserID (h_heap h client)) of
             Inl err \<Rightarrow> Inl err
           | Inr q \<Rightarrow> Inr (h\<lparr>h_quotas := q\<rparr>))"

text \<open>Client 0 of the example hub after its quota was granted, and after its first topic.\<close>

definition race_admitted :: hub where
  "race_admitted = (case register_admit (alloc_client demo_empty 0 demo_client) 0 [''a'', ''b''] of
     Inr h \<Rightarrow> h | Inl _ \<Rightarrow> demo_empty)"

definition race_first :: hub where
  "race_first = register_key race_admitted ''a'' ''c1'' 0"

definition race_gone :: hub where
  "race_gone = fst (InvalidateUser (\<lambda>xs. xs) race_first ''t'' ''u'')"

section \<open>Lemmas\<close>

lemma Register_sections:
  "Hub_Register h c ks = (case register_admit h c ks of
     Inl err \<Rightarrow> Inl err
   | Inr h1 \<Rightarrow> Inr (reg_all register_key h1 ks (cl_ID (h_heap h c)) c))"
  by (simp add: Hub_Register_def register_admit_def split: sum.split)

lemma race_eval:
  "register_admit (alloc_client demo_empty 0 demo_client) 0 [''a'', ''b''] = Inr race_admitted"
  "race_admitted = \<lparr>h_numShards = 2, h_shards = [NewShard, NewShard], h_limits = demo_limits, h_closed = False,
     h_quotas = \<lparr>q_activeConns = 1, q_userCounts = [(''t:u'', 1)], q_tenantCounts = [(''t'', 1)], q_limits = demo_limits\<rparr>,
     h_heartbeat = None, h_onSlow = False, h_onFanout = False, h_slowCalls = 0, h_fanoutCalls = 0,
     h_heap = (\<lambda>_. NewClient [] [] [] [] 1 [] False)(0 := demo_client)\<rparr>"
  by (simp_all add: race_admitted_def register_admit_def alloc_client_def demo_empty_def NewHub_def Let_def
      demo_client_def NewClient_def demo_limits_def NewQuotaTracker_def acquire_eval numeral_2_eq_2)

lemma race_first_eval:
  "race_first = race_admitted\<lparr>h_shards := [\<lparr>sh_topics = [(''a'', [(''c1'', 0)])], sh_clients = [(''c1'', 0)]\<rparr>, NewShard]\<rparr>"
  by (simp add: race_first_def register_key_def getShard_def race_eval(2) ShardIndex_demo Shard_Register_def NewShard_def)

lemma race_gone_eval:
  "race_gone = race_admitted\<lparr>h_shards := [NewShard, NewShard],
     h_quotas := \<lparr>q_activeConns = 0, q_userCounts = [], q_tenantCounts = [], q_limits = demo_limits\<rparr>,
     h_heap := (h_heap race_admitted)(0 := retire demo_client)\<rparr>"
  by (simp add: race_gone_def race_first_eval InvalidateUser_def race_eval(2) invalidate_shard_def
      Shard_InvalidateUser_def upt_conv_Cons NewShard_def user_matches_def demo_client_eval purge_client_def
      MarkUnregistered_def retire_def Release_def decr_count_def userKey_def Let_def gomap_count_def)

section \<open>Properties\<close>


text \<open>
  A shutdown between the check of the closed flag and the shard registrations misses the
  connection: \<^verbatim>\<open>Close\<close> walks the shards before the client is in one, and the client is neither
  closed by it nor refused, so its stream stays open in a closed hub.
\<close>

theorem close_during_register_misses_client:
  "let h = reg_all register_key (Hub_Close (\<lambda>xs. xs) race_admitted) [''a'', ''b''] ''c1'' 0
   in h_closed h \<and> HasSubscribers h ''a'' \<and> \<not> IsClosed (h_heap h 0) \<and> ActiveConnections h = 1"
  by (simp add: Let_def Hub_Close_def race_eval(2) GetAllClients_def NewShard_def close_clients_def
      HasSubscribers_def register_key_def getShard_def ShardIndex_demo Shard_Register_def Shard_HasSubscribers_def
      IsClosed_def demo_client_eval ActiveConnections_def ActiveCount_def)

end
