(* ===== verification/Hub_Spec.thy ===== *)
theory Hub_Spec
  imports Hub_Props
begin

text \<open>
  An abstract specification of the hub, and the refinement to it. The specification (\<open>room\<close>) is the set of the
  connected clients and nothing else: no shards, no hash, no index, no counters. Each operation is defined on this
  set in one line, its answer by comprehension and cardinality. \<open>hub_do\<close> is the same interface on the hub of
  \<^verbatim>\<open>internal/hub\<close>. Every run of the hub, in the way the gateway uses it (a new client is registered under its own
  topics, a client that was registered leaves), is a run of the specification with the same answers.

  The specification leaves open how often one heartbeat tick pings a connection, between once and once for every
  topic: the hub pings it once for every shard that holds one of its topics.
\<close>

section \<open>Definitions\<close>

subsection \<open>The interface\<close>

datatype hub_op =
    Connect ref client
  | Leave ref
  | Broadcast string frame
  | Tick frame
  | Take ref
  | Revoke string string
  | Shut
  | Subscribed string
  | Connections
  | Limits string string int

datatype hub_answer =
    NoAnswer
  | Refused "hub_error option"
  | Number int
  | YesNo bool
  | Taken "frame option"

text \<open>The operations of the hub. A refused client stays allocated, as the object the handler drops.\<close>

definition hub_do :: "client_order \<Rightarrow> hub_op \<Rightarrow> hub \<Rightarrow> hub \<times> hub_answer" where
  "hub_do ord op h =
     (case op of
        Connect c cl \<Rightarrow>
          (case Hub_Register (alloc_client h c cl) c (cl_Topics cl) of
             Inl err \<Rightarrow> (alloc_client h c cl, Refused (Some err))
           | Inr h' \<Rightarrow> (h', Refused None))
      | Leave c \<Rightarrow> (Unregister h (Some c), NoAnswer)
      | Broadcast key f \<Rightarrow>
          (case ConditionalBroadcast ord h () key (\<lambda>_. ((), Inr (Some f) :: build_result)) of
             (h', _, Inr n) \<Rightarrow> (h', Number n) | (h', _, Inl _) \<Rightarrow> (h', NoAnswer))
      | Tick f \<Rightarrow> (BroadcastHeartbeat ord h f, NoAnswer)
      | Take c \<Rightarrow> (drain_one h c, Taken (map_option fst (DequeueFrame (h_heap h c))))
      | Revoke t u \<Rightarrow> (case InvalidateUser ord h t u of (h', n) \<Rightarrow> (h', Number n))
      | Shut \<Rightarrow> (Hub_Close ord h, NoAnswer)
      | Subscribed key \<Rightarrow> (h, YesNo (HasSubscribers h key))
      | Connections \<Rightarrow> (h, Number (ActiveConnections h))
      | Limits t u k \<Rightarrow> (h, Refused (CheckLimits h t u k)))"

subsection \<open>The specification\<close>

record room =
  rm_clients :: "ref \<Rightarrow> client"
  rm_known :: "ref set"
  rm_open :: "ref set"
  rm_closed :: bool
  rm_limits :: limits_config

definition audience :: "room \<Rightarrow> string \<Rightarrow> ref set" where
  "audience r key = {c \<in> rm_open r. key \<in> set (cl_Topics (rm_clients r c))}"

definition over :: "int \<Rightarrow> ref set \<Rightarrow> bool" where
  "over limit S \<longleftrightarrow> 0 < limit \<and> limit \<le> int (card S)"

text \<open>Why the room does not take one more connection of a user.\<close>

definition full :: "room \<Rightarrow> string \<Rightarrow> string \<Rightarrow> hub_error option" where
  "full r t u =
     (let l = rm_limits r
      in if over (MaxConnections l) (rm_open r) then Some (ErrMaxConnectionsReached (MaxConnections l))
         else if u \<noteq> [] \<and> over (MaxConnectionsPerUser l)
                {c \<in> rm_open r. userKey (cl_TenantID (rm_clients r c)) (cl_UserID (rm_clients r c)) = userKey t u}
         then Some (ErrMaxConnectionsPerUserReached (MaxConnectionsPerUser l))
         else if t \<noteq> [] \<and> over (MaxConnectionsPerTenant l) {c \<in> rm_open r. cl_TenantID (rm_clients r c) = t}
         then Some (ErrMaxConnectionsPerTenantReached (MaxConnectionsPerTenant l))
         else None)"

definition room_check :: "room \<Rightarrow> string \<Rightarrow> string \<Rightarrow> int \<Rightarrow> hub_error option" where
  "room_check r t u topics =
     (if rm_closed r then Some ErrHubClosed
      else if 0 < MaxTopicsPerConnection (rm_limits r) \<and> MaxTopicsPerConnection (rm_limits r) < topics
      then Some ErrMaxTopicsExceeded
      else full r t u)"

definition in_room :: "room \<Rightarrow> (ref \<Rightarrow> client \<Rightarrow> client) \<Rightarrow> ref set \<Rightarrow> room" where
  "in_room r f S = r\<lparr>rm_clients := (\<lambda>c. if c \<in> S then f c (rm_clients r c) else rm_clients r c)\<rparr>"

inductive room_step :: "room \<Rightarrow> hub_op \<Rightarrow> hub_answer \<Rightarrow> room \<Rightarrow> bool" where
  connect: "c \<notin> rm_known r \<Longrightarrow>
    room_step r (Connect c cl) (Refused None)
      (r\<lparr>rm_clients := (rm_clients r)(c := cl), rm_known := insert c (rm_known r), rm_open := insert c (rm_open r)\<rparr>)"
    if "room_check r (cl_TenantID cl) (cl_UserID cl) (int (length (cl_Topics cl))) = None"
| refuse: "c \<notin> rm_known r \<Longrightarrow>
    room_step r (Connect c cl) (Refused (Some err)) (r\<lparr>rm_clients := (rm_clients r)(c := cl)\<rparr>)"
    if "room_check r (cl_TenantID cl) (cl_UserID cl) (int (length (cl_Topics cl))) = Some err"
| leave: "room_step r (Leave c) NoAnswer ((in_room r (\<lambda>_. retire) (rm_open r \<inter> {c}))\<lparr>rm_open := rm_open r - {c}\<rparr>)"
| broadcast: "room_step r (Broadcast key f)
    (Number (int (card {c \<in> audience r key. fst (snd (EnqueueFrame (rm_clients r c) f))})))
    (in_room r (\<lambda>_ cl. fst (EnqueueFrame cl f)) (audience r key))"
| tick: "room_step r (Tick f) NoAnswer (in_room r (\<lambda>c cl. fst (enqueue_run cl (replicate (pings c) f))) (rm_open r))"
    if "\<And>c. c \<in> rm_open r \<Longrightarrow> 1 \<le> pings c \<and> pings c \<le> length (cl_Topics (rm_clients r c))"
| take: "room_step r (Take c) (Taken None) r" if "DequeueFrame (rm_clients r c) = None"
| take_one: "room_step r (Take c) (Taken (Some f)) (r\<lparr>rm_clients := (rm_clients r)(c := cl)\<rparr>)"
    if "DequeueFrame (rm_clients r c) = Some (f, cl)"
| revoke: "room_step r (Revoke t u) (Number (int (card S))) ((in_room r (\<lambda>_. retire) S)\<lparr>rm_open := rm_open r - S\<rparr>)"
    if "S = {c \<in> rm_open r. cl_TenantID (rm_clients r c) = t \<and> cl_UserID (rm_clients r c) = u}"
| shut: "room_step r Shut NoAnswer
    ((in_room r (\<lambda>_. Client_Close) (if rm_closed r then {} else rm_open r))\<lparr>rm_closed := True\<rparr>)"
| subscribed: "room_step r (Subscribed key) (YesNo (audience r key \<noteq> {})) r"
| connections: "room_step r Connections (Number (int (card (rm_open r)))) r"
| limits: "room_step r (Limits t u k) (Refused (room_check r t u k)) r"

text \<open>Runs, with the answers given on the way.\<close>

inductive room_run :: "room \<Rightarrow> (hub_op \<times> hub_answer) list \<Rightarrow> room \<Rightarrow> bool" where
  stop: "room_run r [] r"
| go: "room_run r tr r' \<Longrightarrow> room_step r' op ans r'' \<Longrightarrow> room_run r (tr @ [(op, ans)]) r''"

text \<open>How the gateway uses the hub: \<open>R\<close> are the clients that were ever registered.\<close>

definition proper_use :: "hub \<Rightarrow> ref set \<Rightarrow> hub_op \<Rightarrow> bool" where
  "proper_use h R op = (case op of Connect c cl \<Rightarrow> fresh_client h R c cl | Leave c \<Rightarrow> c \<in> R | _ \<Rightarrow> True)"

definition known_after :: "hub_op \<Rightarrow> hub_answer \<Rightarrow> ref set \<Rightarrow> ref set" where
  "known_after op ans R = (case op of Connect c _ \<Rightarrow> if ans = Refused None then insert c R else R | _ \<Rightarrow> R)"

inductive hub_run :: "client_order \<Rightarrow> hub \<Rightarrow> (hub_op \<times> hub_answer) list \<Rightarrow> hub \<Rightarrow> ref set \<Rightarrow> bool"
  for ord :: client_order and h0 :: hub where
  stop: "hub_run ord h0 [] h0 {}"
| go: "hub_run ord h0 tr h R \<Longrightarrow> proper_use h R op \<Longrightarrow> hub_do ord op h = (h', ans) \<Longrightarrow>
    hub_run ord h0 (tr @ [(op, ans)]) h' (known_after op ans R)"

text \<open>The room a hub stands for.\<close>

definition room_of :: "hub \<Rightarrow> ref set \<Rightarrow> room" where
  "room_of h R = \<lparr>rm_clients = h_heap h, rm_known = R, rm_open = live h R, rm_closed = h_closed h, rm_limits = h_limits h\<rparr>"

section \<open>Lemmas\<close>

lemma room_of_simps [simp]:
  "rm_clients (room_of h R) = h_heap h" "rm_known (room_of h R) = R" "rm_open (room_of h R) = live h R"
  "rm_closed (room_of h R) = h_closed h" "rm_limits (room_of h R) = h_limits h"
  by (simp_all add: room_of_def)

lemma audience_of: "audience (room_of h R) key = subscribers h R key"
  by (simp add: audience_def subscribers_def)

text \<open>The counters count the members of the set.\<close>

lemma full_of:
  assumes "hub_inv h (live h R)"
  shows "Check (h_quotas h) t u = full (room_of h R) t u"
proof -
  let ?L = "live h R" and ?M = "live_sessions (h_heap h) (live h R)"
  have q: "quota_rep (h_quotas h) ?M" "q_limits (h_quotas h) = h_limits h" "finite ?L"
    using assms by (simp_all add: hub_inv_def quota_inv_def heap_inv_def)
  note n = quota_rep_counts [OF q(1)] size_sessions [OF q(3), where hp = "h_heap h"]
  have "size ?M = card ?L" using n(4) [of "\<lambda>_. True"] by simp
  then show ?thesis
    by (auto simp: Check_def checkUnderLock_def full_def over_def Let_def n q(2) client_session_def)
qed

lemma CheckLimits_of:
  assumes "hub_inv h (live h R)"
  shows "CheckLimits h t u k = room_check (room_of h R) t u k"
  by (simp add: CheckLimits_def room_check_def full_of [OF assms])

text \<open>A registration is refused for the reason the advisory check gives.\<close>

lemma Register_check:
  "case Hub_Register h c ks of
     Inl err \<Rightarrow> CheckLimits h (cl_TenantID (h_heap h c)) (cl_UserID (h_heap h c)) (int (length ks)) = Some err
   | Inr _ \<Rightarrow> CheckLimits h (cl_TenantID (h_heap h c)) (cl_UserID (h_heap h c)) (int (length ks)) = None"
  by (auto simp: Hub_Register_def CheckLimits_def Check_def Acquire_def split: sum.split option.splits)

lemma alloc_heap: "h_heap (alloc_client h c cl) = (h_heap h)(c := cl)"
  by (simp add: alloc_client_def)

lemma live_admitted:
  assumes "fresh_client h R c cl" "Hub_Register (alloc_client h c cl) c ks = Inr h'"
  shows "live h' (insert c R) = insert c (live h R)" "h_heap h' = (h_heap h)(c := cl)"
  using Register_heap [OF assms(2)] assms(1) by (auto simp: live_def fresh_client_def alloc_client_def)

lemma close_heap:
  assumes "index_inv h (live h R)" "range_order ord" "\<And>c. c \<in> live h R \<Longrightarrow> cl_Topics (h_heap h c) \<noteq> []"
  shows "h_heap (Hub_Close ord h) =
    (\<lambda>c. if c \<in> (if h_closed h then {} else live h R) then Client_Close (h_heap h c) else h_heap h c)"
proof -
  have "c \<in> set (concat (map (GetAllClients ord) (h_shards h))) \<longleftrightarrow> c \<in> live h R" for c
    using heartbeat_count [OF assms(1,2), of c] assms(3) [of c] count_list_0_iff [of "concat (map (GetAllClients ord) (h_shards h))" c]
    by (auto split: if_splits)
  then show ?thesis by (auto simp: fun_eq_iff Hub_Close_heap simp del: set_concat)
qed

lemma pings_bounds:
  assumes "cl_Topics cl \<noteq> []"
  shows "1 \<le> card (getShard h ` set (cl_Topics cl))" "card (getShard h ` set (cl_Topics cl)) \<le> length (cl_Topics cl)"
  using assms card_image_le [of "set (cl_Topics cl)" "getShard h"] card_length [of "cl_Topics cl"]
  by (simp_all add: Suc_le_eq card_gt_0_iff)

section \<open>The simulation\<close>

lemma do_reach:
  assumes "hub_reach ord n lm h R" "proper_use h R op" "hub_do ord op h = (h', ans)"
  shows "hub_reach ord n lm h' (known_after op ans R)"
proof (cases op)
  case (Broadcast key f)
  then have "h' = fst (ConditionalBroadcast ord h () key (\<lambda>_. ((), Inr (Some f) :: build_result)))"
    using assms(3) by (auto simp: hub_do_def split: prod.splits sum.splits)
  with Broadcast assms(1) show ?thesis by (auto simp: known_after_def intro: hub_reach.broadcast)
next
  case (Revoke t u)
  then have "h' = fst (InvalidateUser ord h t u)" using assms(3) by (auto simp: hub_do_def split: prod.splits)
  with Revoke assms(1) show ?thesis by (auto simp: known_after_def intro: hub_reach.invalidated)
qed (use assms in \<open>auto simp: hub_do_def proper_use_def known_after_def split: sum.splits intro: hub_reach.intros\<close>)

text \<open>One lemma for each operation that changes the hub.\<close>

lemma refines_connect:
  assumes inv: "hub_inv h (live h R)" and fresh: "fresh_client h R c cl" and result: "hub_do ord (Connect c cl) h = (h', ans)"
  shows "room_step (room_of h R) (Connect c cl) ans (room_of h' (known_after (Connect c cl) ans R))"
proof -
  have c: "c \<notin> R" "h_heap (alloc_client h c cl) c = cl" using fresh by (auto simp: fresh_client_def alloc_client_def)
  let ?check = "room_check (room_of h R) (cl_TenantID cl) (cl_UserID cl) (int (length (cl_Topics cl)))"
  have check: "CheckLimits (alloc_client h c cl) t u k = room_check (room_of h R) t u k" for t u k
    unfolding CheckLimits_of [OF inv, symmetric] by (simp add: CheckLimits_def alloc_client_def)
  note verdict = Register_check [of "alloc_client h c cl" c "cl_Topics cl", unfolded check c(2)]
  show ?thesis
  proof (cases "Hub_Register (alloc_client h c cl) c (cl_Topics cl)")
    case (Inl err)
    then have "?check = Some err" using verdict by simp
    from room_step.refuse [OF this, of c] show ?thesis
      using Inl result c(1) by (auto simp: hub_do_def known_after_def room_of_def live_alloc alloc_heap)
  next
    case (Inr h1)
    then have "?check = None" using verdict by simp
    from room_step.connect [OF this, of c] show ?thesis
      using Inr result c(1) live_admitted [OF fresh Inr] Register_heap [OF Inr]
      by (auto simp: hub_do_def known_after_def room_of_def)
  qed
qed

lemma refines_leave:
  "c \<in> R \<Longrightarrow> room_step (room_of h R) (Leave c) NoAnswer (room_of (Unregister h (Some c)) R)"
proof -
  assume "c \<in> R"
  then have "room_of (Unregister h (Some c)) R =
      (in_room (room_of h R) (\<lambda>_. retire) (live h R \<inter> {c}))\<lparr>rm_open := live h R - {c}\<rparr>"
    by (auto simp: room_of_def in_room_def live_Unregister Unregister_heap fun_eq_iff live_def)
  with room_step.leave [of "room_of h R" c] show ?thesis by simp
qed

lemma refines_broadcast:
  assumes reach: "hub_reach ord n lm h R" "range_order ord" "n < 2 ^ 32" and result: "hub_do ord (Broadcast key f) h = (h', ans)"
  shows "room_step (room_of h R) (Broadcast key f) ans (room_of h' R)"
proof -
  note fan = fanout_subscribers [OF reach, of key] and inv = reach_parts(1) [OF reach]
  have "ans = Number (int (card {c \<in> subscribers h R key. fst (snd (EnqueueFrame (h_heap h c) f))})) \<and>
      room_of h' R = in_room (room_of h R) (\<lambda>_ cl. fst (EnqueueFrame cl f)) (subscribers h R key)"
  proof (cases "subscribers h R key = {}")
    case True
    with fan(3) result show ?thesis by (auto simp: hub_do_def ConditionalBroadcast_eq in_room_def room_of_def)
  next
    case False
    then have "h' = note_fanout (fst (fanout h (hub_recipients ord h key) f))"
      "ans = Number (snd (fanout h (hub_recipients ord h key) f))"
      using fan(3) result by (auto simp: hub_do_def ConditionalBroadcast_eq)
    then show ?thesis
      using fan(1,2) live_fanout [OF inv] by (simp add: in_room_def cong: if_cong; simp add: room_of_def)
  qed
  with room_step.broadcast [of "room_of h R" key f] show ?thesis by (simp add: audience_of)
qed

lemma refines_tick:
  assumes reach: "hub_reach ord n lm h R" "range_order ord" "n < 2 ^ 32"
  shows "room_step (room_of h R) (Tick f) NoAnswer (room_of (BroadcastHeartbeat ord h f) R)"
proof -
  note inv = reach_parts [OF reach]
  let ?p = "\<lambda>c. card (getShard h ` set (cl_Topics (h_heap h c)))"
  have "room_of (BroadcastHeartbeat ord h f) R =
      in_room (room_of h R) (\<lambda>c cl. fst (enqueue_run cl (replicate (?p c) f))) (live h R)"
    using heartbeat_heap [OF inv(2) reach(2), of f] live_fanout [OF inv(1)]
    by (simp add: room_of_def in_room_def fun_eq_iff) (simp add: BroadcastHeartbeat_eq)
  moreover have "room_step (room_of h R) (Tick f) NoAnswer
      (in_room (room_of h R) (\<lambda>c cl. fst (enqueue_run cl (replicate (?p c) f))) (rm_open (room_of h R)))"
    using inv(7) pings_bounds [of "h_heap h c" h for c] by (intro room_step.tick) simp
  ultimately show ?thesis by simp
qed

lemma refines_take:
  "room_step (room_of h R) (Take c) (Taken (map_option fst (DequeueFrame (h_heap h c)))) (room_of (drain_one h c) R)"
proof (cases "DequeueFrame (h_heap h c)")
  case None
  with room_step.take [of "room_of h R" c] show ?thesis by (simp add: drain_one_def)
next
  case (Some p)
  then obtain f cl where p: "DequeueFrame (h_heap h c) = Some (f, cl)" by (cases p) auto
  have "live (drain_one h c) R = live h R" by (rule drain_one_fields)
  with p room_step.take_one [of "room_of h R" c f cl] show ?thesis by (simp add: drain_one_def room_of_def)
qed

lemma refines_revoke:
  assumes reach: "hub_reach ord n lm h R" "range_order ord" "n < 2 ^ 32" and result: "InvalidateUser ord h t u = (h', m)"
  shows "room_step (room_of h R) (Revoke t u) (Number m) (room_of h' R)"
proof -
  note inv = reach_parts [OF reach]
  let ?S = "{c \<in> live h R. cl_TenantID (h_heap h c) = t \<and> cl_UserID (h_heap h c) = u}"
  have gone: "user_live h (live h R) t u = ?S" using inv(7) by (auto simp: user_live_def user_matches_def)
  have "room_of h' R = (in_room (room_of h R) (\<lambda>_. retire) ?S)\<lparr>rm_open := live h R - ?S\<rparr>" "m = int (card ?S)"
    using InvalidateUser_inv [OF inv(1) reach(2), of t u] live_Invalidate [OF inv(1) reach(2), of t u] result
    by (auto simp: gone room_of_def in_room_def InvalidateUser_eq case_prod_unfold)
  with room_step.revoke [of ?S "room_of h R" t u] show ?thesis by simp
qed

lemma refines_shut:
  assumes reach: "hub_reach ord n lm h R" "range_order ord" "n < 2 ^ 32"
  shows "room_step (room_of h R) Shut NoAnswer (room_of (Hub_Close ord h) R)"
proof -
  note inv = reach_parts [OF reach]
  have "h_closed (Hub_Close ord h)" "h_limits (Hub_Close ord h) = h_limits h" by (simp_all add: Hub_Close_if)
  then have "room_of (Hub_Close ord h) R =
      (in_room (room_of h R) (\<lambda>_. Client_Close) (if h_closed h then {} else live h R))\<lparr>rm_closed := True\<rparr>"
    using close_heap [OF inv(2) reach(2) inv(7)] by (simp add: room_of_def in_room_def live_close fun_eq_iff)
  with room_step.shut [of "room_of h R"] show ?thesis by (simp split del: if_split cong: if_cong)
qed

lemma do_refines:
  assumes reach: "hub_reach ord n lm h R" "range_order ord" "n < 2 ^ 32"
    and use: "proper_use h R op" and result: "hub_do ord op h = (h', ans)"
  shows "room_step (room_of h R) op ans (room_of h' (known_after op ans R))"
proof -
  note inv = reach_parts [OF reach]
  show ?thesis
  proof (cases op)
    case (Connect c cl)
    with use result refines_connect [OF inv(1)] show ?thesis by (simp add: proper_use_def)
  next
    case (Broadcast key f)
    with result refines_broadcast [OF reach] show ?thesis by (simp add: known_after_def)
  next
    case (Revoke t u)
    with result refines_revoke [OF reach] show ?thesis by (auto simp: hub_do_def known_after_def split: prod.splits)
  next
    case (Subscribed key)
    have "HasSubscribers h key \<longleftrightarrow> subscribers h R key \<noteq> {}"
      using HasSubscribers_live [OF reach] by simp
    with Subscribed result room_step.subscribed [of "room_of h R" key] show ?thesis
      by (auto simp: hub_do_def known_after_def audience_of)
  next
    case Connections
    with result room_step.connections [of "room_of h R"] ActiveConnections_live [OF inv(1)] show ?thesis
      by (auto simp: hub_do_def known_after_def)
  next
    case (Limits t u k)
    with result room_step.limits [of "room_of h R" t u k] CheckLimits_of [OF inv(1)] show ?thesis
      by (auto simp: hub_do_def known_after_def)
  qed (use use result refines_leave refines_tick [OF reach] refines_take refines_shut [OF reach] in
      \<open>auto simp: hub_do_def known_after_def proper_use_def\<close>)
qed

lemma run_simulates:
  assumes "hub_run ord (NewHub hp n lm) tr h R" "range_order ord" "n < 2 ^ 32" "\<And>c. client_wf (hp c)"
  shows "hub_reach ord n lm h R \<and> room_run (room_of (NewHub hp n lm) {}) tr (room_of h R)"
  using assms(1)
proof induction
  case stop
  show ?case using assms(4) by (auto intro: hub_reach.start room_run.stop)
next
  case (go tr h R op h' ans)
  then show ?case using do_reach do_refines [OF _ assms(2,3)] room_run.go by blast
qed

section \<open>The hub refines its specification\<close>

text \<open>
  C11. The sharded hub is a set of connections. Every sequence of operations on a new hub, with whatever number of
  shards, limits and map order, gives the answers that the specification may give from the empty room, and leaves
  the clients as the specification does: who is connected, what waits in each queue, who was told to end, why a
  connection is refused, and every count.
\<close>

theorem hub_refines_room:
  assumes "hub_run ord (NewHub hp n lm) tr h R" "range_order ord" "n < 2 ^ 32" "\<And>c. client_wf (hp c)"
  shows "room_run \<lparr>rm_clients = hp, rm_known = {}, rm_open = {}, rm_closed = False, rm_limits = lm\<rparr> tr (room_of h R)"
  using run_simulates [OF assms] by (simp add: room_of_def live_def NewHub_def Let_def)

text \<open>A run: a connection is admitted, an event reaches it, a second one finds the limit reached.\<close>

definition demo_trace :: "(hub_op \<times> hub_answer) list" where
  "demo_trace = [(Connect 0 demo_client, Refused None), (Broadcast ''b'' \<lparr>Data = ''m''\<rparr>, Number 1), (Connections, Number 1),
     (Limits ''t'' ''v'' 1, Refused (Some (ErrMaxConnectionsReached 1)))]"

definition demo_at :: "nat \<Rightarrow> hub" where
  "demo_at k = foldl (\<lambda>h (op, _). fst (hub_do (\<lambda>xs. xs) op h)) demo_empty (take k demo_trace)"

lemma demo_answers: "map (\<lambda>k. snd (hub_do (\<lambda>xs. xs) (fst (demo_trace ! k)) (demo_at k))) [0, 1, 2, 3] = map snd demo_trace"
  by code_simp

lemma demo_go:
  assumes "hub_run (\<lambda>xs. xs) demo_empty (take k demo_trace) (demo_at k) R" "k < 4"
    "proper_use (demo_at k) R (fst (demo_trace ! k))"
  shows "hub_run (\<lambda>xs. xs) demo_empty (take (Suc k) demo_trace) (demo_at (Suc k))
    (known_after (fst (demo_trace ! k)) (snd (demo_trace ! k)) R)"
proof -
  let ?op = "fst (demo_trace ! k)"
  have len: "length demo_trace = 4" by (simp add: demo_trace_def)
  then have "demo_at (Suc k) = fst (hub_do (\<lambda>xs. xs) ?op (demo_at k))"
    using assms(2) by (simp add: demo_at_def take_Suc_conv_app_nth case_prod_unfold)
  moreover have "snd (hub_do (\<lambda>xs. xs) ?op (demo_at k)) = snd (demo_trace ! k)"
    using demo_answers assms(2) by (auto simp: demo_trace_def less_Suc_eq numeral_eq_Suc)
  ultimately have "hub_do (\<lambda>xs. xs) ?op (demo_at k) = (demo_at (Suc k), snd (demo_trace ! k))"
    by (metis surjective_pairing)
  from hub_run.go [OF assms(1,3) this] show ?thesis
    using assms(2) len by (simp add: take_Suc_conv_app_nth)
qed

lemma demo_run: "hub_run (\<lambda>xs. xs) demo_empty demo_trace (demo_at 4) {0}"
proof -
  have fresh: "fresh_client demo_empty {} 0 demo_client"
    by (simp add: fresh_client_def demo_client_def NewClient_wf) (simp add: NewClient_def)
  have "hub_run (\<lambda>xs. xs) demo_empty (take 0 demo_trace) (demo_at 0) {}" by (simp add: demo_at_def hub_run.stop)
  from demo_go [OF this] fresh have "hub_run (\<lambda>xs. xs) demo_empty (take 1 demo_trace) (demo_at 1) {0}"
    by (simp add: demo_trace_def proper_use_def known_after_def demo_at_def)
  from demo_go [OF this] have "hub_run (\<lambda>xs. xs) demo_empty (take 2 demo_trace) (demo_at 2) {0}"
    by (simp add: demo_trace_def proper_use_def known_after_def numeral_2_eq_2)
  from demo_go [OF this] have "hub_run (\<lambda>xs. xs) demo_empty (take 3 demo_trace) (demo_at 3) {0}"
    by (simp add: demo_trace_def proper_use_def known_after_def numeral_eq_Suc)
  from demo_go [OF this] show ?thesis
    by (simp add: demo_trace_def proper_use_def known_after_def numeral_eq_Suc)
qed

theorem hub_refines_room_witness:
  "\<exists>r. room_run \<lparr>rm_clients = (\<lambda>_. NewClient [] [] [] [] 1 [] False), rm_known = {}, rm_open = {}, rm_closed = False,
     rm_limits = demo_limits\<rparr> demo_trace r"
  using hub_refines_room [OF demo_run [unfolded demo_empty_def] range_order_id demo_shards NewClient_wf] by blast

end
