(* ===== verification/Unwrap_Memory.thy ===== *)
theory Unwrap_Memory
  imports Unwrap_Client
begin

text \<open>
  The buffers of the HTTP key adapter. \<open>Unwrap_Client\<close> models what the adapter returns; here its operations
  (\<^verbatim>\<open>internal/crypto/httpclient/client.go\<close>) run on the memory of the process, so that the buffers in which a key
  arrives, and their erasure, are visible: the slice \<^verbatim>\<open>io.ReadAll\<close> fills in binary mode, and in JSON mode the
  string of the decoded answer and the slice Base64 decodes it to. \<open>DecryptAndBuildFrame_mem\<close> is the pipeline's
  callback (\<^verbatim>\<open>internal/pipeline/processor.go\<close>) over such an adapter. The buffers inside the HTTP and JSON packages
  and what is left of a failed Base64 decoding are not tracked.
\<close>

section \<open>Definitions\<close>

type_synonym 'u unwrap_mem = "'u \<times> memory \<Rightarrow> wrapped_key_envelope \<Rightarrow> ('u \<times> memory) \<times> (crypto_error + nat)"

text \<open>\<^verbatim>\<open>len(rawDEK) != dekSize\<close>: the slice is erased before it is dropped.\<close>

definition check_size :: "memory \<Rightarrow> nat \<Rightarrow> memory \<times> (crypto_error + nat)" where
  "check_size m rawDEK =
     (if length (m ! rawDEK) \<noteq> dekSize then (Zeroize m rawDEK, Inl (ErrUnwrapFailed ''size'')) else (m, Inr rawDEK))"

definition unwrapBinary_mem :: "(string \<Rightarrow> bool) \<Rightarrow> 'u transport \<Rightarrow> unwrap_client \<Rightarrow> 'u unwrap_mem" where
  "unwrapBinary_mem url_ok send c s envelope =
     (case encodeBinaryEnvelope envelope of
        Inl err \<Rightarrow> (s, Inl err)
      | Inr body \<Rightarrow>
          if \<not> url_ok (uc_unwrapURL c) then (s, Inl ErrRequest)
          else
            (let httpReq = applyAuth (uc_cfg c)
                   \<lparr>rq_method = ''POST'', rq_url = uc_unwrapURL c,
                    rq_headers = [(''Content-Type'', contentTypeBinary), (''Accept'', contentTypeBinary)],
                    rq_body = body\<rparr>
             in case send (fst s) httpReq of
                  (svc', None) \<Rightarrow> ((svc', snd s), Inl ErrCryptoServiceUnavailable)
                | (svc', Some resp) \<Rightarrow>
                    if rs_code resp \<noteq> 200 then ((svc', snd s), Inl (ErrUnwrapFailed (error_message resp)))
                    else
                      (let (m1, rawDEK) = alloc_buf (snd s) (take (dekSize + 1) (rs_body resp))
                       in if rs_readErr resp then ((svc', m1), Inl (ErrUnwrapFailed ''read''))
                          else case check_size m1 rawDEK of (m2, res) \<Rightarrow> ((svc', m2), res))))"

definition unwrapJSON_mem :: "(string \<Rightarrow> bool) \<Rightarrow> 'u transport \<Rightarrow> unwrap_client \<Rightarrow> 'u unwrap_mem" where
  "unwrapJSON_mem url_ok send c s envelope =
     (if \<not> url_ok (uc_unwrapURL c) then (s, Inl ErrRequest)
      else
        (let httpReq = applyAuth (uc_cfg c)
               \<lparr>rq_method = ''POST'', rq_url = uc_unwrapURL c,
                rq_headers = [(''Content-Type'', contentTypeJSON), (''Accept'', ''application/json'')],
                rq_body = unwrap_request envelope\<rparr>
         in case send (fst s) httpReq of
              (svc', None) \<Rightarrow> ((svc', snd s), Inl ErrCryptoServiceUnavailable)
            | (svc', Some resp) \<Rightarrow>
                if rs_code resp \<noteq> 200 then ((svc', snd s), Inl (ErrUnwrapFailed (error_message resp)))
                else case decode_response (rs_body resp) of
                  (False, _) \<Rightarrow> ((svc', snd s), Inl ErrDecodeResponse)
                | (True, unwrapResp) \<Rightarrow>
                    (let (m1, _) = alloc_buf (snd s) (ur_PlaintextKey unwrapResp)
                     in if ur_Error unwrapResp \<noteq> [] then ((svc', m1), Inl (ErrUnwrapFailed (ur_Error unwrapResp)))
                        else if ur_PlaintextKey unwrapResp = [] then ((svc', m1), Inl (ErrUnwrapFailed ''no key''))
                        else case base64_DecodeString (ur_PlaintextKey unwrapResp) of
                          None \<Rightarrow> ((svc', m1), Inl (ErrBadBase64 ''plaintext_key''))
                        | Some bytes \<Rightarrow>
                            (let (m2, rawDEK) = alloc_buf m1 bytes
                             in case check_size m2 rawDEK of (m3, res) \<Rightarrow> ((svc', m3), res)))))"

definition Client_Unwrap_mem :: "(string \<Rightarrow> bool) \<Rightarrow> 'u transport \<Rightarrow> unwrap_client \<Rightarrow> 'u unwrap_mem" where
  "Client_Unwrap_mem url_ok send c s envelope =
     (if we_EncapsulatedKey envelope = [] \<or> we_WrappedKey envelope = [] then (s, Inl (ErrInvalidEnvelope ''missing''))
      else if cc_BinaryMode (uc_cfg c) then unwrapBinary_mem url_ok send c s envelope
      else unwrapJSON_mem url_ok send c s envelope)"

definition DecryptAndBuildFrame_mem ::
  "'u unwrap_mem \<Rightarrow> gcm \<Rightarrow> crypto_cfg \<Rightarrow> encrypted_event \<Rightarrow> 'u pipe_state \<Rightarrow>
    'u pipe_state \<times> (crypto_error + frame option)" where
  "DecryptAndBuildFrame_mem unwrap gcm_open cfg ev st =
     (if ep_PayloadNonce (ev_Crypto ev) = [] then (inc_decrypt_errors st, Inl ErrMissingPayloadNonce)
      else case unwrap (pi_svc st, pi_mem st) (ToEnvelope ev) of
        ((svc, m1), Inl err) \<Rightarrow> (inc_decrypt_errors (st\<lparr>pi_svc := svc, pi_mem := m1\<rparr>), Inl err)
      | ((svc, m1), Inr dek) \<Rightarrow>
          (let (m2, res) = DecryptPayload gcm_open m1 dek (ep_PayloadNonce (ev_Crypto ev))
                             (ep_Ciphertext (ev_Crypto ev)) (event_aad cfg ev) (max_payload cfg);
               st1 = st\<lparr>pi_svc := svc, pi_mem := Zeroize m2 dek\<rparr>
           in case res of
                Inl err \<Rightarrow> (inc_decrypt_errors st1, Inl err)
              | Inr plaintext \<Rightarrow>
                  (case marshal_payload (event_payload ev (m2 ! plaintext)) of
                     None \<Rightarrow> (inc_decrypted st1, Inl ErrMarshal)
                   | Some json \<Rightarrow>
                       (inc_decrypted st1, Inr (Some (NewDataFrame (ev_Type ev) (ev_EventID ev) json))))))"

section \<open>The adapter\<close>

lemma Zeroize_last: "Zeroize (m @ [b]) (length m) = m @ [replicate (length b) (CHR 0x00)]"
  by (simp add: Zeroize_def)

text \<open>What binary mode does to the memory: nothing, one buffer of zeros, one with what a failed read left, or the key.\<close>

lemma binary_memory:
  assumes "cc_BinaryMode (uc_cfg c)"
  shows "case Client_Unwrap_mem url_ok send c (svc, m) env of ((svc', m'), res) \<Rightarrow>
    (case res of
       Inr dek \<Rightarrow> Client_Unwrap url_ok send c svc env = (svc', Inr (m' ! dek)) \<and> dek = length m \<and> m' = m @ [m' ! dek]
     | Inl err \<Rightarrow> Client_Unwrap url_ok send c svc env = (svc', Inl err) \<and>
         (m' = m \<or> (\<exists>n. m' = m @ [replicate n (CHR 0x00)]) \<or> (\<exists>b. err = ErrUnwrapFailed ''read'' \<and> m' = m @ [b])))"
  using assms
  by (auto simp: Client_Unwrap_mem_def Client_Unwrap_def unwrapBinary_mem_def unwrapBinary_def check_size_def alloc_buf_def
      Zeroize_last Let_def split: sum.split prod.split option.split)

section \<open>Over the callback\<close>

text \<open>
  Over the adapter in binary mode, the callback does what \<open>DecryptAndBuildFrame\<close> does, up to a
  buffer that a refused answer has left.
\<close>

lemma DecryptAndBuildFrame_mem_sim:
  assumes "cc_BinaryMode (uc_cfg c)"
    and "DecryptAndBuildFrame_mem (Client_Unwrap_mem url_ok send c) g cfg ev st = (st', res)"
    and "DecryptAndBuildFrame (Client_Unwrap url_ok send c) g cfg ev st = (st0, res0)"
  shows "res = res0 \<and> pi_svc st' = pi_svc st0 \<and> pi_metrics st' = pi_metrics st0 \<and>
    (pi_mem st' = pi_mem st0 \<or> (\<exists>err. res = Inl err \<and> pi_mem st0 = pi_mem st \<and>
      ((\<exists>n. pi_mem st' = pi_mem st @ [replicate n (CHR 0x00)]) \<or>
       (\<exists>b. err = ErrUnwrapFailed ''read'' \<and> pi_mem st' = pi_mem st @ [b]))))"
proof (cases "ep_PayloadNonce (ev_Crypto ev) = []")
  case True
  then show ?thesis using assms(2,3) by (auto simp: DecryptAndBuildFrame_mem_def DecryptAndBuildFrame_def)
next
  case False
  obtain svc m1 r where u: "Client_Unwrap_mem url_ok send c (pi_svc st, pi_mem st) (ToEnvelope ev) = ((svc, m1), r)"
    by (metis prod.exhaust)
  note mem = binary_memory [OF assms(1), where url_ok = url_ok and send = send and svc = "pi_svc st" and
    m = "pi_mem st" and env = "ToEnvelope ev", unfolded u]
  show ?thesis
  proof (cases r)
    case (Inl err)
    then show ?thesis using assms(2,3) False u mem
      by (auto simp: DecryptAndBuildFrame_mem_def DecryptAndBuildFrame_def inc_decrypt_errors_def on_metrics_def split: option.split)
  next
    case (Inr dek)
    have m: "Client_Unwrap url_ok send c (pi_svc st) (ToEnvelope ev) = (svc, Inr (m1 ! dek))"
      "dek = length (pi_mem st)" "m1 = pi_mem st @ [m1 ! dek]"
      using mem [unfolded Inr, unfolded prod.case sum.case] by blast+
    have "alloc_buf (pi_mem st) (m1 ! dek) = (m1, dek)"
      unfolding alloc_buf_def m(3) [symmetric] by (simp add: m(2))
    then have "(st', res) = (st0, res0)" using assms(2,3) False u Inr m(1)
      by (simp add: DecryptAndBuildFrame_mem_def DecryptAndBuildFrame_def)
    then show ?thesis by simp
  qed
qed

section \<open>Properties\<close>

text \<open>
  C14. In binary mode the key leaves no trace, over the whole way from the HTTP answer to the
  frame: the callback run on the adapter's own buffers answers, counts and leaves the service
  exactly as the callback over the adapter's results does; the buffers that existed before are
  untouched; and every buffer the call filled is all zeros at the end, except the plaintext
  of an event that was decrypted (never the first of the buffers, which held the key) and what
  a read that failed in the middle of the answer had already received.
\<close>

theorem key_leaves_no_trace:
  assumes "cc_BinaryMode (uc_cfg c)"
    and "DecryptAndBuildFrame_mem (Client_Unwrap_mem url_ok send c) gcm_open cfg ev st = (st', res)"
    and "DecryptAndBuildFrame (Client_Unwrap url_ok send c) gcm_open cfg ev st = (st0, res0)"
  shows "res = res0 \<and> pi_svc st' = pi_svc st0 \<and> pi_metrics st' = pi_metrics st0 \<and>
    (\<forall>b < length (pi_mem st). pi_mem st' ! b = pi_mem st ! b) \<and>
    (\<forall>b. length (pi_mem st) \<le> b \<and> b < length (pi_mem st') \<longrightarrow>
      zeroed (pi_mem st') b \<or> res = Inl (ErrUnwrapFailed ''read'') \<or>
      (b \<noteq> length (pi_mem st) \<and> (res = Inl ErrMarshal \<or> (\<exists>f. res = Inr f))))"
proof -
  let ?n = "length (pi_mem st)"
  note sim = DecryptAndBuildFrame_mem_sim [OF assms]
  have kept: "(\<forall>b < ?n. pi_mem st0 ! b = pi_mem st ! b) \<and>
    (?n < length (pi_mem st0) \<longrightarrow> zeroed (pi_mem st0) ?n) \<and>
    (\<forall>err. res0 = Inl err \<longrightarrow> err = ErrMarshal \<or> (\<forall>b. ?n \<le> b \<and> b < length (pi_mem st0) \<longrightarrow> zeroed (pi_mem st0) b))"
    using DecryptAndBuildFrame_memory [where unwrap = "Client_Unwrap url_ok send c" and gcm_open = gcm_open and
      cfg = cfg and ev = ev and st = st] assms(3) by simp
  show ?thesis
  proof (cases "pi_mem st' = pi_mem st0")
    case True
    then show ?thesis using sim kept by (cases res) (auto simp: le_less)
  next
    case False
    then show ?thesis using sim by (auto simp: zeroed_def nth_append list_all_iff)
  qed
qed

text \<open>The event of \<open>demo_event\<close> with an envelope that the adapter sends, decrypted over the demo service.\<close>

definition enveloped_event :: encrypted_event where
  "enveloped_event = demo_event\<lparr>ev_Crypto := (ev_Crypto demo_event)\<lparr>ep_SuiteID := we_SuiteID demo_env,
     ep_EncapsulatedKey := we_EncapsulatedKey demo_env, ep_Nonce := we_Nonce demo_env, ep_WrappedKey := we_WrappedKey demo_env\<rparr>\<rparr>"

lemma enveloped_envelope: "ToEnvelope enveloped_event = demo_env"
  by (simp add: ToEnvelope_def enveloped_event_def demo_env_def demo_event_def zero_event_def del: base64_EncodeToString.simps)

lemma enveloped_frame:
  "\<exists>st'. DecryptAndBuildFrame (Client_Unwrap (\<lambda>_. True) demo_send demo_uc) demo_gcm demo_cfg enveloped_event demo_state =
     (st', Inr (Some (NewDataFrame ''msg'' ''e1'' demo_json)))"
proof -
  have nonce: "demo_nonce \<noteq> []" by (simp add: demo_nonce_def)
  have ev: "ep_PayloadNonce (ev_Crypto enveloped_event) = demo_nonce" "ep_Ciphertext (ev_Crypto enveloped_event) = demo_cipher"
    "ev_Type enveloped_event = ''msg''" "ev_EventID enveloped_event = ''e1''"
    "event_payload enveloped_event = event_payload demo_event"
    by (simp_all add: enveloped_event_def demo_event_def event_payload_def fun_eq_iff)
  have "DecryptPayload demo_gcm [replicate 32 (CHR ''k'')] 0 demo_nonce demo_cipher aad (max_payload demo_cfg) =
    ([replicate 32 (CHR ''k''), ''{}''], Inr 1)" for aad
    by (simp add: DecryptPayload_def demo_nonce_def demo_cipher_def gcm_nonce_size_def demo_gcm_def alloc_buf_def
        max_payload_def demo_cfg_def)
  then show ?thesis
    by (simp add: DecryptAndBuildFrame_def enveloped_envelope demo_unwraps demo_state_def alloc_buf_def ev nonce demo_marshal)
qed

theorem key_leaves_no_trace_witness:
  "case DecryptAndBuildFrame_mem (Client_Unwrap_mem (\<lambda>_. True) demo_send demo_uc) demo_gcm demo_cfg enveloped_event demo_state of
     (st', res) \<Rightarrow> res = Inr (Some (NewDataFrame ''msg'' ''e1'' demo_json)) \<and> (pi_mem st' = [] \<or> zeroed (pi_mem st') 0)"
proof -
  obtain st' res where r: "DecryptAndBuildFrame_mem (Client_Unwrap_mem (\<lambda>_. True) demo_send demo_uc) demo_gcm demo_cfg
    enveloped_event demo_state = (st', res)" by fastforce
  obtain st0 where "DecryptAndBuildFrame (Client_Unwrap (\<lambda>_. True) demo_send demo_uc) demo_gcm demo_cfg enveloped_event
    demo_state = (st0, Inr (Some (NewDataFrame ''msg'' ''e1'' demo_json)))" using enveloped_frame by blast
  moreover have "cc_BinaryMode (uc_cfg demo_uc)" "pi_mem demo_state = []"
    by (simp_all add: demo_uc_def demo_config_def demo_state_def)
  ultimately show ?thesis using key_leaves_no_trace [OF _ r] unfolding r by fastforce
qed

text \<open>
  In JSON mode the key does leave a trace, as the comment on the configuration of the adapter
  warns: the text that encodes it is an immutable string, which nothing erases.
\<close>

lemma json_mode_leaves_the_key:
  assumes "\<not> cc_BinaryMode (uc_cfg c)" and "Client_Unwrap_mem url_ok send c (svc, m) env = ((svc', m'), Inr dek)"
  shows "length m < dek \<and> m' = m @ [m' ! length m, m' ! dek] \<and> base64_DecodeString (m' ! length m) = Some (m' ! dek)"
  using assms
  by (auto simp: Client_Unwrap_mem_def unwrapJSON_mem_def check_size_def alloc_buf_def nth_append Let_def
      split: sum.splits prod.splits option.splits if_splits bool.splits)

text \<open>
  The exception of binary mode does occur: bytes of a key that arrived before the connection broke are dropped without
  being erased, since the erasure is on the other error path only.
\<close>

lemma broken_read_leaves_bytes:
  assumes "cc_BinaryMode (uc_cfg c)" "encodeBinaryEnvelope env = Inr body" "url_ok (uc_unwrapURL c)"
    and "we_EncapsulatedKey env \<noteq> []" "we_WrappedKey env \<noteq> []"
    and "\<And>req. send svc req = (svc', Some \<lparr>rs_code = 200, rs_status = st, rs_body = key, rs_readErr = True\<rparr>)"
  shows "Client_Unwrap_mem url_ok send c (svc, m) env = ((svc', m @ [take 33 key]), Inl (ErrUnwrapFailed ''read''))"
  using assms by (simp add: Client_Unwrap_mem_def unwrapBinary_mem_def alloc_buf_def dekSize_def Let_def)

end
