(* ===== verification/Go_Json_Object.thy ===== *)
theory Go_Json_Object
  imports Pipeline Go_Json_Decode
begin

text \<open>
  Reading back the objects the gateway and its peers write: an object whose members are texts of strings,
  numbers and objects, separated by commas, is parsed into its members. Shared by the JSON transport of the
  unwrap client and by the events of the bus.
\<close>

section \<open>Members\<close>

definition plain_name :: "string \<Rightarrow> bool" where
  "plain_name n \<longleftrightarrow> list_all (\<lambda>c. is_ascii c \<and> \<not> byte c < 0x20 \<and> c \<noteq> CHR 0x22 \<and> c \<noteq> CHR 0x5C) n"

lemma plain_name_read: "plain_name n \<Longrightarrow> raw_string (n @ CHR 0x22 # s) = Some (n, s)"
  by (induction n) (simp_all add: plain_name_def)

lemma plain_name_unquote: "plain_name n \<Longrightarrow> unquote n = n"
  by (induction n) (simp_all add: plain_name_def)

text \<open>A value text: it parses whole in front of a comma or brace.\<close>

definition reads :: "nat \<Rightarrow> string \<Rightarrow> json \<Rightarrow> bool" where
  "reads d v j \<longleftrightarrow> v \<noteq> [] \<and> \<not> isSpace (hd v) \<and>
     (\<forall>c s. c \<in> set '',}'' \<longrightarrow> parse_value d (v @ c # s) = Some (j, c # s))"

lemma skip_ws_id: "s \<noteq> [] \<Longrightarrow> \<not> isSpace (hd s) \<Longrightarrow> skip_ws s = s"
  by (cases s) (simp_all add: skip_ws_def)

lemma skip_marks [simp]: "skip_ws (CHR '','' # s) = CHR '','' # s" "skip_ws (CHR ''}'' # s) = CHR ''}'' # s"
    "skip_ws (CHR '':'' # s) = CHR '':'' # s" "skip_ws (CHR 0x22 # s) = CHR 0x22 # s" "skip_ws (CHR ''{'' # s) = CHR ''{'' # s"
  by (simp_all add: skip_ws_def isSpace_def)

lemma member_step:
  assumes "plain_name n" "reads d v j"
  shows "parse_members d (field n v @ CHR ''}'' # s) = Some ([(n, j)], s)"
    and "parse_members d (field n v @ CHR '','' # CHR 0x22 # s) =
      map_option (\<lambda>(ms, z). ((n, j) # ms, z)) (parse_members d (CHR 0x22 # s))"
proof -
  have "skip_ws (v @ t) = v @ t" for t using assms(2) by (intro skip_ws_id) (auto simp: reads_def)
  with assms show "parse_members d (field n v @ CHR ''}'' # s) = Some ([(n, j)], s)"
    "parse_members d (field n v @ CHR '','' # CHR 0x22 # s) =
      map_option (\<lambda>(ms, z). ((n, j) # ms, z)) (parse_members d (CHR 0x22 # s))"
    by (simp_all add: parse_members.simps [of d "CHR 0x22 # n @ w" for w] field_def plain_name_read plain_name_unquote
        reads_def)
qed

lemma reads_string: "utf8_Valid s \<Longrightarrow> reads d (json_string s) (JStr s)"
  by (simp add: reads_def json_string_roundtrip) (simp add: json_string_def isSpace_def)

lemma nat_digits_hd: "0 < n \<Longrightarrow> hd (nat_digits n) \<noteq> CHR ''0''"
proof (induction n rule: nat_digits.induct)
  case (1 n)
  show ?case
  proof (cases "n < 10")
    case True
    then show ?thesis using "1.prems" by (simp add: nat_digits.simps [of n] char_eq_iff_of_char)
  next
    case False
    then show ?thesis using "1.IH" by (simp add: nat_digits.simps [of n])
  qed
qed

lemma nat_digits_digits: "list_all is_digit (nat_digits n)"
  using nat_digits_range by (fastforce simp: list_all_iff is_digit_def)

lemma takeWhile_digits: "\<not> is_digit c \<Longrightarrow> takeWhile is_digit (nat_digits n @ c # s) = nat_digits n"
  using nat_digits_digits [of n] by (simp add: takeWhile_append2 list_all_iff)

lemma digits_head:
  assumes "0 < n"
  obtains h t where "nat_digits n = h # t" "is_digit h" "h \<noteq> CHR ''0''" "h \<noteq> CHR ''-''" "h \<noteq> CHR 0x22" "h \<noteq> CHR ''[''"
    "h \<noteq> CHR ''{''" "h \<noteq> CHR ''n''" "h \<noteq> CHR ''t''" "h \<noteq> CHR ''f''" "\<not> isSpace h"
proof -
  obtain h t where ht: "nat_digits n = h # t" by (cases "nat_digits n") simp_all
  have "is_digit h" "h \<noteq> CHR ''0''"
    using nat_digits_digits [of n] nat_digits_hd [OF assms] by (simp_all add: ht)
  with ht show thesis by (intro that [of h t]) (auto simp: is_digit_def isSpace_def)
qed

lemma parse_number_digits:
  assumes "0 < n" "c \<in> set '',}''"
  shows "parse_number (nat_digits n @ c # s) = Some (nat_digits n, c # s)"
    "parse_number (CHR ''-'' # nat_digits n @ c # s) = Some (CHR ''-'' # nat_digits n, c # s)"
proof -
  obtain h t where h: "nat_digits n = h # t" "is_digit h" "h \<noteq> CHR ''0''" "h \<noteq> CHR ''-''" using digits_head [OF assms(1)] .
  have "\<not> is_digit c" using assms(2) by (auto simp: is_digit_def)
  then show "parse_number (nat_digits n @ c # s) = Some (nat_digits n, c # s)"
    "parse_number (CHR ''-'' # nat_digits n @ c # s) = Some (CHR ''-'' # nat_digits n, c # s)"
    using takeWhile_digits [of c n s] assms(2) h by (auto simp: parse_number_def num_part_def Let_def)
qed

lemma reads_number: "0 < n \<Longrightarrow> reads d (nat_digits n) (JNum (nat_digits n))"
proof -
  assume n: "0 < n"
  from digits_head [OF n] show ?thesis
  proof cases
    case (1 h t)
    then show ?thesis
      using parse_number_digits(1) [OF n] by (simp add: reads_def parse_value.simps parse_literal_def)
  qed
qed

lemma reads_int: "i \<noteq> 0 \<Longrightarrow> reads d (strconv_FormatInt i) (JNum (strconv_FormatInt i))"
proof (cases "i < 0")
  case True
  then show ?thesis
    using parse_number_digits(2) [of "nat (- i)"]
    by (simp add: strconv_FormatInt_def reads_def parse_value.simps parse_literal_def isSpace_def)
next
  case False
  then show "i \<noteq> 0 \<Longrightarrow> ?thesis" using reads_number [of "nat i"] by (simp add: strconv_FormatInt_def)
qed

fun members_text :: "(string \<times> string) list \<Rightarrow> string" where
  "members_text [] = []"
| "members_text [(n, v)] = field n v"
| "members_text ((n, v) # m # ms) = field n v @ CHR '','' # members_text (m # ms)"

lemma members_text_hd: "ms \<noteq> [] \<Longrightarrow> \<exists>t. members_text ms = CHR 0x22 # t"
  by (cases ms rule: members_text.cases) (auto simp: field_def)

text \<open>The members of an object: name, text and value.\<close>

lemma parse_members_text:
  assumes "ms \<noteq> []" "\<And>n v j. (n, v, j) \<in> set ms \<Longrightarrow> plain_name n \<and> reads d v j"
  shows "parse_members d (members_text (map (\<lambda>(n, v, j). (n, v)) ms) @ CHR ''}'' # s) = Some (map (\<lambda>(n, v, j). (n, j)) ms, s)"
  using assms
proof (induction ms rule: induct_list012)
  case (2 m)
  then show ?case by (cases m) (simp add: member_step(1))
next
  case (3 m k ms)
  obtain n v j where m: "m = (n, v, j)" by (cases m)
  let ?rest = "members_text (map (\<lambda>(n, v, j). (n, v)) (k # ms))"
  have whole: "members_text (map (\<lambda>(n, v, j). (n, v)) (m # k # ms)) = field n v @ CHR '','' # ?rest"
    by (cases k) (simp add: m)
  obtain t where t: "?rest = CHR 0x22 # t" using members_text_hd [of "map (\<lambda>(n, v, j). (n, v)) (k # ms)"] by auto
  have "parse_members d (?rest @ CHR ''}'' # s) = Some (map (\<lambda>(n, v, j). (n, j)) (k # ms), s)"
    by (rule "3.IH"(2)) (use "3.prems"(2) in auto)
  then show ?case
    using "3.prems"(2) [of n v j] unfolding whole t by (simp add: m member_step(2) [of n d v j] t)
qed simp

lemma parse_object:
  assumes "\<And>n v j. (n, v, j) \<in> set ms \<Longrightarrow> plain_name n \<and> reads (d - 1) v j" "0 < d"
  shows "parse_value d (CHR ''{'' # members_text (map (\<lambda>(n, v, j). (n, v)) ms) @ CHR ''}'' # s) =
    Some (JObj (map (\<lambda>(n, v, j). (n, j)) ms), s)"
proof (cases "ms = []")
  case False
  then obtain t where t: "members_text (map (\<lambda>(n, v, j). (n, v)) ms) = CHR 0x22 # t"
    using members_text_hd [of "map (\<lambda>(n, v, j). (n, v)) ms"] by auto
  show ?thesis
    using parse_members_text [OF False assms(1), of s] assms(2) t by (simp add: parse_value.simps)
qed (use assms(2) in \<open>simp add: parse_value.simps\<close>)

text \<open>An object nested in another.\<close>

lemma reads_object:
  assumes "\<And>n v j. (n, v, j) \<in> set ms \<Longrightarrow> plain_name n \<and> reads (d - 1) v j" "0 < d"
  shows "reads d (CHR ''{'' # members_text (map (\<lambda>(n, v, j). (n, v)) ms) @ ''}'') (JObj (map (\<lambda>(n, v, j). (n, j)) ms))"
  using parse_object [OF assms] by (simp add: reads_def isSpace_def)

lemma json_parse_object:
  assumes "\<And>n v. (n, v) \<in> set ms \<Longrightarrow> plain_name n \<and> reads (maxNestingDepth - 1) v (val n)"
  shows "json_parse (CHR ''{'' # members_text ms @ CHR ''}'' # s) = Some (JObj (map (\<lambda>(n, v). (n, val n)) ms), s)"
proof -
  have "map (\<lambda>(n, v, j). (n, v)) (map (\<lambda>(n, v). (n, v, val n)) ms) = ms"
    "map (\<lambda>(n, v, j). (n, j)) (map (\<lambda>(n, v). (n, v, val n)) ms) = map (\<lambda>(n, v). (n, val n)) ms"
    by (induction ms) auto
  moreover have "plain_name n \<and> reads (maxNestingDepth - 1) v j"
    if "(n, v, j) \<in> set (map (\<lambda>(n, v). (n, v, val n)) ms)" for n v j
    using that assms by auto
  ultimately show ?thesis
    using parse_object [of "map (\<lambda>(n, v). (n, v, val n)) ms" maxNestingDepth s]
    by (simp add: json_parse_def maxNestingDepth_def)
qed

text \<open>A string literal with nothing to escape.\<close>

lemma reads_plain: "plain_name b \<Longrightarrow> reads d (CHR 0x22 # b @ [CHR 0x22]) (JStr b)"
  by (simp add: reads_def isSpace_def parse_value.simps plain_name_read plain_name_unquote)

section \<open>Storing members\<close>

lemma store_members_append:
  "store_members F (a @ b) s =
    (case store_members F a s of (s1, ok1) \<Rightarrow> case store_members F b s1 of (s2, ok2) \<Rightarrow> (s2, ok1 \<and> ok2))"
  by (induction a arbitrary: s) (auto split: prod.splits option.splits)

section \<open>Numbers and encoded bytes\<close>

lemma ParseUint_digits: "n < 2 ^ bits \<Longrightarrow> ParseUint bits (nat_digits n) = Some n"
  by (simp add: ParseUint_def decimal_value_def nat_digits_digits)

lemma ParseInt_digits: "int n < 2 ^ 63 \<Longrightarrow> ParseInt (nat_digits n) = Some (int n)"
proof -
  obtain h t where ht: "nat_digits n = h # t" by (cases "nat_digits n") simp_all
  have "is_digit h" using nat_digits_digits [of n] by (simp add: ht)
  then have "take 1 (nat_digits n) \<noteq> ''-''" "take 1 (nat_digits n) \<noteq> ''+''" by (auto simp: ht is_digit_def)
  then show "int n < 2 ^ 63 \<Longrightarrow> ?thesis"
    by (simp add: ParseInt_def decimal_value_def nat_digits_digits Let_def)
qed

lemma ParseInt_FormatInt: "- (2 ^ 63) \<le> i \<Longrightarrow> i < 2 ^ 63 \<Longrightarrow> ParseInt (strconv_FormatInt i) = Some i"
proof (cases "i < 0")
  case True
  then show "- (2 ^ 63) \<le> i \<Longrightarrow> ?thesis"
    by (simp add: strconv_FormatInt_def ParseInt_def decimal_value_def nat_digits_digits)
next
  case False
  then show "i < 2 ^ 63 \<Longrightarrow> ?thesis" using ParseInt_digits [of "nat i"] by (simp add: strconv_FormatInt_def)
qed

lemma base64_ascii: "list_all is_ascii (base64_EncodeToString s)"
proof -
  have "is_ascii (b64_symbol v)" if "v < 64" for v using that by (auto simp: b64_symbol_def is_ascii_def)
  then show ?thesis
    by (induction s rule: base64_EncodeToString.induct) (simp_all add: Let_def is_ascii_def)
qed

lemma ascii_valid: "list_all is_ascii s \<Longrightarrow> utf8_Valid s"
  by (simp add: utf8_Valid_def runes_all_ascii rune_ok_def list_all_iff)

end
