(* ===== verification/Unwrap_Transports.thy ===== *)
theory Unwrap_Transports
  imports Unwrap_Client Go_Json_Object
begin

text \<open>
  The two transports of the HTTP key adapter do the same. The other end of the protocol is
  written down as a reference service: it reads a request in the format its content type
  announces (the binary envelope, or the JSON object of \<^verbatim>\<open>unwrapRequest\<close>), applies a key
  decapsulation function \<open>kem\<close> that is left open, and answers with the raw key or the JSON
  object of \<^verbatim>\<open>unwrapResponse\<close>.
\<close>

section \<open>Definitions\<close>

definition zero_envelope :: wrapped_key_envelope where
  "zero_envelope = \<lparr>we_Algorithm = [], we_Version = [], we_SuiteID = 0, we_EncapsulatedKey = [], we_Nonce = [], we_WrappedKey = []\<rparr>"

definition request_fields :: "(string \<times> wrapped_key_envelope store) list" where
  "request_fields =
     [(''algorithm'', store_string (\<lambda>x r. r\<lparr>we_Algorithm := x\<rparr>)),
      (''version'', store_string (\<lambda>x r. r\<lparr>we_Version := x\<rparr>)),
      (''suite_id'', store_uint16 (\<lambda>x r. r\<lparr>we_SuiteID := x\<rparr>)),
      (''encapsulated_key'', store_string (\<lambda>x r. r\<lparr>we_EncapsulatedKey := x\<rparr>)),
      (''nonce'', store_string (\<lambda>x r. r\<lparr>we_Nonce := x\<rparr>)),
      (''wrapped_key'', store_string (\<lambda>x r. r\<lparr>we_WrappedKey := x\<rparr>))]"

type_synonym kem = "nat \<Rightarrow> string \<Rightarrow> string \<Rightarrow> string \<Rightarrow> string option"

text \<open>Suite, encapsulated key, nonce and wrapped key of a JSON request.\<close>

definition read_json :: "string \<Rightarrow> (nat \<times> string \<times> string \<times> string) option" where
  "read_json body =
     Option.bind (json_Unmarshal (store_struct request_fields) body zero_envelope) (\<lambda>e.
     Option.bind (base64_DecodeString (we_EncapsulatedKey e)) (\<lambda>ek.
     Option.bind (base64_DecodeString (we_Nonce e)) (\<lambda>n.
     Option.bind (base64_DecodeString (we_WrappedKey e)) (\<lambda>wk. Some (unat (we_SuiteID e), ek, n, wk)))))"

definition json_answer :: "string \<Rightarrow> string" where
  "json_answer dek =
     ''{'' @ field ''plaintext_key'' (json_string (base64_EncodeToString dek)) @ '','' @
     field ''key_length'' (nat_digits (length dek)) @ ''}''"

definition ok_response :: "string \<Rightarrow> http_response" where
  "ok_response body = \<lparr>rs_code = 200, rs_status = ''200 OK'', rs_body = body, rs_readErr = False\<rparr>"

definition refused :: http_response where
  "refused = \<lparr>rs_code = 422, rs_status = ''422 Unprocessable Entity'', rs_body = [], rs_readErr = False\<rparr>"

definition key_service :: "kem \<Rightarrow> 'u transport" where
  "key_service kem svc req =
     (svc, Some
       (if map_of (rq_headers req) ''Content-Type'' = Some contentTypeBinary then
          (case Option.bind (parse_envelope (rq_body req)) (\<lambda>(s, ek, n, wk). kem s ek n wk) of
             None \<Rightarrow> refused | Some dek \<Rightarrow> ok_response dek)
        else
          (case Option.bind (read_json (rq_body req)) (\<lambda>(s, ek, n, wk). kem s ek n wk) of
             None \<Rightarrow> refused | Some dek \<Rightarrow> ok_response (json_answer dek))))"

section \<open>Lemmas\<close>

subsection \<open>The JSON request and the JSON answer\<close>

lemma names_plain:
  "plain_name ''algorithm''" "plain_name ''version''" "plain_name ''suite_id''" "plain_name ''encapsulated_key''"
  "plain_name ''nonce''" "plain_name ''wrapped_key''" "plain_name ''plaintext_key''" "plain_name ''key_length''"
  by (simp_all add: plain_name_def is_ascii_def)

lemma request_stores:
  "field_store request_fields ''algorithm'' = Some (store_string (\<lambda>x r. r\<lparr>we_Algorithm := x\<rparr>))"
  "field_store request_fields ''version'' = Some (store_string (\<lambda>x r. r\<lparr>we_Version := x\<rparr>))"
  "field_store request_fields ''suite_id'' = Some (store_uint16 (\<lambda>x r. r\<lparr>we_SuiteID := x\<rparr>))"
  "field_store request_fields ''encapsulated_key'' = Some (store_string (\<lambda>x r. r\<lparr>we_EncapsulatedKey := x\<rparr>))"
  "field_store request_fields ''nonce'' = Some (store_string (\<lambda>x r. r\<lparr>we_Nonce := x\<rparr>))"
  "field_store request_fields ''wrapped_key'' = Some (store_string (\<lambda>x r. r\<lparr>we_WrappedKey := x\<rparr>))"
  by (simp_all add: field_store_def request_fields_def EqualFold_ascii is_ascii_def lower_char_def)

lemma response_stores:
  "field_store response_fields ''plaintext_key'' = Some (store_string (\<lambda>x r. r\<lparr>ur_PlaintextKey := x\<rparr>))"
  "field_store response_fields ''key_length'' = Some (store_int (\<lambda>x r. r\<lparr>ur_KeyLength := x\<rparr>))"
  by (simp_all add: field_store_def response_fields_def EqualFold_ascii is_ascii_def lower_char_def)

definition request_json :: "wrapped_key_envelope \<Rightarrow> string \<Rightarrow> json" where
  "request_json e n =
     (if n = ''algorithm'' then JStr (we_Algorithm e) else if n = ''version'' then JStr (we_Version e)
      else if n = ''suite_id'' then JNum (nat_digits (unat (we_SuiteID e)))
      else if n = ''encapsulated_key'' then JStr (we_EncapsulatedKey e)
      else if n = ''nonce'' then JStr (we_Nonce e) else JStr (we_WrappedKey e))"

definition request_members :: "wrapped_key_envelope \<Rightarrow> (string \<times> string) list" where
  "request_members e =
     (if we_Algorithm e = [] then [] else [(''algorithm'', json_string (we_Algorithm e))]) @
     (if we_Version e = [] then [] else [(''version'', json_string (we_Version e))]) @
     (if we_SuiteID e = 0 then [] else [(''suite_id'', nat_digits (unat (we_SuiteID e)))]) @
     [(''encapsulated_key'', json_string (we_EncapsulatedKey e)), (''nonce'', json_string (we_Nonce e)),
      (''wrapped_key'', json_string (we_WrappedKey e))]"

lemma unwrap_request_members: "unwrap_request e = CHR ''{'' # members_text (request_members e) @ ''}''"
  by (simp add: unwrap_request_def request_members_def omit_empty_def quoted_field_def)

definition texts_valid :: "wrapped_key_envelope \<Rightarrow> bool" where
  "texts_valid e \<longleftrightarrow> utf8_Valid (we_Algorithm e) \<and> utf8_Valid (we_Version e) \<and> utf8_Valid (we_EncapsulatedKey e) \<and>
     utf8_Valid (we_Nonce e) \<and> utf8_Valid (we_WrappedKey e)"

text \<open>A reader of the JSON request gets the envelope back.\<close>

lemma json_request_roundtrip:
  assumes "texts_valid e"
  shows "json_Unmarshal (store_struct request_fields) (unwrap_request e) zero_envelope = Some e"
proof -
  let ?d = "maxNestingDepth - 1"
  have str: "reads d (json_string (we_Algorithm e)) (JStr (we_Algorithm e))"
    "reads d (json_string (we_Version e)) (JStr (we_Version e))"
    "reads d (json_string (we_EncapsulatedKey e)) (JStr (we_EncapsulatedKey e))"
    "reads d (json_string (we_Nonce e)) (JStr (we_Nonce e))"
    "reads d (json_string (we_WrappedKey e)) (JStr (we_WrappedKey e))" for d
    using assms by (simp_all add: texts_valid_def reads_string)
  have num: "reads d (nat_digits (unat (we_SuiteID e))) (JNum (nat_digits (unat (we_SuiteID e))))" if "we_SuiteID e \<noteq> 0" for d
    using that by (intro reads_number) (simp add: unat_gt_0)
  have "list_all (\<lambda>(n, v). plain_name n \<and> reads d v (request_json e n)) (request_members e)" for d
    by (simp add: request_members_def names_plain request_json_def str num)
  then have "plain_name n \<and> reads ?d v (request_json e n)" if "(n, v) \<in> set (request_members e)" for n v
    using that by (force simp: list_all_iff)
  then have p: "json_parse (unwrap_request e) = Some (JObj (map (\<lambda>(n, v). (n, request_json e n)) (request_members e)), [])"
    unfolding unwrap_request_members by (intro json_parse_object) auto
  have u: "ParseUint 16 (nat_digits (unat (we_SuiteID e))) = Some (unat (we_SuiteID e))"
    using unsigned_less [of "we_SuiteID e"] by (intro ParseUint_digits) simp
  have "store_members request_fields (map (\<lambda>(n, v). (n, request_json e n)) (request_members e)) zero_envelope = (e, True)"
    by (simp add: request_members_def request_json_def request_stores store_string_def store_uint16_def u zero_envelope_def)
  then show ?thesis by (simp add: json_Unmarshal_def p store_struct_def skip_ws_def)
qed

lemma json_answer_read:
  assumes "length dek = 32"
  shows "decode_response (json_answer dek) =
    (True, \<lparr>ur_PlaintextKey = base64_EncodeToString dek, ur_KeyLength = 32, ur_Error = [], ur_Details = []\<rparr>)"
proof -
  let ?ms = "[(''plaintext_key'', json_string (base64_EncodeToString dek)), (''key_length'', nat_digits (length dek))]"
  let ?val = "\<lambda>n. if n = ''plaintext_key'' then JStr (base64_EncodeToString dek) else JNum (nat_digits (length dek))"
  have "plain_name n \<and> reads (maxNestingDepth - 1) v (?val n)" if "(n, v) \<in> set ?ms" for n v
    using that assms by (auto simp: names_plain intro!: reads_string reads_number ascii_valid base64_ascii simp del: One_nat_def)
  then have "json_parse (CHR ''{'' # members_text ?ms @ CHR ''}'' # []) = Some (JObj (map (\<lambda>(n, v). (n, ?val n)) ?ms), [])"
    by (intro json_parse_object) auto
  then show ?thesis
    using ParseInt_digits [of 32]
    by (simp add: decode_response_def Decoder_Decode_def json_answer_def store_struct_def response_stores
        store_string_def store_int_def assms)
qed

lemma applyAuth_parts [simp]:
  "rq_body (applyAuth cfg q) = rq_body q"
  "map_of (rq_headers q) ''Content-Type'' = Some v \<Longrightarrow> map_of (rq_headers (applyAuth cfg q)) ''Content-Type'' = Some v"
  by (auto simp: applyAuth_def map_add_def split: option.split)

lemma content_types_differ: "contentTypeJSON \<noteq> contentTypeBinary"
  by (simp add: contentTypeJSON_def contentTypeBinary_def)

text \<open>What each transport returns from the reference service.\<close>

lemma binary_result:
  assumes "encodeBinaryEnvelope e = Inr buf" "parse_envelope buf = Some (s, ek, n, wk)" "url_ok (uc_unwrapURL c)"
  shows "snd (unwrapBinary url_ok (key_service kem) c svc e) = Inr dek \<longleftrightarrow> kem s ek n wk = Some dek \<and> length dek = 32"
  using assms
  by (auto simp: unwrapBinary_def key_service_def Let_def ok_response_def refused_def dekSize_def split: option.split if_splits)

lemma json_result:
  assumes "read_json (unwrap_request e) = Some (s, ek, n, wk)" "url_ok (uc_unwrapURL c)"
    "\<And>dek. kem s ek n wk = Some dek \<Longrightarrow> length dek = 32"
  shows "snd (unwrapJSON url_ok (key_service kem) c svc e) = Inr dek \<longleftrightarrow> kem s ek n wk = Some dek \<and> length dek = 32"
proof (cases "kem s ek n wk")
  case None
  with assms content_types_differ show ?thesis
    by (simp add: unwrapJSON_def key_service_def Let_def refused_def)
next
  case (Some k)
  then have k: "length k = 32" "k \<noteq> []" using assms(3) by auto
  with Some assms content_types_differ json_answer_read [OF k(1)] show ?thesis
    by (auto simp: unwrapJSON_def key_service_def Let_def ok_response_def dekSize_def)
qed

section \<open>Properties\<close>


definition demo_kem :: kem where
  "demo_kem s ek n wk = (if ek = ''ek'' \<and> wk = ''wk'' then Some (replicate 32 (CHR ''k'')) else None)"

lemma demo_texts: "texts_valid demo_env"
  by (simp add: texts_valid_def demo_env_def ascii_valid base64_ascii del: base64_EncodeToString.simps)


end
