(* ===== verification/Publisher.thy ===== *)
theory Publisher
  imports Unwrap_Client Go_Json_Object Valkey_Bus
begin

text \<open>
  The producer's side of the event format: \<^verbatim>\<open>tests/harness/publisher.go\<close> with
  \<^verbatim>\<open>internal/testutil/crypto.go\<close>, and the JSON encoding of \<^verbatim>\<open>bus.EncryptedEvent\<close>. A publisher asks the key
  service for a data key, encrypts the payload under the additional data of its context, and puts the event as
  JSON on a channel of the bus. Parameters are the transport to the key service (\<open>send\<close>, \<open>url_ok\<close>), AES-GCM
  (\<open>gcm_seal\<close>), the random nonce, the clock, and the outcome of the publication. The data key lives in the
  memory, so that its erasure is visible.
\<close>

section \<open>Definitions\<close>

subsection \<open>Encoding an event\<close>

definition omit_string :: "string \<Rightarrow> string \<Rightarrow> (string \<times> string) list" where
  "omit_string name v = (if v = [] then [] else [(name, json_string v)])"

definition object_text :: "(string \<times> string) list \<Rightarrow> string" where
  "object_text ms = CHR ''{'' # members_text ms @ ''}''"

definition marshal_crypto :: "encrypted_payload \<Rightarrow> string" where
  "marshal_crypto p =
     object_text (omit_string ''algorithm'' (ep_Algorithm p) @ omit_string ''version'' (ep_Version p) @
       (if ep_SuiteID p = 0 then [] else [(''suite_id'', nat_digits (unat (ep_SuiteID p)))]) @
       omit_string ''encapsulated_key'' (ep_EncapsulatedKey p) @ omit_string ''wrapped_key'' (ep_WrappedKey p) @
       omit_string ''nonce'' (ep_Nonce p) @ omit_string ''payload_nonce'' (ep_PayloadNonce p) @
       omit_string ''ciphertext'' (ep_Ciphertext p))"

text \<open>\<^verbatim>\<open>omitempty\<close> has no effect on the two fields of struct type.\<close>

definition marshal_event :: "encrypted_event \<Rightarrow> string option" where
  "marshal_event e =
     map_option (\<lambda>created. object_text
       (omit_string ''schema'' (ev_Schema e) @ omit_string ''event_id'' (ev_EventID e) @
        [(''tenant_id'', json_string (ev_TenantID e))] @ omit_string ''app_id'' (ev_AppID e) @
        omit_string ''topic_id'' (ev_TopicID e) @ [(''type'', json_string (ev_Type e))] @
        omit_string ''entity_id'' (ev_EntityID e) @
        (if ev_Version e = 0 then [] else [(''version'', strconv_FormatInt (ev_Version e))]) @
        omit_string ''origin_user_id'' (ev_OriginUserID e) @ omit_string ''user_id'' (ev_UserID e) @
        [(''created_at'', created), (''crypto'', marshal_crypto (ev_Crypto e))]))
     (json_time (ev_CreatedAt e))"

subsection \<open>The publisher\<close>

type_synonym gcm_sealer = "string \<Rightarrow> string \<Rightarrow> string \<Rightarrow> string \<Rightarrow> string"

definition EncryptPayload :: "gcm_sealer \<Rightarrow> string \<Rightarrow> string \<Rightarrow> string \<Rightarrow> string \<Rightarrow> crypto_error + string" where
  "EncryptPayload gcm_seal dek nonce plaintext aad =
     (if length dek \<noteq> 32 then Inl ErrInvalidKeySize else Inr (gcm_seal dek nonce plaintext aad))"

record data_key =
  dk_Algorithm :: string
  dk_Version :: string
  dk_SuiteID :: "16 word"
  dk_PlaintextKey :: string
  dk_EncapsulatedKey :: string
  dk_Nonce :: string
  dk_WrappedKey :: string

definition zero_data_key :: data_key where
  "zero_data_key = \<lparr>dk_Algorithm = [], dk_Version = [], dk_SuiteID = 0, dk_PlaintextKey = [], dk_EncapsulatedKey = [],
     dk_Nonce = [], dk_WrappedKey = []\<rparr>"

definition data_key_fields :: "(string \<times> data_key store) list" where
  "data_key_fields =
     [(''algorithm'', store_string (\<lambda>x k. k\<lparr>dk_Algorithm := x\<rparr>)),
      (''version'', store_string (\<lambda>x k. k\<lparr>dk_Version := x\<rparr>)),
      (''suite_id'', store_uint16 (\<lambda>x k. k\<lparr>dk_SuiteID := x\<rparr>)),
      (''plaintext_key'', store_string (\<lambda>x k. k\<lparr>dk_PlaintextKey := x\<rparr>)),
      (''encapsulated_key'', store_string (\<lambda>x k. k\<lparr>dk_EncapsulatedKey := x\<rparr>)),
      (''nonce'', store_string (\<lambda>x k. k\<lparr>dk_Nonce := x\<rparr>)),
      (''wrapped_key'', store_string (\<lambda>x k. k\<lparr>dk_WrappedKey := x\<rparr>))]"

record publisher =
  pb_cryptoURL :: string
  pb_channel :: string

record publication =
  pu_TenantID :: string
  pu_AppID :: string
  pu_TopicID :: string
  pu_Type :: string
  pu_EventID :: string
  pu_Version :: int
  pu_Payload :: string
  pu_AAD :: "aad_context option"
  pu_Tamper :: "(encrypted_event \<Rightarrow> encrypted_event) option"

datatype publish_error =
    BadRequest | CallFailed | ReadFailed | BadStatus nat string | Unreadable | BadKeyBase64 | BadKeySize nat
  | NoNonce | EncryptFailed crypto_error | MarshalFailed | PublishFailed

definition NewPublisher :: "bool \<Rightarrow> string \<Rightarrow> string \<Rightarrow> publisher option" where
  "NewPublisher connected cryptoURL channel =
     (if connected then Some \<lparr>pb_cryptoURL = strings_TrimRight cryptoURL ''/'', pb_channel = channel\<rparr> else None)"

definition generateDataKey ::
  "(string \<Rightarrow> bool) \<Rightarrow> 'u transport \<Rightarrow> publisher \<Rightarrow> 'u \<Rightarrow> 'u \<times> (publish_error + data_key \<times> string)" where
  "generateDataKey url_ok send p svc =
     (let url = pb_cryptoURL p @ ''/generate-key'';
          body = ''{'' @ field ''key_length'' ''32'' @ ''}''
      in if \<not> url_ok url then (svc, Inl BadRequest)
         else case send svc \<lparr>rq_method = ''POST'', rq_url = url,
                             rq_headers = [(''Content-Type'', ''application/json'')], rq_body = body\<rparr> of
           (svc', None) \<Rightarrow> (svc', Inl CallFailed)
         | (svc', Some resp) \<Rightarrow>
             (svc',
              if rs_readErr resp then Inl ReadFailed
              else
                (let body = take (2 ^ 20) (rs_body resp)
                 in if rs_code resp \<noteq> 200 then Inl (BadStatus (rs_code resp) (strings_TrimSpace body))
                    else case json_Unmarshal (store_struct data_key_fields) body zero_data_key of
                      None \<Rightarrow> Inl Unreadable
                    | Some dk \<Rightarrow>
                        (case base64_DecodeString (dk_PlaintextKey dk) of
                           None \<Rightarrow> Inl BadKeyBase64
                         | Some dek \<Rightarrow> if length dek \<noteq> 32 then Inl (BadKeySize (length dek)) else Inr (dk, dek)))))"

definition publication_context :: "publication \<Rightarrow> aad_context" where
  "publication_context ev =
     (case pu_AAD ev of
        None \<Rightarrow> \<lparr>ac_TenantID = pu_TenantID ev, ac_AppID = pu_AppID ev, ac_TopicID = pu_TopicID ev,
                 ac_EventID = pu_EventID ev, ac_Version = pu_Version ev\<rparr>
      | Some ctx \<Rightarrow> ctx)"

definition sealed_event :: "go_time \<Rightarrow> publication \<Rightarrow> data_key \<Rightarrow> string \<Rightarrow> string \<Rightarrow> encrypted_event" where
  "sealed_event now ev dk payloadNonce ciphertext =
     \<lparr>ev_Schema = SupportedEventSchema, ev_EventID = pu_EventID ev, ev_TenantID = pu_TenantID ev, ev_AppID = pu_AppID ev,
      ev_TopicID = pu_TopicID ev, ev_Type = pu_Type ev, ev_EntityID = [], ev_Version = pu_Version ev,
      ev_OriginUserID = [], ev_UserID = [], ev_CreatedAt = now,
      ev_Crypto = \<lparr>ep_Algorithm = dk_Algorithm dk, ep_Version = dk_Version dk, ep_SuiteID = dk_SuiteID dk,
        ep_EncapsulatedKey = dk_EncapsulatedKey dk, ep_WrappedKey = dk_WrappedKey dk, ep_Nonce = dk_Nonce dk,
        ep_PayloadNonce = base64_EncodeToString payloadNonce, ep_Ciphertext = base64_EncodeToString ciphertext\<rparr>,
      ev_RawChannel = [], ev_RoutingKey = []\<rparr>"

text \<open>\<open>rand\<close> is what the random source gives for a slice of twelve bytes.\<close>

definition Seal ::
  "(string \<Rightarrow> bool) \<Rightarrow> 'u transport \<Rightarrow> gcm_sealer \<Rightarrow> string option \<Rightarrow> go_time \<Rightarrow> publisher \<Rightarrow> publication \<Rightarrow>
    'u \<times> memory \<Rightarrow> ('u \<times> memory) \<times> (publish_error + encrypted_event)" where
  "Seal url_ok send gcm_seal rand now p ev s =
     (case generateDataKey url_ok send p (fst s) of
        (svc, Inl err) \<Rightarrow> ((svc, snd s), Inl err)
      | (svc, Inr (dk, key)) \<Rightarrow>
          (let (m1, dek) = alloc_buf (snd s) key
           in ((svc, Zeroize m1 dek),
               case rand of
                 None \<Rightarrow> Inl NoNonce
               | Some payloadNonce \<Rightarrow>
                   (case EncryptPayload gcm_seal (m1 ! dek) payloadNonce (pu_Payload ev)
                           (BuildAAD DefaultAADTemplate (publication_context ev)) of
                      Inl err \<Rightarrow> Inl (EncryptFailed err)
                    | Inr ciphertext \<Rightarrow>
                        (let out = sealed_event now ev dk payloadNonce ciphertext
                         in Inr (case pu_Tamper ev of None \<Rightarrow> out | Some tamper \<Rightarrow> tamper out))))))"

text \<open>The result is the event and the message that went out on the channel.\<close>

definition Publish_event ::
  "(string \<Rightarrow> bool) \<Rightarrow> 'u transport \<Rightarrow> gcm_sealer \<Rightarrow> (string \<Rightarrow> string \<Rightarrow> bool) \<Rightarrow> string option \<Rightarrow> go_time \<Rightarrow> publisher \<Rightarrow>
    publication \<Rightarrow> 'u \<times> memory \<Rightarrow> ('u \<times> memory) \<times> (publish_error + encrypted_event \<times> string)" where
  "Publish_event url_ok send gcm_seal put rand now p ev s =
     (case Seal url_ok send gcm_seal rand now p ev s of
        (s1, Inl err) \<Rightarrow> (s1, Inl err)
      | (s1, Inr encrypted) \<Rightarrow>
          (s1, case marshal_event encrypted of
                 None \<Rightarrow> Inl MarshalFailed
               | Some raw \<Rightarrow> if put (pb_channel p) raw then Inr (encrypted, raw) else Inl PublishFailed))"

section \<open>An event survives the bus\<close>

subsection \<open>The members, as texts and as values\<close>

definition omit_value :: "string \<Rightarrow> string \<Rightarrow> (string \<times> string \<times> json) list" where
  "omit_value n v = (if v = [] then [] else [(n, json_string v, JStr v)])"

abbreviation texts :: "(string \<times> string \<times> json) list \<Rightarrow> (string \<times> string) list" where
  "texts ms \<equiv> map (\<lambda>(n, v, j). (n, v)) ms"

abbreviation "values" :: "(string \<times> string \<times> json) list \<Rightarrow> (string \<times> json) list" where
  "values ms \<equiv> map (\<lambda>(n, v, j). (n, j)) ms"

definition readable :: "nat \<Rightarrow> (string \<times> string \<times> json) list \<Rightarrow> bool" where
  "readable d ms \<longleftrightarrow> list_all (\<lambda>(n, v, j). plain_name n \<and> reads d v j) ms"

lemma readable_simps [simp]:
  "readable d []" "readable d ((n, v, j) # ms) \<longleftrightarrow> plain_name n \<and> reads d v j \<and> readable d ms"
  "readable d (a @ b) \<longleftrightarrow> readable d a \<and> readable d b"
  by (simp_all add: readable_def)

lemma omit_value_texts [simp]: "texts (omit_value n v) = omit_string n v"
  by (simp add: omit_value_def omit_string_def)

lemma omit_value_readable [simp]: "plain_name n \<Longrightarrow> utf8_Valid v \<Longrightarrow> readable d (omit_value n v)"
  by (simp add: omit_value_def reads_string)

text \<open>Storing a field that is left out when it is empty, over a struct where it is empty.\<close>

lemma store_omitted:
  assumes "field_store F n = Some (store_string upd)" "v = [] \<Longrightarrow> upd v s = s"
  shows "store_members F (values (omit_value n v)) s = (upd v s, True)"
  using assms by (simp add: omit_value_def store_string_def)

lemma reads_object_text:
  "readable (d - 1) ms \<Longrightarrow> 0 < d \<Longrightarrow> reads d (object_text (texts ms)) (JObj (values ms))"
  unfolding object_text_def by (rule reads_object) (auto simp: readable_def list_all_iff)

lemma unmarshal_object_text:
  assumes "readable (maxNestingDepth - 1) ms"
  shows "json_Unmarshal (store_struct F) (object_text (texts ms)) s =
    (case store_members F (values ms) s of (s', ok) \<Rightarrow> if ok then Some s' else None)"
proof -
  have "parse_value maxNestingDepth (CHR ''{'' # members_text (texts ms) @ CHR ''}'' # []) = Some (JObj (values ms), [])"
    using assms by (intro parse_object) (auto simp: readable_def list_all_iff maxNestingDepth_def)
  then have "json_parse (object_text (texts ms)) = Some (JObj (values ms), [])"
    by (simp add: json_parse_def object_text_def)
  then show ?thesis by (simp add: json_Unmarshal_def store_struct_def skip_ws_def)
qed

definition crypto_members :: "encrypted_payload \<Rightarrow> (string \<times> string \<times> json) list" where
  "crypto_members p =
     omit_value ''algorithm'' (ep_Algorithm p) @ omit_value ''version'' (ep_Version p) @
     (if ep_SuiteID p = 0 then []
      else [(''suite_id'', nat_digits (unat (ep_SuiteID p)), JNum (nat_digits (unat (ep_SuiteID p))))]) @
     omit_value ''encapsulated_key'' (ep_EncapsulatedKey p) @ omit_value ''wrapped_key'' (ep_WrappedKey p) @
     omit_value ''nonce'' (ep_Nonce p) @ omit_value ''payload_nonce'' (ep_PayloadNonce p) @
     omit_value ''ciphertext'' (ep_Ciphertext p)"

definition event_members :: "string \<Rightarrow> encrypted_event \<Rightarrow> (string \<times> string \<times> json) list" where
  "event_members created e =
     omit_value ''schema'' (ev_Schema e) @ omit_value ''event_id'' (ev_EventID e) @
     [(''tenant_id'', json_string (ev_TenantID e), JStr (ev_TenantID e))] @ omit_value ''app_id'' (ev_AppID e) @
     omit_value ''topic_id'' (ev_TopicID e) @ [(''type'', json_string (ev_Type e), JStr (ev_Type e))] @
     omit_value ''entity_id'' (ev_EntityID e) @
     (if ev_Version e = 0 then []
      else [(''version'', strconv_FormatInt (ev_Version e), JNum (strconv_FormatInt (ev_Version e)))]) @
     omit_value ''origin_user_id'' (ev_OriginUserID e) @ omit_value ''user_id'' (ev_UserID e) @
     [(''created_at'', CHR 0x22 # created @ [CHR 0x22], JStr created),
      (''crypto'', marshal_crypto (ev_Crypto e), JObj (values (crypto_members (ev_Crypto e))))]"

lemma crypto_texts: "marshal_crypto p = object_text (texts (crypto_members p))"
  by (simp add: marshal_crypto_def crypto_members_def)

lemma event_texts:
  "json_time (ev_CreatedAt e) = Some (CHR 0x22 # created @ [CHR 0x22]) \<Longrightarrow>
    marshal_event e = Some (object_text (texts (event_members created e)))"
  by (simp add: marshal_event_def event_members_def)

subsection \<open>Reading them back\<close>

definition payload_valid :: "encrypted_payload \<Rightarrow> bool" where
  "payload_valid p \<longleftrightarrow> list_all utf8_Valid [ep_Algorithm p, ep_Version p, ep_EncapsulatedKey p, ep_WrappedKey p,
     ep_Nonce p, ep_PayloadNonce p, ep_Ciphertext p]"

text \<open>An event whose texts are UTF-8, with a 64-bit version.\<close>

definition event_valid :: "encrypted_event \<Rightarrow> bool" where
  "event_valid e \<longleftrightarrow> list_all utf8_Valid [ev_Schema e, ev_EventID e, ev_TenantID e, ev_AppID e, ev_TopicID e, ev_Type e,
     ev_EntityID e, ev_OriginUserID e, ev_UserID e] \<and> payload_valid (ev_Crypto e) \<and>
     - (2 ^ 63) \<le> ev_Version e \<and> ev_Version e < 2 ^ 63"

text \<open>\<^verbatim>\<open>Time.UnmarshalJSON\<close> reads what \<^verbatim>\<open>Time.MarshalJSON\<close> wrote.\<close>

definition time_roundtrip :: "(string \<Rightarrow> go_time option) \<Rightarrow> go_time \<Rightarrow> bool" where
  "time_roundtrip parse_time t \<longleftrightarrow>
     (case json_time t of None \<Rightarrow> False | Some s \<Rightarrow> parse_time (butlast (tl s)) = Some t)"

lemma event_names:
  "list_all plain_name [''algorithm'', ''version'', ''suite_id'', ''encapsulated_key'', ''wrapped_key'', ''nonce'',
     ''payload_nonce'', ''ciphertext'', ''schema'', ''event_id'', ''tenant_id'', ''app_id'', ''topic_id'', ''type'',
     ''entity_id'', ''origin_user_id'', ''user_id'', ''created_at'', ''crypto'']"
  by (simp add: plain_name_def is_ascii_def)

lemma payload_stores:
  "field_store payload_fields ''algorithm'' = Some (store_string (\<lambda>x p. p\<lparr>ep_Algorithm := x\<rparr>))"
  "field_store payload_fields ''version'' = Some (store_string (\<lambda>x p. p\<lparr>ep_Version := x\<rparr>))"
  "field_store payload_fields ''suite_id'' = Some (store_uint16 (\<lambda>x p. p\<lparr>ep_SuiteID := x\<rparr>))"
  "field_store payload_fields ''encapsulated_key'' = Some (store_string (\<lambda>x p. p\<lparr>ep_EncapsulatedKey := x\<rparr>))"
  "field_store payload_fields ''wrapped_key'' = Some (store_string (\<lambda>x p. p\<lparr>ep_WrappedKey := x\<rparr>))"
  "field_store payload_fields ''nonce'' = Some (store_string (\<lambda>x p. p\<lparr>ep_Nonce := x\<rparr>))"
  "field_store payload_fields ''payload_nonce'' = Some (store_string (\<lambda>x p. p\<lparr>ep_PayloadNonce := x\<rparr>))"
  "field_store payload_fields ''ciphertext'' = Some (store_string (\<lambda>x p. p\<lparr>ep_Ciphertext := x\<rparr>))"
  by (simp_all add: field_store_def payload_fields_def EqualFold_ascii is_ascii_def lower_char_def)

lemma event_stores:
  "field_store (event_fields pt) ''schema'' = Some (store_string (\<lambda>x e. e\<lparr>ev_Schema := x\<rparr>))"
  "field_store (event_fields pt) ''event_id'' = Some (store_string (\<lambda>x e. e\<lparr>ev_EventID := x\<rparr>))"
  "field_store (event_fields pt) ''tenant_id'' = Some (store_string (\<lambda>x e. e\<lparr>ev_TenantID := x\<rparr>))"
  "field_store (event_fields pt) ''app_id'' = Some (store_string (\<lambda>x e. e\<lparr>ev_AppID := x\<rparr>))"
  "field_store (event_fields pt) ''topic_id'' = Some (store_string (\<lambda>x e. e\<lparr>ev_TopicID := x\<rparr>))"
  "field_store (event_fields pt) ''type'' = Some (store_string (\<lambda>x e. e\<lparr>ev_Type := x\<rparr>))"
  "field_store (event_fields pt) ''entity_id'' = Some (store_string (\<lambda>x e. e\<lparr>ev_EntityID := x\<rparr>))"
  "field_store (event_fields pt) ''version'' = Some (store_int (\<lambda>x e. e\<lparr>ev_Version := x\<rparr>))"
  "field_store (event_fields pt) ''origin_user_id'' = Some (store_string (\<lambda>x e. e\<lparr>ev_OriginUserID := x\<rparr>))"
  "field_store (event_fields pt) ''user_id'' = Some (store_string (\<lambda>x e. e\<lparr>ev_UserID := x\<rparr>))"
  "field_store (event_fields pt) ''created_at'' = Some (time_store pt)"
  "field_store (event_fields pt) ''crypto'' =
    Some (store_nested ev_Crypto (\<lambda>p e. e\<lparr>ev_Crypto := p\<rparr>) (store_struct payload_fields))"
  by (simp_all add: field_store_def event_fields_def EqualFold_ascii is_ascii_def lower_char_def)

lemma crypto_readable: "payload_valid p \<Longrightarrow> readable d (crypto_members p)"
  using event_names by (simp add: crypto_members_def payload_valid_def reads_number unat_gt_0)

lemma crypto_stored: "store_members payload_fields (values (crypto_members p)) (ev_Crypto zero_event) = (p, True)"
proof -
  have "ParseUint 16 (nat_digits (unat (ep_SuiteID p))) = Some (unat (ep_SuiteID p))"
    using unsigned_less [of "ep_SuiteID p"] by (intro ParseUint_digits) simp
  then show ?thesis
    by (simp add: crypto_members_def store_members_append payload_stores store_omitted [OF payload_stores(1)] store_omitted [OF payload_stores(2)]
      store_omitted [OF payload_stores(4)] store_omitted [OF payload_stores(5)] store_omitted [OF payload_stores(6)] 
      store_omitted [OF payload_stores(7)] store_omitted [OF payload_stores(8)] store_uint16_def zero_event_def)
qed

lemma plain_append [simp]: "plain_name (a @ b) \<longleftrightarrow> plain_name a \<and> plain_name b"
  by (simp add: plain_name_def)

lemma plain_digits [simp]: "plain_name (nat_digits n)" "plain_name (pad_left w (nat_digits n))"
proof -
  have d: "list_all is_digit (nat_digits n)" "list_all is_digit (pad_left w (nat_digits n))"
    using nat_digits_digits [of n] by (auto simp: pad_left_def list_all_iff is_digit_def)
  have "plain_name s" if "list_all is_digit s" for s
    using that by (auto simp: plain_name_def list_all_iff is_digit_def is_ascii_def)
  with d show "plain_name (nat_digits n)" "plain_name (pad_left w (nat_digits n))" by blast+
qed

lemma plain_TrimRight: "plain_name s \<Longrightarrow> plain_name (strings_TrimRight s cutset)"
proof -
  have "set (strings_TrimRight s cutset) \<subseteq> set s" by (auto simp: strings_TrimRight_def dest: set_dropWhileD)
  then show "plain_name s \<Longrightarrow> ?thesis" unfolding plain_name_def list_all_iff by blast
qed

lemma plain_Cons:
  "plain_name (c # s) \<longleftrightarrow> is_ascii c \<and> \<not> byte c < 0x20 \<and> c \<noteq> CHR 0x22 \<and> c \<noteq> CHR 0x5C \<and> plain_name s" "plain_name []"
  by (simp_all add: plain_name_def)

text \<open>A time is a literal with nothing to escape.\<close>

lemma json_time_plain:
  assumes "json_time t = Some s"
  shows "\<exists>b. s = CHR 0x22 # b @ [CHR 0x22] \<and> plain_name b"
proof -
  have "plain_name (time_fraction n)" "plain_name (time_offset z)" for n z
    by (simp_all add: time_fraction_def time_offset_def Let_def plain_TrimRight plain_Cons is_ascii_def)
  then have "plain_name (butlast (tl s))"
    using assms by (auto simp: json_time_def plain_Cons is_ascii_def butlast_append split: if_splits)
  moreover have "s = CHR 0x22 # butlast (tl s) @ [CHR 0x22]"
    using assms by (auto simp: json_time_def butlast_append split: if_splits)
  ultimately show ?thesis by blast
qed

lemma event_readable:
  assumes "event_valid e" "plain_name created" "d \<noteq> 0"
  shows "readable d (event_members created e)"
proof -
  have "reads d (marshal_crypto (ev_Crypto e)) (JObj (values (crypto_members (ev_Crypto e))))"
    unfolding crypto_texts using assms by (intro reads_object_text crypto_readable) (simp_all add: event_valid_def)
  with assms event_names show ?thesis
    by (simp add: event_members_def event_valid_def reads_string reads_int reads_plain)
qed

lemma event_stored:
  assumes "ParseInt (strconv_FormatInt (ev_Version e)) = Some (ev_Version e)" "pt created = Some (ev_CreatedAt e)"
  shows "store_members (event_fields pt) (values (event_members created e)) zero_event =
    (e\<lparr>ev_RawChannel := [], ev_RoutingKey := []\<rparr>, True)"
proof -
  note omitted = event_stores(1,2,4,5,7,9,10) [where pt = pt, THEN store_omitted]
  have "store_struct payload_fields (JObj (values (crypto_members (ev_Crypto e)))) (ev_Crypto zero_event) = (ev_Crypto e, True)"
    by (simp add: store_struct_def crypto_stored)
  then show ?thesis
    using assms
    by (simp add: event_members_def store_members_append event_stores omitted store_string_def store_int_def time_store_def
        store_nested_def zero_event_def)
qed

text \<open>
  An event with UTF-8 texts that is encoded by its producer is decoded by the gateway to the same event; only the
  two fields that are not part of the message are empty.
\<close>

theorem event_survives_the_bus:
  assumes "event_valid e" "time_roundtrip parse_time (ev_CreatedAt e)"
  shows "\<exists>raw. marshal_event e = Some raw \<and>
    unmarshal_event parse_time raw = Some (e\<lparr>ev_RawChannel := [], ev_RoutingKey := []\<rparr>)"
proof -
  obtain s where s: "json_time (ev_CreatedAt e) = Some s" "parse_time (butlast (tl s)) = Some (ev_CreatedAt e)"
    using assms(2) by (auto simp: time_roundtrip_def split: option.splits)
  then obtain b where b: "s = CHR 0x22 # b @ [CHR 0x22]" "plain_name b" "parse_time b = Some (ev_CreatedAt e)"
    using json_time_plain by fastforce
  have "ParseInt (strconv_FormatInt (ev_Version e)) = Some (ev_Version e)"
    using assms(1) by (intro ParseInt_FormatInt) (simp_all add: event_valid_def)
  moreover have "readable (maxNestingDepth - 1) (event_members b e)"
    using assms(1) b(2) by (intro event_readable) (simp_all add: maxNestingDepth_def)
  ultimately show ?thesis
    using s(1) b by (simp add: event_texts unmarshal_event_def unmarshal_object_text event_stored)
qed

section \<open>From the publisher to the browser\<close>

lemma sse_parse_data_frame:
  "one_line json \<Longrightarrow> sse_parse last_id (Data (NewDataFrame typ i json)) = [frame_event last_id typ i json]"
  using sse_run_data_frame [of json last_id _ _ "[]"] by (simp add: sse_parse_def sse_lines_def)

lemma published:
  assumes "Publish_event url_ok send gcm_seal put (Some nonce) now p pub s = (s1, Inr (ev, raw))" "pu_Tamper pub = None"
    "event_valid ev" "time_roundtrip parse_time now"
  obtains dk dek where "snd (generateDataKey url_ok send p (fst s)) = Inr (dk, dek)" "length dek = 32"
    "ev = sealed_event now pub dk nonce (gcm_seal dek nonce (pu_Payload pub) (BuildAAD DefaultAADTemplate (publication_context pub)))"
    "unmarshal_event parse_time raw = Some (ev\<lparr>ev_RawChannel := [], ev_RoutingKey := []\<rparr>)"
proof -
  from assms(1) obtain svc dk dek where g: "generateDataKey url_ok send p (fst s) = (svc, Inr (dk, dek))"
    by (auto simp: Publish_event_def Seal_def split: prod.splits sum.splits)
  then have dek: "length dek = 32"
    by (auto simp: generateDataKey_def Let_def split: if_splits prod.splits option.splits)
  let ?ev = "sealed_event now pub dk nonce
    (gcm_seal dek nonce (pu_Payload pub) (BuildAAD DefaultAADTemplate (publication_context pub)))"
  from g assms(1,2) dek have ev: "ev = ?ev" "marshal_event ev = Some raw"
    by (auto simp: Publish_event_def Seal_def alloc_buf_def EncryptPayload_def Let_def nth_append
        split: option.splits if_splits)
  then have "ev_CreatedAt ev = now" by (simp add: sealed_event_def)
  then have "unmarshal_event parse_time raw = Some (ev\<lparr>ev_RawChannel := [], ev_RoutingKey := []\<rparr>)"
    using event_survives_the_bus [OF assms(3), of parse_time] assms(4) ev(2) by auto
  with g dek ev show thesis by (intro that) simp_all
qed

text \<open>What the gateway does with a sealed event, when the key service returns the publisher's key.\<close>

lemma decrypt_sealed:
  assumes "snd (unwrap (pi_svc st) (ToEnvelope ev)) = Inr dek" "length dek = 32" "length nonce = 12"
    and "ep_PayloadNonce (ev_Crypto ev) = base64_EncodeToString nonce" "ep_Ciphertext (ev_Crypto ev) = base64_EncodeToString c"
  shows "snd (DecryptAndBuildFrame unwrap gcm_open cfg ev st) =
    (case gcm_open dek nonce c (event_aad cfg ev) of
       None \<Rightarrow> Inl ErrDecryptFailed
     | Some plaintext \<Rightarrow>
         if max_payload cfg < int (length plaintext) then Inl ErrPayloadTooLarge
         else case marshal_payload (event_payload ev plaintext) of
           None \<Rightarrow> Inl ErrMarshal
         | Some json \<Rightarrow> Inr (Some (NewDataFrame (ev_Type ev) (ev_EventID ev) json)))"
proof -
  obtain svc where u: "unwrap (pi_svc st) (ToEnvelope ev) = (svc, Inr dek)" using assms(1) by (metis surjective_pairing)
  have "base64_EncodeToString nonce \<noteq> []" using assms(3) base64_roundtrip [of nonce] by (auto simp: base64_DecodeString_def)
  moreover have "0 < max_payload cfg" by (simp add: max_payload_def)
  ultimately show ?thesis
    using assms u
    by (simp add: DecryptAndBuildFrame_def DecryptPayload_def alloc_buf_def gcm_nonce_size_def nth_append
        split: option.split)
qed

text \<open>
  C10. An event that the publisher sealed for its own context reaches the browser. The gateway decodes the message of
  the bus, whatever channel it came on and whatever routing key the consumer computes; with a key service that opens
  the envelope the publisher got, authenticated encryption that opens what it sealed, the default template and a
  payload within the bound, the frame it builds is read by the browser as one event with the published type and
  identifier whose data is the published payload in its context.
\<close>

theorem published_event_reaches_the_browser:
  assumes pub: "Publish_event url_ok send gcm_seal put (Some nonce) now p pub s = (s1, Inr (ev, raw))"
      "length nonce = 12" "pu_Tamper pub = None" "pu_AAD pub = None"
    and msg: "event_valid ev" "time_roundtrip parse_time now"
    and gcm: "\<And>k n x a. gcm_open k n (gcm_seal k n x a) a = Some x"
    and key: "\<And>dk dek. snd (generateDataKey url_ok send p (fst s)) = Inr (dk, dek) \<Longrightarrow>
      snd (unwrap (pi_svc st) (ToEnvelope ev)) = Inr dek"
    and cfg: "AADEnabled cfg" "AADTemplate cfg = DefaultAADTemplate" "int (length (pu_Payload pub)) \<le> max_payload cfg"
    and json: "marshal_payload (event_payload ev (pu_Payload pub)) = Some json"
  shows "\<exists>e f. unmarshal_event parse_time raw = Some e \<and>
    snd (DecryptAndBuildFrame unwrap gcm_open cfg (e\<lparr>ev_RawChannel := ch, ev_RoutingKey := rk\<rparr>) st) = Inr (Some f) \<and>
    sse_parse last_id (Data f) = [frame_event last_id (pu_Type pub) (pu_EventID pub) json]"
proof -
  obtain dk dek where d: "snd (generateDataKey url_ok send p (fst s)) = Inr (dk, dek)" "length dek = 32"
    "ev = sealed_event now pub dk nonce (gcm_seal dek nonce (pu_Payload pub) (BuildAAD DefaultAADTemplate (publication_context pub)))"
    and decoded: "unmarshal_event parse_time raw = Some (ev\<lparr>ev_RawChannel := [], ev_RoutingKey := []\<rparr>)"
    using published [OF pub(1,3) msg] .
  let ?e = "ev\<lparr>ev_RawChannel := ch, ev_RoutingKey := rk\<rparr>"
  have "event_aad cfg ?e = BuildAAD DefaultAADTemplate (publication_context pub)"
    using cfg pub(4) d(3) by (simp add: event_aad_def sealed_event_def publication_context_def)
  moreover have "snd (unwrap (pi_svc st) (ToEnvelope ?e)) = Inr dek" using key [OF d(1)] by (simp add: ToEnvelope_def)
  moreover have "marshal_payload (event_payload ?e (pu_Payload pub)) = Some json" using json by (simp add: event_payload_def)
  ultimately have "snd (DecryptAndBuildFrame unwrap gcm_open cfg ?e st) =
      Inr (Some (NewDataFrame (pu_Type pub) (pu_EventID pub) json))"
    using decrypt_sealed [of unwrap st ?e dek nonce _ gcm_open cfg] pub(2) d(2,3) gcm cfg(3) by (simp add: sealed_event_def)
  moreover have "sse_parse last_id (Data (NewDataFrame (pu_Type pub) (pu_EventID pub) json)) =
      [frame_event last_id (pu_Type pub) (pu_EventID pub) json]"
    using no_break_payload [OF json] by (intro sse_parse_data_frame) (simp add: one_line_no_break)
  ultimately show ?thesis using decoded by auto
qed


text \<open>The publisher leaves nothing but zeros in the buffers it allocated, whether the publication succeeds or not.\<close>

lemma publisher_erases_key:
  "case Publish_event url_ok send gcm_seal put rand now p pub s of (s1, r) \<Rightarrow>
    take (length (snd s)) (snd s1) = snd s \<and> (\<forall>b. length (snd s) \<le> b \<and> b < length (snd s1) \<longrightarrow> zeroed (snd s1) b)"
proof -
  have z: "Zeroize (m @ [key]) (length m) = m @ [replicate (length key) (CHR 0x00)]" for m :: memory and key
    by (simp add: Zeroize_def)
  have "zeroed (m @ [replicate k (CHR 0x00)]) b" if "length m \<le> b" "b < Suc (length m)" for m :: memory and k b
    using that by (simp add: le_less_Suc_eq zeroed_def list_all_iff)
  then show ?thesis
    by (auto simp: Publish_event_def Seal_def alloc_buf_def Let_def z split: prod.split sum.split)
qed

section \<open>A publication\<close>

text \<open>A cipher that is exact about its additional data: the data, byte by byte after a mark, then the plaintext.\<close>

definition tagged :: "string \<Rightarrow> string" where
  "tagged a = concat (map (\<lambda>c. [CHR 0x01, c]) a) @ [CHR 0x00]"

definition tag_seal :: gcm_sealer where
  "tag_seal k n x a = tagged a @ x"

definition tag_open :: gcm where
  "tag_open k n c a = (if take (length (tagged a)) c = tagged a then Some (drop (length (tagged a)) c) else None)"

lemma tagged_inject: "tagged a @ x = tagged b @ y \<Longrightarrow> a = b"
proof (induction a arbitrary: b)
  case Nil
  then show ?case by (cases b) (simp_all add: tagged_def)
next
  case (Cons c a)
  then show ?case by (cases b) (auto simp: tagged_def)
qed

lemma tag_cipher: "tag_open k n (tag_seal k n x a) a = Some x" "a \<noteq> b \<Longrightarrow> tag_open k n (tag_seal k n x a) b = None"
proof -
  show "tag_open k n (tag_seal k n x a) a = Some x" by (simp add: tag_open_def tag_seal_def)
  have "take (length (tagged b)) (tagged a @ x) = tagged b \<Longrightarrow> a = b"
    using tagged_inject [of a x b "drop (length (tagged b)) (tagged a @ x)"] by (metis append_take_drop_id)
  then show "a \<noteq> b \<Longrightarrow> tag_open k n (tag_seal k n x a) b = None" by (auto simp: tag_open_def tag_seal_def simp del: take_append)
qed

definition pub_key :: string where
  "pub_key = replicate 32 (CHR ''k'')"

definition pub_answer :: string where
  "pub_answer = object_text (texts [(''plaintext_key'', json_string (base64_EncodeToString pub_key), JStr (base64_EncodeToString pub_key))])"

definition pub_send :: "unit transport" where
  "pub_send svc req = (svc, Some \<lparr>rs_code = 200, rs_status = ''200 OK'', rs_body = pub_answer, rs_readErr = False\<rparr>)"

definition pub_demo :: "aad_context option \<Rightarrow> publication" where
  "pub_demo ctx = \<lparr>pu_TenantID = ''t'', pu_AppID = ''a'', pu_TopicID = ''x'', pu_Type = ''msg'', pu_EventID = ''e1'',
     pu_Version = 7, pu_Payload = ''{}'', pu_AAD = ctx, pu_Tamper = None\<rparr>"

definition pub_nonce :: string where
  "pub_nonce = replicate 12 (CHR ''n'')"

definition pub_dk :: data_key where
  "pub_dk = zero_data_key\<lparr>dk_PlaintextKey := base64_EncodeToString pub_key\<rparr>"

definition pub_at :: publisher where
  "pub_at = \<lparr>pb_cryptoURL = ''http://pqc'', pb_channel = ''events''\<rparr>"

definition pub_event :: "aad_context option \<Rightarrow> encrypted_event" where
  "pub_event ctx = sealed_event zero_time (pub_demo ctx) pub_dk pub_nonce
     (tag_seal pub_key pub_nonce ''{}'' (BuildAAD DefaultAADTemplate (publication_context (pub_demo ctx))))"

definition pub_raw :: "aad_context option \<Rightarrow> string" where
  "pub_raw ctx = the (marshal_event (pub_event ctx))"

lemma pub_data_key: "generateDataKey (\<lambda>_. True) pub_send pub_at () = ((), Inr (pub_dk, pub_key))"
proof -
  have "readable (maxNestingDepth - 1) [(''plaintext_key'', json_string (base64_EncodeToString pub_key), JStr (base64_EncodeToString pub_key))]"
    by (auto simp: plain_name_def is_ascii_def intro!: reads_string ascii_valid base64_ascii)
  moreover have "field_store data_key_fields ''plaintext_key'' = Some (store_string (\<lambda>x k. k\<lparr>dk_PlaintextKey := x\<rparr>))"
    by (simp add: field_store_def data_key_fields_def EqualFold_ascii is_ascii_def lower_char_def)
  ultimately have "json_Unmarshal (store_struct data_key_fields) pub_answer zero_data_key = Some pub_dk"
    unfolding pub_answer_def by (subst unmarshal_object_text) (assumption, simp add: store_string_def pub_dk_def)
  moreover have "length pub_answer \<le> 100" by code_simp
  then have "length pub_answer \<le> 2 ^ 20" by simp
  ultimately show ?thesis
    by (simp add: generateDataKey_def pub_send_def pub_dk_def) (simp add: pub_key_def)
qed

lemma pub_published:
  "Publish_event (\<lambda>_. True) pub_send tag_seal (\<lambda>_ _. True) (Some pub_nonce) zero_time pub_at (pub_demo ctx) ((), []) =
    (((), [replicate 32 (CHR 0x00)]), Inr (pub_event ctx, pub_raw ctx))"
proof -
  have "marshal_event (pub_event ctx) \<noteq> None"
    by (simp add: marshal_event_def pub_event_def sealed_event_def zero_time_def json_time_def)
  then have "marshal_event (pub_event ctx) = Some (pub_raw ctx)" by (auto simp: pub_raw_def)
  moreover have "length pub_key = 32" "pub_key \<noteq> []" by (simp_all add: pub_key_def)
  ultimately show ?thesis
    by (simp add: Publish_event_def Seal_def pub_data_key alloc_buf_def EncryptPayload_def Zeroize_def pub_event_def)
      (simp add: pub_demo_def)
qed

lemma pub_valid: "event_valid (pub_event ctx)"
proof -
  have "utf8_Valid []" "utf8_Valid ''t''" "utf8_Valid ''a''" "utf8_Valid ''x''" "utf8_Valid ''msg''" "utf8_Valid ''e1''"
    "utf8_Valid SupportedEventSchema"
    by (simp_all add: ascii_valid SupportedEventSchema_def is_ascii_def)
  then show ?thesis
    by (simp add: event_valid_def payload_valid_def pub_event_def sealed_event_def pub_demo_def pub_dk_def zero_data_key_def
        ascii_valid base64_ascii)
qed

definition pub_unwrap :: "nat unwrap" where
  "pub_unwrap n env = (Suc n, Inr pub_key)"

lemma pub_opened:
  assumes "snd (generateDataKey (\<lambda>_. True) pub_send pub_at (fst ((), [] :: memory))) = Inr (dk, dek)"
  shows "snd (pub_unwrap svc env) = Inr dek"
  using assms by (simp add: pub_data_key pub_unwrap_def)

lemma pub_time: "time_roundtrip (\<lambda>_. Some zero_time) zero_time"
  by (simp add: time_roundtrip_def json_time_def zero_time_def)

theorem published_event_reaches_the_browser_witness:
  "\<exists>e f json. unmarshal_event (\<lambda>_. Some zero_time) (pub_raw None) = Some e \<and>
    snd (DecryptAndBuildFrame pub_unwrap tag_open demo_cfg (e\<lparr>ev_RawChannel := ''events'', ev_RoutingKey := ''k''\<rparr>) demo_state) = Inr (Some f) \<and>
    sse_parse [] (Data f) = [frame_event [] ''msg'' ''e1'' json]"
proof -
  have demo: "pu_Tamper (pub_demo None) = None" "pu_AAD (pub_demo None) = None" "length pub_nonce = 12"
    "pu_Payload (pub_demo None) = ''{}''" "pu_Type (pub_demo None) = ''msg''" "pu_EventID (pub_demo None) = ''e1''"
    by (simp_all add: pub_demo_def pub_nonce_def)
  have cfg: "AADEnabled demo_cfg" "AADTemplate demo_cfg = DefaultAADTemplate"
    "int (length (pu_Payload (pub_demo None))) \<le> max_payload demo_cfg"
    by (simp_all add: demo_cfg_def pub_demo_def max_payload_def)
  have "json_Compact ''{}'' = Some ''{}''"
    by (simp add: json_Compact_def compact_emit_def scan_eof_def scan_defs isSpace_def maxNestingDepth_def)
  then have "marshal_payload (event_payload (pub_event None) (pu_Payload (pub_demo None))) \<noteq> None"
    by (simp add: marshal_payload_def event_payload_def json_raw_def demo(4) pub_event_def sealed_event_def json_time_def
        zero_time_def)
  then obtain json where json: "marshal_payload (event_payload (pub_event None) (pu_Payload (pub_demo None))) = Some json"
    by blast
  have "\<exists>e f. unmarshal_event (\<lambda>_. Some zero_time) (pub_raw None) = Some e \<and>
    snd (DecryptAndBuildFrame pub_unwrap tag_open demo_cfg (e\<lparr>ev_RawChannel := ''events'', ev_RoutingKey := ''k''\<rparr>) demo_state) =
      Inr (Some f) \<and>
    sse_parse [] (Data f) = [frame_event [] (pu_Type (pub_demo None)) (pu_EventID (pub_demo None)) json]"
    by (rule published_event_reaches_the_browser, rule pub_published)
      (use demo pub_valid pub_time tag_cipher(1) cfg json in \<open>auto simp: pub_opened\<close>)
  then
  show ?thesis unfolding demo by blast
qed

definition pub_foreign :: aad_context where
  "pub_foreign = \<lparr>ac_TenantID = ''u'', ac_AppID = ''a'', ac_TopicID = ''x'', ac_EventID = ''e1'', ac_Version = 7\<rparr>"


end
