(* ===== verification/Metrics.thy ===== *)
theory Metrics
  imports Complex_Main Gateway_Prelude
begin

text \<open>
  The metrics of the gateway, \<^verbatim>\<open>internal/metrics/metrics.go\<close>: sixteen collectors with their kind, name, help
  text and histogram buckets, all registered in one registry that \<^verbatim>\<open>/metrics\<close> gathers. The Prometheus library
  is a parameter: \<open>NewHistogram\<close> panics (None) or returns the collector, \<open>Register\<close> returns an error (None) or
  the registry with the collector; \<^verbatim>\<open>MustRegister\<close> registers one collector after the other and panics at the
  first error. Bucket bounds are rationals; the doubles nearest to them are in the same order.
\<close>

section \<open>Definitions\<close>

datatype metric_kind = Gauge | Counter | Histogram "rat list"

record collector =
  col_Kind :: metric_kind
  col_Name :: string
  col_Help :: string

record ('r) prometheus =
  NewRegistry :: 'r
  Register :: "'r \<Rightarrow> collector \<Rightarrow> 'r option"
  NewHistogram :: "collector \<Rightarrow> collector option"
  Gather :: "'r \<Rightarrow> string set"

definition NewGauge :: "string \<Rightarrow> string \<Rightarrow> collector" where
  "NewGauge name help = \<lparr>col_Kind = Gauge, col_Name = name, col_Help = help\<rparr>"

definition NewCounter :: "string \<Rightarrow> string \<Rightarrow> collector" where
  "NewCounter name help = \<lparr>col_Kind = Counter, col_Name = name, col_Help = help\<rparr>"

definition HistogramOpts :: "string \<Rightarrow> string \<Rightarrow> rat list \<Rightarrow> collector" where
  "HistogramOpts name help buckets = \<lparr>col_Kind = Histogram buckets, col_Name = name, col_Help = help\<rparr>"

fun MustRegister :: "('r, 'x) prometheus_scheme \<Rightarrow> 'r \<Rightarrow> collector list \<Rightarrow> 'r option" where
  "MustRegister lib reg [] = Some reg"
| "MustRegister lib reg (c # cs) = (case Register lib reg c of None \<Rightarrow> None | Some reg' \<Rightarrow> MustRegister lib reg' cs)"

record ('r) metrics =
  mt_Registry :: 'r
  mt_ConnectionsActive :: collector
  mt_ConnectionsTotal :: collector
  mt_EventsReceivedTotal :: collector
  mt_EventsNoSubscriberTotal :: collector
  mt_EventsDecryptedTotal :: collector
  mt_DecryptErrorsTotal :: collector
  mt_FanoutTotal :: collector
  mt_FanoutRecipientsTotal :: collector
  mt_SlowClientsTotal :: collector
  mt_ClientsDisconnectedTotal :: collector
  mt_EventBusReconnectsTotal :: collector
  mt_CryptoDurationSeconds :: collector
  mt_EventProcessingDuration :: collector
  mt_FanoutDurationSeconds :: collector
  mt_EventLaneQueueDepth :: collector
  mt_EventLaneQueueDroppedTotal :: collector

definition opts_CryptoDurationSeconds :: collector where
  "opts_CryptoDurationSeconds = HistogramOpts ''sse_crypto_duration_seconds''
     (''Dur'' @ [CHR 0xC3, CHR 0xA9] @ ''e en secondes des op'' @ [CHR 0xC3, CHR 0xA9] @ ''rations de d'' @ [CHR 0xC3, CHR 0xA9] @ ''ballage et d'' @ [CHR 0xC3, CHR 0xA9] @ ''chiffrement crypto.'')
     [1/2000, 1/1000, 1/500, 1/200, 1/100, 1/40, 1/20, 1/10, 1/4, 1/2, 1]"

definition opts_EventProcessingDuration :: collector where
  "opts_EventProcessingDuration = HistogramOpts ''sse_event_processing_duration_seconds''
     (''Dur'' @ [CHR 0xC3, CHR 0xA9] @ ''e totale de traitement de l'' @ [CHR 0x27, CHR 0xC3, CHR 0xA9] @ ''v'' @ [CHR 0xC3, CHR 0xA9] @ ''nement de la r'' @ [CHR 0xC3, CHR 0xA9] @ ''ception au fan-out.'')
     [1/2000, 1/1000, 1/500, 1/200, 1/100, 1/40, 1/20, 1/10, 1/4, 1/2, 1]"

definition opts_FanoutDurationSeconds :: collector where
  "opts_FanoutDurationSeconds = HistogramOpts ''sse_fanout_duration_seconds''
     (''Dur'' @ [CHR 0xC3, CHR 0xA9] @ ''e de soumission des trames aux canaux clients.'')
     [1/10000, 1/2000, 1/1000, 1/200, 1/100, 1/20]"

definition metrics_struct :: "'r \<Rightarrow> collector \<Rightarrow> collector \<Rightarrow> collector \<Rightarrow> 'r metrics" where
  "metrics_struct reg crypto processing fanout = \<lparr>mt_Registry = reg,
     mt_ConnectionsActive = NewGauge ''sse_connections_active''
       (''Nombre instantan'' @ [CHR 0xC3, CHR 0xA9] @ '' de connexions SSE ouvertes.''),
     mt_ConnectionsTotal = NewCounter ''sse_connections_total''
       (''Nombre total de connexions SSE '' @ [CHR 0xC3, CHR 0xA9] @ ''tablies depuis le d'' @ [CHR 0xC3, CHR 0xA9] @ ''marrage.''),
     mt_EventsReceivedTotal = NewCounter ''sse_events_received_total''
       (''Nombre total d'' @ [CHR 0x27, CHR 0xC3, CHR 0xA9] @ ''v'' @ [CHR 0xC3, CHR 0xA9] @ ''nements re'' @ [CHR 0xC3, CHR 0xA7] @ ''us du bus.''),
     mt_EventsNoSubscriberTotal = NewCounter ''sse_events_no_subscriber_total''
       (''Nombre d'' @ [CHR 0x27, CHR 0xC3, CHR 0xA9] @ ''v'' @ [CHR 0xC3, CHR 0xA9] @ ''nements ignor'' @ [CHR 0xC3, CHR 0xA9] @ ''s sans d'' @ [CHR 0xC3, CHR 0xA9] @ ''chiffrement faute d'' @ [CHR 0x27] @ ''abonn'' @ [CHR 0xC3, CHR 0xA9] @ ''s locaux.''),
     mt_EventsDecryptedTotal = NewCounter ''sse_events_decrypted_total''
       (''Nombre total d'' @ [CHR 0x27, CHR 0xC3, CHR 0xA9] @ ''v'' @ [CHR 0xC3, CHR 0xA9] @ ''nements d'' @ [CHR 0xC3, CHR 0xA9] @ ''chiffr'' @ [CHR 0xC3, CHR 0xA9] @ ''s avec succ'' @ [CHR 0xC3, CHR 0xA8] @ ''s.''),
     mt_DecryptErrorsTotal = NewCounter ''sse_decrypt_errors_total''
       (''Nombre d'' @ [CHR 0x27] @ ''erreurs de d'' @ [CHR 0xC3, CHR 0xA9] @ ''chiffrement ou de d'' @ [CHR 0xC3, CHR 0xA9] @ ''ballage de cl'' @ [CHR 0xC3, CHR 0xA9] @ ''.''),
     mt_FanoutTotal = NewCounter ''sse_fanout_total''
       (''Nombre total d'' @ [CHR 0x27] @ ''op'' @ [CHR 0xC3, CHR 0xA9] @ ''rations de diffusion (fan-out) effectu'' @ [CHR 0xC3, CHR 0xA9] @ ''es.''),
     mt_FanoutRecipientsTotal = NewCounter ''sse_fanout_recipients_total''
       (''Nombre cumul'' @ [CHR 0xC3, CHR 0xA9] @ '' de trames transmises aux clients individuels.''),
     mt_SlowClientsTotal = NewCounter ''sse_slow_clients_total''
       (''Nombre total de clients lents d'' @ [CHR 0xC3, CHR 0xA9] @ ''tect'' @ [CHR 0xC3, CHR 0xA9] @ ''s.''),
     mt_ClientsDisconnectedTotal = NewCounter ''sse_clients_disconnected_total''
       (''Nombre total de connexions SSE ferm'' @ [CHR 0xC3, CHR 0xA9] @ ''es.''),
     mt_EventBusReconnectsTotal = NewCounter ''sse_event_bus_reconnects_total''
       (''Nombre de reconnexions de l'' @ [CHR 0x27] @ ''adapter EventBus.''),
     mt_CryptoDurationSeconds = crypto,
     mt_EventProcessingDuration = processing,
     mt_FanoutDurationSeconds = fanout,
     mt_EventLaneQueueDepth = NewGauge ''sse_event_lane_queue_depth''
       (''Profondeur instantan'' @ [CHR 0xC3, CHR 0xA9] @ ''e cumul'' @ [CHR 0xC3, CHR 0xA9] @ ''e des files d'' @ [CHR 0x27] @ ''attente des voies d'' @ [CHR 0x27, CHR 0xC3, CHR 0xA9] @ ''v'' @ [CHR 0xC3, CHR 0xA9] @ ''nements.''),
     mt_EventLaneQueueDroppedTotal = NewCounter ''sse_event_lane_queue_dropped_total''
       (''Nombre d'' @ [CHR 0x27, CHR 0xC3, CHR 0xA9] @ ''v'' @ [CHR 0xC3, CHR 0xA9] @ ''nements rejet'' @ [CHR 0xC3, CHR 0xA9] @ ''s par d'' @ [CHR 0xC3, CHR 0xA9] @ ''bordement des files de voies.'')\<rparr>"

definition registered :: "('r, 'x) metrics_scheme \<Rightarrow> collector list" where
  "registered m = [mt_ConnectionsActive m, mt_ConnectionsTotal m, mt_EventsReceivedTotal m,
     mt_EventsNoSubscriberTotal m, mt_EventsDecryptedTotal m, mt_DecryptErrorsTotal m,
     mt_FanoutTotal m, mt_FanoutRecipientsTotal m, mt_SlowClientsTotal m,
     mt_ClientsDisconnectedTotal m, mt_EventBusReconnectsTotal m, mt_CryptoDurationSeconds m,
     mt_EventProcessingDuration m, mt_FanoutDurationSeconds m, mt_EventLaneQueueDepth m,
     mt_EventLaneQueueDroppedTotal m]"

definition NewMetrics :: "('r, 'x) prometheus_scheme \<Rightarrow> 'r metrics option" where
  "NewMetrics lib =
     (let reg = NewRegistry lib
      in case (NewHistogram lib opts_CryptoDurationSeconds, NewHistogram lib opts_EventProcessingDuration,
               NewHistogram lib opts_FanoutDurationSeconds) of
           (Some crypto, Some processing, Some fanout) \<Rightarrow>
             let m = metrics_struct reg crypto processing fanout
             in map_option (\<lambda>reg. m\<lparr>mt_Registry := reg\<rparr>) (MustRegister lib reg (registered m))
         | _ \<Rightarrow> None)"

text \<open>The collectors of the struct, field by field.\<close>

definition fields :: "('r, 'x) metrics_scheme \<Rightarrow> collector list" where
  "fields m = [mt_ConnectionsActive m, mt_ConnectionsTotal m, mt_EventsReceivedTotal m,
     mt_EventsNoSubscriberTotal m, mt_EventsDecryptedTotal m, mt_DecryptErrorsTotal m,
     mt_FanoutTotal m, mt_FanoutRecipientsTotal m, mt_SlowClientsTotal m,
     mt_ClientsDisconnectedTotal m, mt_EventBusReconnectsTotal m, mt_CryptoDurationSeconds m,
     mt_EventProcessingDuration m, mt_FanoutDurationSeconds m, mt_EventLaneQueueDepth m,
     mt_EventLaneQueueDroppedTotal m]"

text \<open>
  What the library documents: a metric name is letters, digits and underscores, not starting with a digit; a
  histogram with strictly increasing buckets is created as described; a collector whose name is valid and new
  to the registry is registered, and gathered from then on.
\<close>

definition valid_name :: "string \<Rightarrow> bool" where
  "valid_name s \<longleftrightarrow> s \<noteq> [] \<and> list_all (\<lambda>c. c \<in> set ''abcdefghijklmnopqrstuvwxyz_0123456789'') s \<and>
     hd s \<notin> set ''0123456789''"

definition buckets_ok :: "metric_kind \<Rightarrow> bool" where
  "buckets_ok k = (case k of Histogram bs \<Rightarrow> sorted_wrt (<) bs | _ \<Rightarrow> True)"

definition prometheus_contract :: "('r, 'x) prometheus_scheme \<Rightarrow> bool" where
  "prometheus_contract lib \<longleftrightarrow>
     Gather lib (NewRegistry lib) = {} \<and>
     (\<forall>c. buckets_ok (col_Kind c) \<longrightarrow> NewHistogram lib c = Some c) \<and>
     (\<forall>r c. valid_name (col_Name c) \<and> col_Name c \<notin> Gather lib r \<longrightarrow>
        (\<exists>r'. Register lib r c = Some r' \<and> Gather lib r' = insert (col_Name c) (Gather lib r)))"

section \<open>Lemmas\<close>

lemma must_register_all:
  assumes "prometheus_contract lib" "list_all (\<lambda>c. valid_name (col_Name c)) cs" "distinct (map col_Name cs)"
    "col_Name ` set cs \<inter> Gather lib r = {}"
  shows "\<exists>r'. MustRegister lib r cs = Some r' \<and> Gather lib r' = Gather lib r \<union> col_Name ` set cs"
  using assms(2-4)
proof (induction cs arbitrary: r)
  case (Cons c cs)
  obtain r1 where r1: "Register lib r c = Some r1" "Gather lib r1 = insert (col_Name c) (Gather lib r)"
    using assms(1) Cons.prems unfolding prometheus_contract_def by (auto dest!: spec [of _ r] spec [of _ c])
  then have "\<exists>r'. MustRegister lib r1 cs = Some r' \<and> Gather lib r' = Gather lib r1 \<union> col_Name ` set cs"
    using Cons.prems by (intro Cons.IH) auto
  with r1 show ?case by auto
qed simp

lemma histograms_ok:
  "buckets_ok (col_Kind opts_CryptoDurationSeconds)" "buckets_ok (col_Kind opts_EventProcessingDuration)"
  "buckets_ok (col_Kind opts_FanoutDurationSeconds)"
  by (simp_all add: buckets_ok_def HistogramOpts_def opts_CryptoDurationSeconds_def opts_EventProcessingDuration_def
      opts_FanoutDurationSeconds_def)

text \<open>No field is left out of the registration.\<close>

lemma registered_fields: "registered m = fields m"
  by (simp add: registered_def fields_def)

lemma fields_registry [simp]: "fields (m\<lparr>mt_Registry := r\<rparr>) = fields m"
  by (simp add: fields_def)

lemma fields_named:
  fixes r :: 'r
  defines "m \<equiv> metrics_struct r opts_CryptoDurationSeconds opts_EventProcessingDuration opts_FanoutDurationSeconds"
  shows "distinct (map col_Name (fields m))" "length (fields m) = 16" 
    "list_all (\<lambda>c. valid_name (col_Name c)) (fields m)"
    "list_all (\<lambda>c. take 4 (col_Name c) = ''sse_'' \<and> valid_name (col_Name c) \<and> buckets_ok (col_Kind c)) (fields m)"
proof -
  have names: "map col_Name (fields m) = [''sse_connections_active'',
      ''sse_connections_total'',
      ''sse_events_received_total'',
      ''sse_events_no_subscriber_total'',
      ''sse_events_decrypted_total'',
      ''sse_decrypt_errors_total'',
      ''sse_fanout_total'',
      ''sse_fanout_recipients_total'',
      ''sse_slow_clients_total'',
      ''sse_clients_disconnected_total'',
      ''sse_event_bus_reconnects_total'',
      ''sse_crypto_duration_seconds'',
      ''sse_event_processing_duration_seconds'',
      ''sse_fanout_duration_seconds'',
      ''sse_event_lane_queue_depth'',
      ''sse_event_lane_queue_dropped_total'']"
    by (simp add: m_def fields_def metrics_struct_def NewGauge_def NewCounter_def HistogramOpts_def
      opts_CryptoDurationSeconds_def opts_EventProcessingDuration_def opts_FanoutDurationSeconds_def)
  show "distinct (map col_Name (fields m))" unfolding names by code_simp
  show "length (fields m) = 16" by (simp add: fields_def)
  have valid: "list_all (\<lambda>n. take 4 n = ''sse_'' \<and> valid_name n) (map col_Name (fields m))" unfolding names by code_simp
  then show "list_all (\<lambda>c. valid_name (col_Name c)) (fields m)" by (simp add: list_all_iff)
  have "list_all (\<lambda>c. buckets_ok (col_Kind c)) (fields m)"
    by (simp add: m_def fields_def metrics_struct_def histograms_ok) (simp add: NewGauge_def NewCounter_def buckets_ok_def)
  with valid show "list_all (\<lambda>c. take 4 (col_Name c) = ''sse_'' \<and> valid_name (col_Name c) \<and> buckets_ok (col_Kind c)) (fields m)"
    by (simp add: list_all_iff)
qed

section \<open>Every metric is exported\<close>

text \<open>
  With a library that keeps its contract the metrics are created without a panic, every field of the struct
  is gathered by the registry under its own name, all sixteen names are distinct and start with
  \<^verbatim>\<open>sse_\<close>, and nothing else is gathered.
\<close>

theorem every_metric_is_exported:
  assumes "prometheus_contract lib"
  shows "\<exists>m. NewMetrics lib = Some m \<and>
    Gather lib (mt_Registry m) = col_Name ` set (fields m) \<and>
    distinct (map col_Name (fields m)) \<and> length (fields m) = 16 \<and>
    list_all (\<lambda>c. take 4 (col_Name c) = ''sse_'' \<and> valid_name (col_Name c) \<and> buckets_ok (col_Kind c)) (fields m)"
proof -
  define m where "m = metrics_struct (NewRegistry lib) opts_CryptoDurationSeconds opts_EventProcessingDuration opts_FanoutDurationSeconds"
  have lib: "NewHistogram lib c = Some c" if "buckets_ok (col_Kind c)" for c
    using assms that by (simp add: prometheus_contract_def)
  have "list_all (\<lambda>c. valid_name (col_Name c)) (registered m)" "distinct (map col_Name (registered m))"
    using fields_named [of "NewRegistry lib"] by (simp_all add: m_def registered_fields)
  moreover have "Gather lib (NewRegistry lib) = {}" using assms by (simp add: prometheus_contract_def)
  ultimately obtain reg where reg: "MustRegister lib (NewRegistry lib) (registered m) = Some reg"
    "Gather lib reg = col_Name ` set (registered m)"
    using must_register_all [OF assms, of "registered m" "NewRegistry lib"] by auto
  have "NewMetrics lib = Some (m\<lparr>mt_Registry := reg\<rparr>)"
    using reg(1) by (simp add: NewMetrics_def lib histograms_ok Let_def flip: m_def)
  with reg(2) fields_named [of "NewRegistry lib"] show ?thesis
    by (simp add: registered_fields m_def)
qed

text \<open>The contract is kept by a registry that is the list of what was registered.\<close>

definition list_registry :: "collector list prometheus" where
  "list_registry = \<lparr>NewRegistry = [],
     Register = \<lambda>r c. if valid_name (col_Name c) \<and> col_Name c \<notin> col_Name ` set r then Some (r @ [c]) else None,
     NewHistogram = \<lambda>c. if buckets_ok (col_Kind c) then Some c else None,
     Gather = \<lambda>r. col_Name ` set r\<rparr>"

theorem every_metric_is_exported_witness:
  "prometheus_contract list_registry \<and> (\<exists>m. NewMetrics list_registry = Some m \<and> length (fields m) = 16 \<and>
     Gather list_registry (mt_Registry m) = col_Name ` set (fields m))"
proof -
  have ok: "prometheus_contract list_registry" by (auto simp: prometheus_contract_def list_registry_def)
  with every_metric_is_exported [OF ok] show ?thesis by blast
qed

end
