(* ===== verification/Spec2Isabelle.thy ===== *)
theory Spec2Isabelle
  imports Process Bus_System Hub_Concurrent Hub_Spec Unwrap_Memory Unwrap_Transports Publisher Metrics
begin

text \<open>
  A verification library of the SSE gateway: a Go server that takes encrypted events from a message bus, decrypts
  them with keys it gets from a key service, and pushes them as server-sent events to the browsers that hold a
  ticket for their topic. Every Go file under \<^verbatim>\<open>src/cmd\<close> and \<^verbatim>\<open>src/internal\<close> with logic of its own is modelled, and
  the publisher of the end-to-end tests as the other end of the event format.

  \<^bold>\<open>The program and its model.\<close> Each group below names the sources, the theory and the state.

  \<^item> \<^emph>\<open>Go.\<close> \<open>Gateway_Prelude\<close> (maps as association lists with distinct keys, collections of facts, list lemmas),
    \<open>Go_Strings\<close>, \<open>Go_Case\<close>, \<open>Go_Utf8\<close>, \<open>Go_Url\<close>, \<open>Go_Parse\<close>, \<open>Base64\<close>, \<open>Go_Json\<close> (encoding and compaction),
    \<open>Go_Json_Decode\<close> (parser and stores into struct fields), \<open>Go_Json_Object\<close> (what was encoded is read back),
    \<open>Go_Chan\<close> (buffered channels; sending on a closed one or closing twice is a panic). A Go string is a list of
    bytes, \<^verbatim>\<open>int\<close> and \<^verbatim>\<open>int64\<close> are integers with the 64-bit range written out where it matters, hashes and suite
    identifiers are words.
  \<^item> \<^emph>\<open>Hub.\<close> \<^verbatim>\<open>internal/hashutil\<close> is \<open>Hash_Util\<close>, \<^verbatim>\<open>internal/hub\<close> is \<open>Frame\<close>, \<open>Client\<close>, \<open>Quota\<close>, \<open>Shard\<close>, \<open>Hub\<close>. The hub
    holds shards of subscription maps, the quota counters, and a heap of clients, because the maps of several shards
    and the request share one client object. \<open>Hub_Invariant\<close> and \<open>Hub_Reach\<close> give the invariant and the reachable
    states, \<open>Hub_Props\<close> the properties, \<open>Hub_Concurrent\<close> the interleavings inside a registration. \<open>Hub_Spec\<close> is the
    abstract specification, a set of connections, and the refinement to it.
  \<^item> \<^emph>\<open>Events.\<close> \<^verbatim>\<open>internal/event\<close> is \<open>Event_Router\<close> (routing keys, with the regular expression made from the template)
    and \<open>Dispatcher\<close> (ordered lanes: operations, then every interleaving of producers, workers and the closer).
    \<^verbatim>\<open>internal/bus\<close> is \<open>Bus_Model\<close>, \<open>Memory_Bus\<close> and \<open>Valkey_Bus\<close> (the subscription loop as a step relation).
  \<^item> \<^emph>\<open>Cryptography.\<close> \<^verbatim>\<open>internal/crypto\<close> is \<open>Crypto_Aes\<close> (buffers in an explicit memory, so that erasure can be
    stated), \<open>Unwrap_Client\<close> and \<open>Unwrap_Transports\<close> (the HTTP adapter), \<open>Unwrap_Memory\<close> (the adapter on its own
    buffers), \<open>Unwrap_Mock\<close>; \<^verbatim>\<open>internal/tlsconf\<close> is
    \<open>Tls_Conf\<close>. \<^verbatim>\<open>internal/pipeline\<close> is \<open>Pipeline\<close>.
  \<^item> \<^emph>\<open>HTTP.\<close> \<^verbatim>\<open>internal/auth\<close> is \<open>Auth\<close>. \<^verbatim>\<open>internal/api\<close> is \<open>Client_Ip\<close>, \<open>Rate_Limit\<close>, \<open>Http_Server\<close> (answers and
    middleware), \<open>Api\<close> (admission and stream, as functions and as steps of the requests in progress), \<open>Api_Reach\<close>,
    \<open>Api_Props\<close>, \<open>Readiness\<close> (with \<^verbatim>\<open>internal/health\<close>), and in \<open>Server\<close> the router.
  \<^item> \<^emph>\<open>Process.\<close> \<^verbatim>\<open>internal/config\<close> is \<open>Config\<close>, \<^verbatim>\<open>internal/logging\<close> \<open>Logging\<close>, \<^verbatim>\<open>internal/metrics\<close> \<open>Metrics\<close>.
    \<^verbatim>\<open>cmd/server\<close> is \<open>Gateway\<close> (the consumer and the workers), \<open>Server\<close> (start, and shutdown as one function), \<open>System\<close> (all of it
    running on one hub), \<open>Bus_System\<close> (joined to the Valkey bus) and \<open>Process\<close> (\<^verbatim>\<open>main\<close> as a process: command line, hardening, signal, and the shutdown step by step
    while the other goroutines go on). \<^verbatim>\<open>tests/harness/publisher.go\<close> with \<^verbatim>\<open>internal/testutil\<close> is \<open>Publisher\<close>.

  \<^bold>\<open>Interfaces.\<close> A locale states what a client of a component relies on, with the interpretation on the model
  that provides it: \<open>partitioner\<close> (the hash), \<open>bounded_queue\<close> (channels, the queue of a client),
  \<open>session_ledger\<close> (quota), \<open>subscription_index\<close> (a shard, and the hub over its shards), \<open>event_bus\<close> (both buses),
  \<open>key_unwrapper\<close> (the HTTP adapter and the mock), \<open>ticket_validator\<close> (JWT and mock).

  \<^bold>\<open>What is shown.\<close>

  \<^item> \<^emph>\<open>Delivery.\<close> The index of the hub is exact; a broadcast reaches every live subscriber once and nobody else; the hub
    refines a set of connections; an event goes from the bus through its lane to exactly the live subscribers; lanes
    keep the order; the handled events are, in order, messages of the bus; in every state of the running
    gateway a stream is an ordered part of the frames built for events its ticket grants.
  \<^item> \<^emph>\<open>Confidentiality.\<close> Only a ticket signed with the configured key receives; tenants do not share routing keys;
    a ciphertext of another context is refused; the data key is erased on every path, and in binary mode from the HTTP
    answer on; secrets are redacted from the log; production runs neither mock nor unverified TLS.
  \<^item> \<^emph>\<open>Limits and life cycle.\<close> Connections stay within the quotas and admissions within their bound; unregistering
    happens exactly once; a revocation closes all and only the connections of a user; after a close nothing is
    delivered, the lanes drain, the loops end; no channel operation panics; the shutdown of the process is ordered
    whatever runs meanwhile, and it always can complete.
  \<^item> \<^emph>\<open>Formats.\<close> A browser reads from the frames the events that were sent; a published event survives the
    bus, the decryption and the framing; the two transports of the key adapter agree.
  \<^item> \<^emph>\<open>Requests and configuration.\<close> One answer per request; forged address headers are ignored; the rate limiter
    behaves like one bucket per address; readiness is never stale; the first configuration error is reported and
    a loaded configuration is typed.
  \<^item> \<^emph>\<open>Deviations.\<close> Theorems whose text says so show where the code departs from its comments or from what it means
    to do, for instance the write deadline that is never set and the invalidation that races a registration.

  \<^bold>\<open>Parameters.\<close> Third-party code is an argument of the definitions: AES-GCM (\<open>gcm_open\<close>, \<open>gcm_seal\<close>), the transport to
  the key service (\<open>send\<close>, \<open>url_ok\<close>), the JWT library (\<open>parse\<close>, with \<open>jwt_contract\<close>), the token bucket (\<open>new\<close>, \<open>allow\<close>), the key and certificate
  parsers, the Valkey client, the request multiplexer, the Prometheus library (\<open>prometheus_contract\<close>), the system calls of the hardening, the reading
  of times, of fractional durations and of floats, and the split of a URL around its query. The iteration order
  of Go maps is the parameter \<open>ord\<close>, any permutation (\<open>range_order\<close>); times and random values are arguments.

  \<^bold>\<open>Bounds.\<close> No definition uses fuel: loops are structural or have a measure, and goroutines are step relations of
  which reachability, progress and a bound on the number of steps are proved. The nesting limit 10000 of the JSON
  parser, the 1 MiB limit on answers and the payload bound are those of the code. The number of shards is below
  \<open>2 ^ 32\<close> where the 32-bit hash is reduced. In \<open>System\<close> a round of the consumer and a round of a worker are one step; the
  interleavings inside the dispatcher, inside a registration and inside the admission of a request are treated in
  \<open>Dispatcher\<close>, \<open>Hub_Concurrent\<close> and \<open>Api\<close>.

  \<^bold>\<open>Not modelled.\<close> The acceptance of connections and the parsing of HTTP by the Go server, log lines other than their
  redaction, durations measured for histograms, the scrape handler of the Prometheus library, the buffers inside the
  HTTP and JSON packages, and the rest of the test harness. System calls and timers have no model of their own: the
  former are parameters, the latter choices of the step relations.
\<close>

section \<open>From the environment to the recipients of an event\<close>

text \<open>What a connection that receives a routing key has shown: a signed ticket that grants a topic of this key.\<close>

definition entitled ::
  "jwt_config \<Rightarrow> router \<Rightarrow> jwt_validator \<Rightarrow> (string \<Rightarrow> string) \<Rightarrow> (jwt_key \<Rightarrow> string \<Rightarrow> string \<Rightarrow> bool) \<Rightarrow> api \<Rightarrow> string \<Rightarrow> conn \<Rightarrow> bool" where
  "entitled cfg r v alg verifies a key k \<longleftrightarrow>
     (let t = raw_ticket (ap_handler a) (cn_req k) in
      (\<exists>signer. jv_key v = Some signer \<and> alg t = canonical_alg cfg \<and> key_fits (alg t) signer \<and> verifies signer (alg t) t) \<and>
      (\<exists>cap. cn_cap k = Some cap \<and> cap_TenantID cap \<noteq> [] \<and> (jc_RequireExp cfg \<longrightarrow> cap_ExpiresAt cap \<noteq> None) \<and>
        key \<in> set (routing_keys r cap)))"

lemma recipient_entitled:
  assumes start: "start_gateway p e hp = Inr g" and jwt: "NewJWTValidator (pf_keys p) (le_files e) (au_JWT (cf_Auth (rn_cfg g))) = Inr v"
    and contract: "jwt_contract parse alg verifies" and hp: "\<And>c. client_wf (hp c)"
    and ord: "range_order ord" and n: "hb_Shards (cf_Hub (rn_cfg g)) < 2 ^ 32"
  shows "\<exists>r. NewRouter (rt_TopicTemplate (cf_Routing (rn_cfg g))) = Inr r \<and>
    (\<forall>s key c. system_reach unwrap gcm_open ord (Validate parse v) (start_system st g) s \<longrightarrow>
      c \<in> set (hub_recipients ord (sy_hub s) key) \<longrightarrow>
      (\<exists>k \<in> set (ap_conns (sy_api s)). cn_ref k = Some c \<and> entitled (au_JWT (cf_Auth (rn_cfg g))) r v alg verifies (sy_api s) key k))"
proof -
  obtain cfg r where c: "rn_cfg g = cfg" "NewRouter (rt_TopicTemplate (cf_Routing cfg)) = Inr r"
    "Api_NewRouter (pf_mux_ok p) cfg (init_hub hp cfg) r (mc_Enabled (cf_Metrics cfg)) (pf_now p) = Some (rn_router g)"
    using start_Inr [OF start] by metis
  note serve = start_system_api [OF c(3), of st] and hub = init_hub_reach [of hp, OF hp]
  have "\<exists>k \<in> set (ap_conns (sy_api s)). cn_ref k = Some d \<and> entitled (au_JWT (cf_Auth cfg)) r v alg verifies (sy_api s) key k"
    if reach: "system_reach unwrap gcm_open ord (Validate parse v) (start_system st g) s"
      and d: "d \<in> set (hub_recipients ord (sy_hub s) key)" for s key d
  proof -
    obtain k cap now topic where k: "k \<in> set (ap_conns (sy_api s))" "cn_ref k = Some d" "cn_cap k = Some cap"
      "Validate parse v now (raw_ticket (ap_handler (sy_api s)) (cn_req k)) = Inr cap" "topic \<in> set (cap_Topics cap)"
      "key = BuildKey r (cap_TenantID cap) (cap_AppID cap) topic"
      using d unfolding recipients_exact [OF system_api [OF reach, unfolded serve] hub ord n [unfolded c(1)]] by blast
    with authentic_ticket [OF jwt [unfolded c(1)] contract k(4)] show ?thesis
      by (intro bexI [of _ k]) (auto simp: entitled_def routing_keys_def Let_def)
  qed
  with c show ?thesis by blast
qed



end
